(* ===== verification/Prelude.thy ===== *)
theory Prelude
  imports Main "HOL-Library.Word"
begin

text \<open>
  The vocabulary the components share: machine integers as words of their width, addresses, the
  constants of the frame allocator's geometry, and the generic facts about words, powers of two and
  lists on which the component proofs rest.

  C pointers and \<^verbatim>\<open>size_t\<close>/\<^verbatim>\<open>uint64_t\<close> values are \<open>u64\<close>; the null pointer is \<open>0\<close>. Array indices
  that the code keeps in a \<^verbatim>\<open>size_t\<close> or an \<^verbatim>\<open>int\<close> and never lets exceed a small constant are natural
  numbers, with the bound proved where it matters.
\<close>

unbundle bit_operations_syntax

type_synonym u8 = "8 word"
type_synonym u16 = "16 word"
type_synonym u32 = "32 word"
type_synonym u64 = "64 word"

type_synonym addr = u64

named_theorems frame_simps \<open>addresses of page frames and their arithmetic\<close>
named_theorems flist_intros \<open>the doubly linked free lists\<close>

section \<open>Powers of two and aligned indices\<close>

lemma dvd_interval_unique:
  fixes h j d :: nat
  assumes "d dvd h" "d dvd j" "h \<le> j" "j < h + d"
  shows "j = h"
proof -
  from assms(1,2,3) have "d dvd j - h" by simp
  moreover from assms(4) have "j - h < d" using assms(3) by simp
  ultimately have "j - h = 0" using nat_dvd_not_less by (cases "j - h = 0") auto
  then show ?thesis using assms(3) by simp
qed

lemma bit_aligned_iff:
  fixes i :: nat
  assumes "2 ^ k dvd i"
  shows "bit i k \<longleftrightarrow> \<not> 2 ^ Suc k dvd i"
proof -
  obtain q where q: "i = 2 ^ k * q" using assms by auto
  have "bit i k \<longleftrightarrow> odd q" by (simp add: bit_iff_odd q)
  moreover have "2 ^ Suc k dvd i \<longleftrightarrow> even q"
    by (simp add: q mult.commute)
  ultimately show ?thesis by simp
qed

text \<open>Flipping the bit of its own size moves an aligned block index to its buddy.\<close>

lemma xor_buddy:
  fixes i :: nat
  assumes "2 ^ k dvd i"
  shows "i XOR 2 ^ k = (if 2 ^ Suc k dvd i then i + 2 ^ k else i - 2 ^ k)"
proof -
  have "i XOR 2 ^ k = flip_bit k i" by (simp add: flip_bit_eq_xor push_bit_eq_mult)
  also have "\<dots> = (if 2 ^ Suc k dvd i then i + 2 ^ k else i - 2 ^ k)"
  proof (cases "2 ^ Suc k dvd i")
    case True
    then show ?thesis
      using bit_aligned_iff [OF assms] by (simp add: flip_bit_eq_if set_bit_eq)
  next
    case False
    then have b: "bit i k" using bit_aligned_iff [OF assms] by simp
    have "i = set_bit k (unset_bit k i)"
      using b by (intro bit_eqI) (auto simp: bit_set_bit_iff bit_unset_bit_iff)
    also have "\<dots> = unset_bit k i + 2 ^ k"
      by (simp add: set_bit_eq bit_unset_bit_iff)
    finally have "unset_bit k i = i - 2 ^ k" by simp
    then show ?thesis using False b by (simp add: flip_bit_eq_if)
  qed
  finally show ?thesis .
qed

lemma xor_buddy_dvd:
  fixes i :: nat
  assumes "2 ^ k dvd i"
  shows "2 ^ k dvd i XOR 2 ^ k"
  using assms unfolding xor_buddy [OF assms] by (auto intro: dvd_diff_nat)

lemma buddy_below:
  fixes i :: nat
  assumes "2 ^ k dvd i" "\<not> 2 ^ Suc k dvd i"
  shows "2 ^ k \<le> i" and "2 ^ Suc k dvd i - 2 ^ k"
proof -
  obtain q where q: "i = 2 ^ k * q" using assms(1) by auto
  have "odd q" using assms(2) by (simp add: q mult.commute)
  then have "even (q - 1)" "0 < q" by (auto intro: odd_pos)
  moreover have "i - 2 ^ k = 2 ^ k * (q - 1)" using q by (simp add: algebra_simps)
  ultimately show "2 ^ k \<le> i" "2 ^ Suc k dvd i - 2 ^ k" by (simp_all add: q mult.commute)
qed

lemma aligned_less_bound:
  fixes i :: nat
  assumes "2 ^ k dvd i" "i < 2 ^ n" "k \<le> n"
  shows "i + 2 ^ k \<le> 2 ^ n"
proof -
  have d: "(2::nat) ^ k dvd 2 ^ n" using assms(3) by (rule le_imp_power_dvd)
  obtain q where q: "i = 2 ^ k * q" using assms(1) by auto
  obtain r where r: "(2::nat) ^ n = 2 ^ k * r" using d by auto
  from assms(2) have "q < r" by (simp add: q r)
  then have "2 ^ k * (q + 1) \<le> 2 ^ k * r" by (intro mult_le_mono2) simp
  then show ?thesis by (simp add: q r)
qed

lemma pow2_dvd_mono:
  fixes i :: nat
  assumes "2 ^ p dvd i" "q \<le> p"
  shows "2 ^ q dvd i"
  using assms le_imp_power_dvd dvd_trans by blast

section \<open>Words\<close>

lemma unat_u64: "n < 2 ^ 64 \<Longrightarrow> unat (word_of_nat n :: u64) = n"
  by (simp add: unat_of_nat)

lemma unat_u64_less: "unat (x :: u64) < 2 ^ 64"
  using unsigned_less [of x] by simp

lemma unat_u8: "n < 2 ^ 8 \<Longrightarrow> unat (word_of_nat n :: u8) = n"
  by (simp add: unat_of_nat)

lemma and_pow2_u8: "(f :: u8) AND 2 ^ n \<noteq> 0 \<longleftrightarrow> bit f n"
  by (simp add: and_exp_eq_0_iff_not_bit)

lemma and_two_bits_u8:
  fixes f :: u8
  assumes "n < 8" "m < 8"
  shows "f AND (2 ^ n OR 2 ^ m) = 2 ^ n OR 2 ^ m \<longleftrightarrow> bit f n \<and> bit f m"
proof
  assume a: "f AND (2 ^ n OR 2 ^ m) = 2 ^ n OR 2 ^ m"
  show "bit f n \<and> bit f m"
    using arg_cong [OF a, of "\<lambda>w. bit w n"] arg_cong [OF a, of "\<lambda>w. bit w m"] assms
    by (simp add: bit_and_iff bit_or_iff bit_exp_iff)
next
  assume "bit f n \<and> bit f m"
  then show "f AND (2 ^ n OR 2 ^ m) = 2 ^ n OR 2 ^ m"
    by (intro bit_word_eqI) (auto simp: bit_and_iff bit_or_iff bit_exp_iff)
qed

lemma sint_small: "unat x < 2 ^ 31 \<Longrightarrow> sint x = int (unat x)" for x :: u32
proof -
  assume "unat x < 2 ^ 31"
  then have "int (unat x) < int (2 ^ 31)" by (simp only: of_nat_less_iff)
  then have "uint x < 2 ^ 31" by simp
  moreover have "- (2 ^ 31) \<le> uint x" using unsigned_greater_eq [of x] by (rule order_trans [rotated]) simp
  ultimately have "signed_take_bit 31 (uint x) = uint x" by (rule signed_take_bit_int_eq_self [rotated])
  then show ?thesis by (simp add: sint_uint)
qed

text \<open>The value of an \<^verbatim>\<open>int\<close> computation, which wraps around at 32 bits\<close>

definition cint :: "int \<Rightarrow> int" where
  "cint n = sint (of_int n :: u32)"

lemma cint_id: "- (2 ^ 31) \<le> n \<Longrightarrow> n < 2 ^ 31 \<Longrightarrow> cint n = n"
  by (simp add: cint_def sint_sbintrunc' signed_take_bit_int_eq_self)

end
