(* ===== verification/Buddy.thy ===== *)
theory Buddy
  imports Prelude
begin

text \<open>
  The physical frame allocator of \<^verbatim>\<open>OvsbMk/kernel/memory.c\<close>: the state of the file's static variables,
  the doubly linked free lists threaded through the free frames themselves, \<^verbatim>\<open>buddy_alloc\<close>,
  \<^verbatim>\<open>buddy_free\<close> and the user-page layer \<^verbatim>\<open>mmap_user\<close>, \<^verbatim>\<open>munmap_user\<close>, \<^verbatim>\<open>munmap_all_user\<close>.

  Physical memory is a store of 64-bit words at 8-aligned addresses; a structure that lives in memory
  (\<^verbatim>\<open>free_block_t\<close>, \<^verbatim>\<open>slab_t\<close>, a page table) is read and written through that store at its field
  offsets, so two views of one frame alias exactly as they do in the code. A \<^verbatim>\<open>free_block_t\<close> at address
  \<open>a\<close> has \<^verbatim>\<open>next\<close> at \<open>a\<close> and \<^verbatim>\<open>prev\<close> at \<open>a + 8\<close>. The pages and objects of the two per-CPU pools are
  lists whose first element is the entry the next pop returns. \<^verbatim>\<open>cr3\<close> is the page-table root the CPU
  uses. The spin lock and the serial debug output have no effect on this state and are left out.
\<close>

section \<open>State\<close>

abbreviation HEAP_PHYS :: u64 where "HEAP_PHYS \<equiv> 0xA00000"
abbreviation HEAP_SIZE :: u64 where "HEAP_SIZE \<equiv> 0x4000000"
abbreviation FRAME_SIZE :: u64 where "FRAME_SIZE \<equiv> 4096"
abbreviation FRAME_SHIFT :: nat where "FRAME_SHIFT \<equiv> 12"
abbreviation MAX_ORDER :: nat where "MAX_ORDER \<equiv> 14"
abbreviation FRAME_COUNT :: nat where "FRAME_COUNT \<equiv> 2 ^ MAX_ORDER"
abbreviation FRAME_ALLOC :: u8 where "FRAME_ALLOC \<equiv> 0x80"
abbreviation FRAME_USER :: u8 where "FRAME_USER \<equiv> 0x40"
abbreviation FRAME_ORDER :: u8 where "FRAME_ORDER \<equiv> 0x3F"

record kmem_cache =
  obj_size :: u64
  slabs :: addr
  obj_per_slab :: nat
  cache_id :: nat

record kheap =
  mem :: "addr \<Rightarrow> u64"
  frames :: "nat \<Rightarrow> u8"
  free_area :: "nat \<Rightarrow> addr"
  kmalloc_caches :: "kmem_cache list"
  pcpu_pages :: "addr list"
  pcpu_objects :: "nat \<Rightarrow> addr list"
  cr3 :: u64
  user_va_next :: u64

definition poke :: "addr \<Rightarrow> u64 \<Rightarrow> kheap \<Rightarrow> kheap" where
  "poke a v s = s\<lparr>mem := (mem s)(a := v)\<rparr>"

definition set_frame :: "nat \<Rightarrow> u8 \<Rightarrow> kheap \<Rightarrow> kheap" where
  "set_frame i v s = s\<lparr>frames := (frames s)(i := v)\<rparr>"

definition set_area :: "nat \<Rightarrow> addr \<Rightarrow> kheap \<Rightarrow> kheap" where
  "set_area k a s = s\<lparr>free_area := (free_area s)(k := a)\<rparr>"

section \<open>Operations\<close>

definition addr_to_frame :: "u64 \<Rightarrow> nat" where
  "addr_to_frame a = unat (drop_bit FRAME_SHIFT (a - HEAP_PHYS))"

definition frame_to_addr :: "nat \<Rightarrow> u64" where
  "frame_to_addr idx = HEAP_PHYS + push_bit FRAME_SHIFT (of_nat idx)"

definition list_add :: "nat \<Rightarrow> addr \<Rightarrow> kheap \<Rightarrow> kheap" where
  "list_add k blk s =
    (let head = free_area s k;
         s = poke blk head s;
         s = poke (blk + 8) 0 s;
         s = (if head \<noteq> 0 then poke (head + 8) blk s else s)
     in set_area k blk s)"

definition list_remove :: "nat \<Rightarrow> addr \<Rightarrow> kheap \<Rightarrow> kheap" where
  "list_remove k blk s =
    (let s = (if mem s (blk + 8) \<noteq> 0 then poke (mem s (blk + 8)) (mem s blk) s
              else set_area k (mem s blk) s)
     in if mem s blk \<noteq> 0 then poke (mem s blk + 8) (mem s (blk + 8)) s else s)"

definition found_order :: "kheap \<Rightarrow> nat \<Rightarrow> nat option" where
  "found_order s order = find (\<lambda>k. free_area s k \<noteq> 0) [order..<Suc MAX_ORDER]"

fun buddy_split :: "nat \<Rightarrow> nat \<Rightarrow> nat \<Rightarrow> kheap \<Rightarrow> kheap" where
  "buddy_split order k block_idx s =
    (if order < k then
       let buddy_idx = block_idx XOR 2 ^ (k - 1);
           s = set_frame buddy_idx (of_nat (k - 1)) s;
           s = list_add (k - 1) (frame_to_addr buddy_idx) s
       in buddy_split order (k - 1) block_idx s
     else s)"

definition buddy_alloc :: "int \<Rightarrow> bool \<Rightarrow> kheap \<Rightarrow> addr \<times> kheap" where
  "buddy_alloc order user s =
    (if order < 0 \<or> order > int MAX_ORDER then (0, s)
     else case found_order s (nat order) of
       None \<Rightarrow> (0, s)
     | Some k \<Rightarrow>
         let block = free_area s k;
             s = list_remove k block s;
             block_idx = addr_to_frame block;
             s = buddy_split (nat order) k block_idx s;
             s = set_frame block_idx (of_int order OR FRAME_ALLOC) s;
             s = (if user then set_frame block_idx (frames s block_idx OR FRAME_USER) s else s)
         in (frame_to_addr block_idx, s))"

function buddy_merge :: "nat \<Rightarrow> nat \<Rightarrow> kheap \<Rightarrow> nat \<times> nat \<times> kheap" where
  "buddy_merge idx order s =
    (if order < MAX_ORDER then
       let buddy_idx = idx XOR 2 ^ order in
       if frames s buddy_idx AND (FRAME_ALLOC OR FRAME_ORDER) = of_nat order then
         let s = list_remove order (frame_to_addr buddy_idx) s;
             idx = (if idx < buddy_idx then idx else buddy_idx);
             s = set_frame idx (of_nat (Suc order)) s
         in buddy_merge idx (Suc order) s
       else (idx, order, s)
     else (idx, order, s))"
  by pat_completeness auto
termination
  by (relation "measure (\<lambda>(_, order, _). MAX_ORDER - order)") auto

definition buddy_free :: "addr \<Rightarrow> int \<Rightarrow> kheap \<Rightarrow> kheap" where
  "buddy_free a order s =
    (if a = 0 \<or> order < 0 \<or> order > int MAX_ORDER then s
     else if a < HEAP_PHYS \<or> a \<ge> HEAP_PHYS + HEAP_SIZE then s
     else if a AND (FRAME_SIZE - 1) \<noteq> 0 then s
     else
       let idx = addr_to_frame a;
           s = set_frame idx (of_int order) s
       in case buddy_merge idx (nat order) s of
            (idx, k, s) \<Rightarrow> list_add k (frame_to_addr idx) s)"

text \<open>The size-to-order loop that \<^verbatim>\<open>kmalloc\<close>, \<^verbatim>\<open>kcalloc\<close> and \<^verbatim>\<open>mmap_user\<close> repeat: the least order,
  from \<open>order\<close> on, whose block holds \<open>pages\<close> frames. The page counts are below \<open>2 ^ 52\<close>, so the shift
  never reaches the width of the word.\<close>

function order_for :: "nat \<Rightarrow> nat \<Rightarrow> nat" where
  "order_for pages order = (if 2 ^ order < pages then order_for pages (Suc order) else order)"
  by pat_completeness auto
termination
  by (relation "measure (\<lambda>(pages, order). pages - 2 ^ order)") (auto intro: diff_less_mono2)

definition size_to_pages :: "u64 \<Rightarrow> nat" where
  "size_to_pages len = unat ((len + FRAME_SIZE - 1) div FRAME_SIZE)"

definition zero_bytes :: "addr \<Rightarrow> nat \<Rightarrow> kheap \<Rightarrow> kheap" where
  "zero_bytes p n s =
    s\<lparr>mem := \<lambda>a. if unat p \<le> unat a \<and> unat a < unat p + n then 0 else mem s a\<rparr>"

definition mmap_user :: "u64 \<Rightarrow> kheap \<Rightarrow> addr \<times> kheap" where
  "mmap_user len s =
    (let pages = size_to_pages len;
         pages = (if pages = 0 then 1 else pages);
         order = order_for pages 0
     in case buddy_alloc (int order) True s of
          (result, s) \<Rightarrow>
            if result \<noteq> 0 then (result, zero_bytes result (pages * 4096) s) else (result, s))"

definition munmap_user :: "addr \<Rightarrow> kheap \<Rightarrow> int \<times> kheap" where
  "munmap_user a s =
    (if a = 0 then (0, s)
     else if a AND (FRAME_SIZE - 1) \<noteq> 0 then (-1, s)
     else let idx = addr_to_frame a in
       if idx \<ge> FRAME_COUNT then (-1, s)
       else if frames s idx AND FRAME_ALLOC = 0 then (0, s)
       else (0, buddy_free a (uint (frames s idx AND FRAME_ORDER)) s))"

function munmap_all_from :: "nat \<Rightarrow> kheap \<Rightarrow> kheap" where
  "munmap_all_from i s =
    (if i < FRAME_COUNT then
       let f = frames s i in
       if f AND (FRAME_ALLOC OR FRAME_USER) = FRAME_ALLOC OR FRAME_USER then
         let order = unat (f AND FRAME_ORDER);
             s = set_frame i (of_nat order) s
         in case buddy_merge i order s of
              (idx, ord, s) \<Rightarrow>
                munmap_all_from (i + 2 ^ order) (list_add ord (frame_to_addr idx) s)
       else munmap_all_from (i + 1) s
     else s)"
  by pat_completeness auto
termination
  by (relation "measure (\<lambda>(i, _). FRAME_COUNT - i)") (auto intro!: diff_less_mono2)

definition munmap_all_user :: "kheap \<Rightarrow> kheap" where
  "munmap_all_user s = munmap_all_from 0 s"

definition memory_init :: "kheap \<Rightarrow> kheap" where
  "memory_init s =
    (let s = s\<lparr>free_area := \<lambda>_. 0, frames := \<lambda>_. 0\<rparr>;
         block = HEAP_PHYS;
         s = poke block 0 s;
         s = poke (block + 8) 0 s;
         s = set_area MAX_ORDER block s;
         s = set_frame 0 (of_nat MAX_ORDER) s
     in s\<lparr>kmalloc_caches :=
             map (\<lambda>i. \<lparr>obj_size = of_nat (2 ^ (i + 4)), slabs = 0,
                        obj_per_slab = (4096 - 48) div 2 ^ (i + 4), cache_id = i\<rparr>) [0..<8],
           pcpu_pages := [], pcpu_objects := \<lambda>_. []\<rparr>)"

declare buddy_split.simps [simp del] buddy_merge.simps [simp del]
  order_for.simps [simp del] munmap_all_from.simps [simp del]

end
