(* ===== verification/FreeList.thy ===== *)
theory FreeList
  imports Buddy
begin

text \<open>
  The free lists of the frame allocator in the store: addresses of frames are distinct and in range,
  \<open>flist m p pr xs\<close> reads the doubly linked list of frames \<open>xs\<close> off the store \<open>m\<close>, and
  \<^verbatim>\<open>list_add\<close>/\<^verbatim>\<open>list_remove\<close> implement consing and deletion on it, touching no other frame.
\<close>

section \<open>Frame addresses\<close>

lemma frame_to_addr_of_nat: "frame_to_addr i = word_of_nat (0xA00000 + 4096 * i)"
  by (simp add: frame_to_addr_def push_bit_eq_mult)

lemma unat_frame_to_addr [frame_simps]:
  "i < FRAME_COUNT \<Longrightarrow> unat (frame_to_addr i) = 0xA00000 + 4096 * i"
  unfolding frame_to_addr_of_nat by (subst unat_u64) auto

lemma unat_frame_to_addr_off [frame_simps]:
  assumes "i < FRAME_COUNT" "d < 4096"
  shows "unat (frame_to_addr i + word_of_nat d) = 0xA00000 + 4096 * i + d"
proof -
  have e: "frame_to_addr i + word_of_nat d = word_of_nat (0xA00000 + 4096 * i + d)"
    by (simp add: frame_to_addr_of_nat)
  show ?thesis unfolding e by (rule unat_u64) (use assms in simp)
qed

lemma unat_frame_to_addr_8 [frame_simps]:
  "i < FRAME_COUNT \<Longrightarrow> unat (frame_to_addr i + 8) = 0xA00000 + 4096 * i + 8"
  using unat_frame_to_addr_off [of i 8] by simp

lemma frame_to_addr_inj [simp]:
  assumes "i < FRAME_COUNT" "j < FRAME_COUNT"
  shows "frame_to_addr i = frame_to_addr j \<longleftrightarrow> i = j"
proof
  assume "frame_to_addr i = frame_to_addr j"
  then have "unat (frame_to_addr i) = unat (frame_to_addr j)" by simp
  then show "i = j" using assms by (simp add: frame_simps)
qed simp

lemma frame_to_addr_neq_8 [simp]:
  assumes "i < FRAME_COUNT" "j < FRAME_COUNT"
  shows "frame_to_addr i \<noteq> frame_to_addr j + 8" "frame_to_addr j + 8 \<noteq> frame_to_addr i"
proof -
  show "frame_to_addr i \<noteq> frame_to_addr j + 8"
  proof
    assume "frame_to_addr i = frame_to_addr j + 8"
    then have "unat (frame_to_addr i) = unat (frame_to_addr j + 8)" by (rule arg_cong)
    then have "4096 * i = 4096 * j + 8" using assms by (simp only: frame_simps)
    then have "4096 * i mod 4096 = (4096 * j + 8) mod 4096" by (rule arg_cong)
    then show False by simp
  qed
  then show "frame_to_addr j + 8 \<noteq> frame_to_addr i" by (rule not_sym)
qed

lemma frame_to_addr_nonzero [simp]:
  assumes "i < FRAME_COUNT"
  shows "frame_to_addr i \<noteq> 0"
proof
  assume "frame_to_addr i = 0"
  then have "unat (frame_to_addr i) = 0" by simp
  then show False using assms by (simp add: frame_simps)
qed

lemma addr_to_frame_to_addr [simp]:
  assumes "i < FRAME_COUNT"
  shows "addr_to_frame (frame_to_addr i) = i"
proof -
  have e: "frame_to_addr i - HEAP_PHYS = word_of_nat (4096 * i)"
    by (simp add: frame_to_addr_of_nat)
  have u: "unat (word_of_nat (4096 * i) :: u64) = 4096 * i"
    by (rule unat_u64) (use assms in simp)
  show ?thesis unfolding addr_to_frame_def unat_drop_bit_eq e u
    by (simp add: drop_bit_eq_div)
qed

lemma frame_to_addr_push: "frame_to_addr i = push_bit 12 (word_of_nat (0xA00 + i))"
  by (simp add: frame_to_addr_of_nat push_bit_eq_mult)

lemma and_4095: "(a :: u64) AND (FRAME_SIZE - 1) = take_bit 12 a"
  by (simp add: take_bit_eq_mask mask_eq_exp_minus_1)

lemma frame_to_addr_aligned [simp]: "take_bit 12 (frame_to_addr i) = 0"
  by (simp add: frame_to_addr_push take_bit_push_bit)

lemma aligned_is_frame:
  assumes "take_bit 12 a = 0"
  shows "frame_to_addr (addr_to_frame a) = a"
proof -
  let ?y = "drop_bit 12 a - 0xA00"
  have "a = push_bit 12 (drop_bit 12 a)" using bits_ident [of 12 a] assms by simp
  then have "a = 4096 * drop_bit 12 a" by (simp add: push_bit_eq_mult mult.commute)
  then have d: "a - HEAP_PHYS = push_bit 12 ?y" by (simp add: push_bit_eq_mult algebra_simps)
  have "push_bit 12 (drop_bit 12 (push_bit 12 ?y)) = push_bit 12 ?y"
    using bits_ident [of 12 "push_bit 12 ?y"] by (simp add: take_bit_push_bit)
  then show ?thesis by (simp add: frame_to_addr_def addr_to_frame_def flip: d)
qed

lemma frame_to_addr_range:
  assumes "i < FRAME_COUNT"
  shows "HEAP_PHYS \<le> frame_to_addr i" "frame_to_addr i < HEAP_PHYS + HEAP_SIZE"
  using unat_frame_to_addr [OF assms] assms by (simp_all add: word_le_nat_alt word_less_nat_alt)

section \<open>Frame bytes\<close>

lemma order_byte:
  assumes "k \<le> MAX_ORDER"
  shows "word_of_nat k AND FRAME_ALLOC = 0"
    and "word_of_nat k AND (FRAME_ALLOC OR FRAME_ORDER) = (word_of_nat k :: u8)"
    and "word_of_nat k AND (FRAME_ALLOC OR FRAME_USER) = (0 :: u8)"
    and "unat ((word_of_nat k OR FRAME_ALLOC) AND FRAME_ORDER) = k"
    and "(word_of_nat k OR FRAME_ALLOC) AND FRAME_ALLOC = FRAME_ALLOC"
    and "unat ((word_of_nat k OR FRAME_ALLOC OR FRAME_USER) AND FRAME_ORDER) = k"
    and "(word_of_nat k OR FRAME_ALLOC OR FRAME_USER) AND FRAME_ALLOC = FRAME_ALLOC"
    and "(word_of_nat k OR FRAME_ALLOC) AND FRAME_USER = 0"
    and "(word_of_nat k OR FRAME_ALLOC OR FRAME_USER) AND FRAME_USER = FRAME_USER"
proof -
  have "k = 0 \<or> k = 1 \<or> k = 2 \<or> k = 3 \<or> k = 4 \<or> k = 5 \<or> k = 6 \<or> k = 7 \<or> k = 8 \<or> k = 9 \<or>
    k = 10 \<or> k = 11 \<or> k = 12 \<or> k = 13 \<or> k = 14" using assms by arith
  then show "word_of_nat k AND FRAME_ALLOC = 0"
    "word_of_nat k AND (FRAME_ALLOC OR FRAME_ORDER) = (word_of_nat k :: u8)"
    "word_of_nat k AND (FRAME_ALLOC OR FRAME_USER) = (0 :: u8)"
    "unat ((word_of_nat k OR FRAME_ALLOC) AND FRAME_ORDER) = k"
    "(word_of_nat k OR FRAME_ALLOC) AND FRAME_ALLOC = FRAME_ALLOC"
    "unat ((word_of_nat k OR FRAME_ALLOC OR FRAME_USER) AND FRAME_ORDER) = k"
    "(word_of_nat k OR FRAME_ALLOC OR FRAME_USER) AND FRAME_ALLOC = FRAME_ALLOC"
    "(word_of_nat k OR FRAME_ALLOC) AND FRAME_USER = 0"
    "(word_of_nat k OR FRAME_ALLOC OR FRAME_USER) AND FRAME_USER = FRAME_USER"
    by (elim disjE; simp)+
qed

lemma order_byte_inj:
  assumes "k \<le> MAX_ORDER" "l \<le> MAX_ORDER" "(word_of_nat k :: u8) = word_of_nat l"
  shows "k = l"
  using arg_cong [OF assms(3), of unat] assms(1,2) by (simp add: unat_u8)

lemma order_mask_alloc:
  fixes f :: u8
  assumes "f AND (FRAME_ALLOC OR FRAME_ORDER) = word_of_nat k" "k \<le> MAX_ORDER"
  shows "f AND FRAME_ALLOC = 0"
proof -
  have "f AND FRAME_ALLOC = (f AND (FRAME_ALLOC OR FRAME_ORDER)) AND FRAME_ALLOC"
    by (simp add: and.assoc)
  also have "\<dots> = 0" unfolding assms(1) by (rule order_byte(1) [OF assms(2)])
  finally show ?thesis .
qed

section \<open>The free lists in the store\<close>

fun flist :: "(addr \<Rightarrow> u64) \<Rightarrow> addr \<Rightarrow> addr \<Rightarrow> nat list \<Rightarrow> bool" where
  "flist m p pr [] \<longleftrightarrow> p = 0"
| "flist m p pr (i # xs) \<longleftrightarrow>
     p = frame_to_addr i \<and> m (frame_to_addr i + 8) = pr \<and>
     flist m (m (frame_to_addr i)) (frame_to_addr i) xs"

lemma flist_cong:
  assumes "\<And>i. i \<in> set xs \<Longrightarrow> m' (frame_to_addr i) = m (frame_to_addr i)"
    and "\<And>i. i \<in> set xs \<Longrightarrow> m' (frame_to_addr i + 8) = m (frame_to_addr i + 8)"
  shows "flist m' p pr xs \<longleftrightarrow> flist m p pr xs"
  using assms by (induction xs arbitrary: p pr) auto

lemma flist_prev:
  "flist m p pr (xs @ i # ys) \<Longrightarrow>
    m (frame_to_addr i + 8) = (if xs = [] then pr else frame_to_addr (last xs))"
  by (induction xs arbitrary: p pr) auto

lemma flist_next:
  "flist m p pr (xs @ i # ys) \<Longrightarrow>
    m (frame_to_addr i) = (if ys = [] then 0 else frame_to_addr (hd ys))"
  by (induction xs arbitrary: p pr) (cases ys; auto)+

lemma flist_head: "flist m p pr xs \<Longrightarrow> p = (if xs = [] then 0 else frame_to_addr (hd xs))"
  by (cases xs) auto

lemma flist_add:
  assumes "flist m p 0 xs" "distinct (i # xs)" "\<And>j. j \<in> set (i # xs) \<Longrightarrow> j < FRAME_COUNT"
    and "m' = (if p \<noteq> 0 then (m(a := p, a + 8 := 0))(p + 8 := a) else m(a := p, a + 8 := 0))"
    and "a = frame_to_addr i"
  shows "flist m' a 0 (i # xs)"
proof (cases xs)
  case Nil
  then show ?thesis using assms by simp
next
  case (Cons x ys)
  have b: "i < FRAME_COUNT" "x < FRAME_COUNT" "\<And>j. j \<in> set ys \<Longrightarrow> j < FRAME_COUNT"
    and ne: "x \<noteq> i" "x \<notin> set ys" "i \<notin> set ys"
    using assms Cons by auto
  have p: "p = frame_to_addr x" "flist m (m p) p ys" using assms Cons by auto
  have m': "m' = (m(a := p, a + 8 := 0))(p + 8 := a)" using assms p b by simp
  have "flist m' (m p) p ys \<longleftrightarrow> flist m (m p) p ys"
    by (rule flist_cong) (use b ne p assms(5) m' in auto)
  then show ?thesis using Cons p b ne assms(5) m' by simp
qed

lemma flist_remove_inner:
  assumes "flist m p pr (x # xs @ i # ys)" "distinct (x # xs @ i # ys)"
    and "\<And>j. j \<in> set (x # xs @ i # ys) \<Longrightarrow> j < FRAME_COUNT"
    and "m1 = m(m (frame_to_addr i + 8) := m (frame_to_addr i))"
    and "m' = (if m (frame_to_addr i) \<noteq> 0
               then m1(m (frame_to_addr i) + 8 := m (frame_to_addr i + 8)) else m1)"
  shows "flist m' p pr (x # xs @ ys)"
  using assms(1,2,3)
proof (induction xs arbitrary: x p pr)
  case Nil
  then have p: "p = frame_to_addr x" "m (p + 8) = pr" "m p = frame_to_addr i"
    "m (frame_to_addr i + 8) = p" "flist m (m (frame_to_addr i)) (frame_to_addr i) ys"
    by auto
  show ?case
  proof (cases ys)
    case Nil
    then show ?thesis using p Nil.prems assms(4,5) by auto
  next
    case (Cons y zs)
    have b: "x < FRAME_COUNT" "i < FRAME_COUNT" "y < FRAME_COUNT" "\<And>j. j \<in> set zs \<Longrightarrow> j < FRAME_COUNT"
      using Nil.prems Cons by auto
    have nx: "m (frame_to_addr i) = frame_to_addr y" "flist m (m (frame_to_addr y)) (frame_to_addr y) zs"
      using p Cons by auto
    have m': "m' = m(frame_to_addr x := frame_to_addr y, frame_to_addr y + 8 := frame_to_addr x)"
      using assms(4,5) nx p b by simp
    have "flist m' (m (frame_to_addr y)) (frame_to_addr y) zs"
      using nx by (subst flist_cong [where m = m]) (use b Nil.prems Cons m' in auto)
    moreover have "m' (frame_to_addr x) = frame_to_addr y" "m' (frame_to_addr x + 8) = pr"
      "m' (frame_to_addr y + 8) = frame_to_addr x" "m' (frame_to_addr y) = m (frame_to_addr y)"
      using m' p b Nil.prems Cons by auto
    ultimately show ?thesis using Cons p by simp
  qed
next
  case (Cons z zs)
  have p: "p = frame_to_addr x" "m (p + 8) = pr" and f: "flist m (m p) p ((z # zs) @ i # ys)"
    using Cons.prems(1) unfolding append_Cons flist.simps by blast+
  have pv: "m (frame_to_addr i + 8) = frame_to_addr (last (z # zs))"
    using flist_prev [OF f] by simp
  have nx: "m (frame_to_addr i) = (if ys = [] then 0 else frame_to_addr (hd ys))"
    using flist_next [OF f] .
  have lb: "last (z # zs) < FRAME_COUNT" "last (z # zs) \<noteq> x"
    using Cons.prems(2,3) last_in_set [of "z # zs"] by auto
  have xb: "x < FRAME_COUNT" using Cons.prems(3) by simp
  have hb: "ys \<noteq> [] \<Longrightarrow> hd ys < FRAME_COUNT \<and> hd ys \<noteq> x" using Cons.prems(2,3) by (cases ys) auto
  have m1: "m1 (frame_to_addr x) = m (frame_to_addr x)" "m1 (frame_to_addr x + 8) = m (frame_to_addr x + 8)"
    unfolding assms(4) pv using lb xb by (simp_all del: last.simps)
  have m': "m' (frame_to_addr x) = m (frame_to_addr x)" "m' (frame_to_addr x + 8) = m (frame_to_addr x + 8)"
    unfolding assms(5) using nx m1 hb xb by auto
  have "flist m' (m p) p (z # zs @ ys)"
    by (rule Cons.IH) (use f Cons.prems(2,3) in auto)
  then show ?case unfolding append_Cons flist.simps(2) [of m' p] using p m' by (simp del: flist.simps)
qed

lemma update_simps [simp]:
  "mem (poke a v s) = (mem s)(a := v)" "frames (poke a v s) = frames s"
  "free_area (poke a v s) = free_area s"
  "mem (set_frame i w s) = mem s" "frames (set_frame i w s) = (frames s)(i := w)"
  "free_area (set_frame i w s) = free_area s"
  "mem (set_area k a s) = mem s" "frames (set_area k a s) = frames s"
  "free_area (set_area k a s) = (free_area s)(k := a)"
  by (simp_all add: poke_def set_frame_def set_area_def)

text \<open>The parts of the state that belong to the layers above the frame allocator.\<close>

definition caches :: "kheap \<Rightarrow> kmem_cache list \<times> addr list \<times> (nat \<Rightarrow> addr list) \<times> u64 \<times> u64" where
  "caches s = (kmalloc_caches s, pcpu_pages s, pcpu_objects s, cr3 s, user_va_next s)"

lemma caches_update [simp]:
  "caches (poke a v s) = caches s" "caches (set_frame i w s) = caches s"
  "caches (set_area k a s) = caches s"
  by (simp_all add: caches_def poke_def set_frame_def set_area_def)

lemma list_add_simps [simp]:
  "frames (list_add k a s) = frames s" "caches (list_add k a s) = caches s"
  "free_area (list_add k a s) = (free_area s)(k := a)"
  by (simp_all add: list_add_def Let_def)

lemma mem_list_add:
  "mem (list_add k a s) =
    (if free_area s k \<noteq> 0
     then ((mem s)(a := free_area s k, a + 8 := 0))(free_area s k + 8 := a)
     else (mem s)(a := free_area s k, a + 8 := 0))"
  by (simp add: list_add_def Let_def)

lemma list_remove_simps [simp]:
  "frames (list_remove k a s) = frames s" "caches (list_remove k a s) = caches s"
  by (simp_all add: list_remove_def Let_def)

lemma list_remove_area: "j \<noteq> k \<Longrightarrow> free_area (list_remove k a s) j = free_area s j"
  by (simp add: list_remove_def Let_def)

text \<open>\<open>list_add\<close> and \<open>list_remove\<close> on a well-linked list: consing and deleting an element.\<close>

lemma list_add_flist:
  assumes "flist (mem s) (free_area s k) 0 xs" "distinct (i # xs)"
    and "\<And>j. j \<in> set (i # xs) \<Longrightarrow> j < FRAME_COUNT"
  shows "flist (mem (list_add k (frame_to_addr i) s)) (free_area (list_add k (frame_to_addr i) s) k) 0 (i # xs)"
  by (simp only: list_add_simps fun_upd_same) (rule flist_add [OF assms mem_list_add refl])

lemma list_add_mem_other:
  assumes "flist (mem s) (free_area s k) 0 xs"
    and "\<And>j. j \<in> set (i # xs) \<Longrightarrow> a \<noteq> frame_to_addr j \<and> a \<noteq> frame_to_addr j + 8"
  shows "mem (list_add k (frame_to_addr i) s) a = mem s a"
  using assms flist_head [OF assms(1)] by (cases xs) (auto simp: mem_list_add)

lemma list_remove_head_flist:
  assumes f: "flist (mem s) (free_area s k) 0 (i # ys)" and d: "distinct (i # ys)"
    and b: "\<And>j. j \<in> set (i # ys) \<Longrightarrow> j < FRAME_COUNT"
  shows "flist (mem (list_remove k (frame_to_addr i) s))
    (free_area (list_remove k (frame_to_addr i) s) k) 0 ys"
proof (cases ys)
  case Nil
  then show ?thesis using f by (simp add: list_remove_def Let_def)
next
  case (Cons y zs)
  have nx: "mem s (frame_to_addr i) = frame_to_addr y" "mem s (frame_to_addr i + 8) = 0"
    "flist (mem s) (mem s (frame_to_addr y)) (frame_to_addr y) zs"
    using f Cons by auto
  have bb: "i < FRAME_COUNT" "y < FRAME_COUNT" "\<And>j. j \<in> set zs \<Longrightarrow> j < FRAME_COUNT"
    using b Cons by auto
  have m: "mem (list_remove k (frame_to_addr i) s) = (mem s)(frame_to_addr y + 8 := 0)"
    "free_area (list_remove k (frame_to_addr i) s) k = frame_to_addr y"
    using nx bb by (simp_all add: list_remove_def Let_def)
  have "flist ((mem s)(frame_to_addr y + 8 := 0)) (mem s (frame_to_addr y)) (frame_to_addr y) zs"
    by (subst flist_cong [where m = "mem s"]) (use nx bb d Cons in auto)
  then show ?thesis unfolding m Cons using bb by simp
qed

lemma mem_list_remove_inner:
  assumes "flist (mem s) (free_area s k) 0 (x # xs @ i # ys)"
    and "distinct (x # xs @ i # ys)" "\<And>j. j \<in> set (x # xs @ i # ys) \<Longrightarrow> j < FRAME_COUNT"
  defines "m1 \<equiv> (mem s)(mem s (frame_to_addr i + 8) := mem s (frame_to_addr i))"
  shows "mem (list_remove k (frame_to_addr i) s) = (if mem s (frame_to_addr i) \<noteq> 0
      then m1(mem s (frame_to_addr i) + 8 := mem s (frame_to_addr i + 8)) else m1)"
    and "free_area (list_remove k (frame_to_addr i) s) = free_area s"
proof -
  have pv: "mem s (frame_to_addr i + 8) = frame_to_addr (last (x # xs))"
    using flist_prev [of "mem s" "free_area s k" 0 "x # xs" i ys] assms(1) by simp
  have lb: "last (x # xs) < FRAME_COUNT" "last (x # xs) \<noteq> i" "i < FRAME_COUNT"
    using assms(2,3) last_in_set [of "x # xs"] by auto
  have nz: "mem s (frame_to_addr i + 8) \<noteq> 0" using pv lb by (simp del: last.simps)
  have m1: "m1 (frame_to_addr i) = mem s (frame_to_addr i)"
    "m1 (frame_to_addr i + 8) = mem s (frame_to_addr i + 8)"
    using lb pv by (simp_all add: m1_def del: last.simps)
  show "mem (list_remove k (frame_to_addr i) s) = (if mem s (frame_to_addr i) \<noteq> 0
      then m1(mem s (frame_to_addr i) + 8 := mem s (frame_to_addr i + 8)) else m1)"
    unfolding list_remove_def Let_def using nz m1 by (simp add: m1_def)
  show "free_area (list_remove k (frame_to_addr i) s) = free_area s"
    unfolding list_remove_def Let_def using nz by simp
qed

lemma list_remove_flist:
  assumes f: "flist (mem s) (free_area s k) 0 (xs @ i # ys)" and d: "distinct (xs @ i # ys)"
    and b: "\<And>j. j \<in> set (xs @ i # ys) \<Longrightarrow> j < FRAME_COUNT"
  shows "flist (mem (list_remove k (frame_to_addr i) s))
    (free_area (list_remove k (frame_to_addr i) s) k) 0 (xs @ ys)"
proof (cases xs)
  case Nil
  then show ?thesis using list_remove_head_flist [of s k i ys] f d b by simp
next
  case (Cons x zs)
  note fdb = f [unfolded Cons append_Cons] d [unfolded Cons append_Cons] b [unfolded Cons append_Cons]
  have "flist (mem (list_remove k (frame_to_addr i) s)) (free_area s k) 0 (x # zs @ ys)"
    by (rule flist_remove_inner [OF fdb refl mem_list_remove_inner(1) [OF fdb]])
  then show ?thesis using mem_list_remove_inner(2) [OF fdb] Cons by simp
qed

lemma list_remove_mem_other:
  assumes f: "flist (mem s) (free_area s k) 0 (xs @ i # ys)"
    and a: "\<And>j. j \<in> set (xs @ i # ys) \<Longrightarrow> a \<noteq> frame_to_addr j \<and> a \<noteq> frame_to_addr j + 8"
    and d: "distinct (xs @ i # ys)" and b: "\<And>j. j \<in> set (xs @ i # ys) \<Longrightarrow> j < FRAME_COUNT"
  shows "mem (list_remove k (frame_to_addr i) s) a = mem s a"
proof (cases xs)
  case Nil
  then show ?thesis using f a by (cases ys) (auto simp: list_remove_def Let_def)
next
  case (Cons x zs)
  note fdb = f [unfolded Cons append_Cons] d [unfolded Cons append_Cons] b [unfolded Cons append_Cons]
  have pv: "mem s (frame_to_addr i + 8) = frame_to_addr (last xs)"
    using flist_prev [OF f] Cons by simp
  have nx: "mem s (frame_to_addr i) = (if ys = [] then 0 else frame_to_addr (hd ys))"
    using flist_next [OF f] .
  have "last xs \<in> set xs" using Cons by (intro last_in_set) simp
  then have "a \<noteq> frame_to_addr (last xs)" using a by simp
  moreover have "ys \<noteq> [] \<Longrightarrow> a \<noteq> frame_to_addr (hd ys) + 8" using a by (cases ys) auto
  ultimately show ?thesis
    using mem_list_remove_inner(1) [OF fdb] pv nx by auto
qed

end
