(* ===== verification/Partition.thy ===== *)
theory Partition
  imports Prelude
begin

text \<open>
  The abstract view of the frame allocator: a set of aligned blocks \<open>(i, k)\<close>, each covering the
  \<open>2 ^ k\<close> frames from \<open>i\<close> on, that partitions the frames of a heap of \<open>2 ^ n\<close> frames. Splitting a block
  in halves and merging two buddies keep a partition a partition, and the buddy frame of a block is
  always the head of a block that is not larger.
\<close>

type_synonym block = "nat \<times> nat"

definition blk :: "block \<Rightarrow> nat set" where
  "blk b = {fst b ..< fst b + 2 ^ snd b}"

definition block_ok :: "nat \<Rightarrow> block \<Rightarrow> bool" where
  "block_ok n b \<longleftrightarrow> snd b \<le> n \<and> 2 ^ snd b dvd fst b \<and> fst b < 2 ^ n"

definition tiling :: "nat \<Rightarrow> block set \<Rightarrow> bool" where
  "tiling n B \<longleftrightarrow> (\<forall>b\<in>B. block_ok n b) \<and> (\<forall>j<2 ^ n. \<exists>!b. b \<in> B \<and> j \<in> blk b)"

lemma blk_head [simp]: "i \<in> blk (i, k)"
  by (simp add: blk_def)

lemma mem_blk [simp]: "j \<in> blk (i, k) \<longleftrightarrow> i \<le> j \<and> j < i + 2 ^ k"
  by (simp add: blk_def)

lemma block_ok_bound:
  assumes "block_ok n (i, k)"
  shows "i + 2 ^ k \<le> 2 ^ n"
  using assms aligned_less_bound unfolding block_ok_def by simp

lemma block_ok_subset:
  assumes "block_ok n b" "j \<in> blk b"
  shows "j < 2 ^ n"
  using assms block_ok_bound [of n "fst b" "snd b"] by (cases b) auto

lemma tiling_ok:
  assumes "tiling n B" "b \<in> B"
  shows "block_ok n b"
  using assms unfolding tiling_def by blast

lemma tiling_unique:
  assumes "tiling n B" "b \<in> B" "c \<in> B" "j \<in> blk b" "j \<in> blk c"
  shows "b = c"
proof -
  have "j < 2 ^ n" using assms block_ok_subset tiling_ok by blast
  then show ?thesis using assms unfolding tiling_def by blast
qed

lemma tiling_cover:
  assumes "tiling n B" "j < 2 ^ n"
  obtains b where "b \<in> B" "j \<in> blk b"
  using assms unfolding tiling_def by blast

lemma tiling_disjoint:
  assumes "tiling n B" "b \<in> B" "c \<in> B" "b \<noteq> c"
  shows "blk b \<inter> blk c = {}"
  using assms tiling_unique by blast

lemma tiling_head_unique:
  assumes "tiling n B" "(i, k) \<in> B" "(i, l) \<in> B"
  shows "k = l"
  using tiling_unique [OF assms, of i] by simp

lemma tilingI:
  assumes "\<And>b. b \<in> B \<Longrightarrow> block_ok n b"
    and "\<And>j. j < 2 ^ n \<Longrightarrow> \<exists>b. b \<in> B \<and> j \<in> blk b"
    and "\<And>b c j. b \<in> B \<Longrightarrow> c \<in> B \<Longrightarrow> j \<in> blk b \<Longrightarrow> j \<in> blk c \<Longrightarrow> b = c"
  shows "tiling n B"
  using assms unfolding tiling_def by blast

lemma tiling_full: "tiling n {(0, n)}"
  by (rule tilingI) (auto simp: block_ok_def)

text \<open>Replacing some blocks by others that cover the same frames.\<close>

lemma tiling_replace:
  assumes p: "tiling n (X \<union> B)" and d: "X \<inter> B = {}"
    and ok: "\<And>b. b \<in> Y \<Longrightarrow> block_ok n b"
    and cov: "\<Union> (blk ` Y) = \<Union> (blk ` X)"
    and dj: "\<And>b c j. b \<in> Y \<Longrightarrow> c \<in> Y \<Longrightarrow> j \<in> blk b \<Longrightarrow> j \<in> blk c \<Longrightarrow> b = c"
  shows "tiling n (Y \<union> B)"
proof (rule tilingI)
  show "block_ok n b" if "b \<in> Y \<union> B" for b
    using that ok tiling_ok [OF p] by blast
  show "\<exists>b. b \<in> Y \<union> B \<and> j \<in> blk b" if j: "j < 2 ^ n" for j
  proof -
    obtain b where b: "b \<in> X \<union> B" "j \<in> blk b" using tiling_cover [OF p j] .
    then have "b \<in> B \<or> j \<in> \<Union> (blk ` Y)" using cov by blast
    then show ?thesis using b by blast
  qed
  have mix: False if bc: "b \<in> Y" "c \<in> B" "j \<in> blk b" "j \<in> blk c" for b c j
  proof -
    have "j \<in> \<Union> (blk ` X)" using bc(1,3) cov by auto
    then obtain x where x: "x \<in> X" "j \<in> blk x" by auto
    then have "x = c" using tiling_unique [OF p, of x c j] bc by simp
    then show False using x bc d by auto
  qed
  show "b = c" if h: "b \<in> Y \<union> B" "c \<in> Y \<union> B" "j \<in> blk b" "j \<in> blk c" for b c j
  proof -
    consider "b \<in> Y" "c \<in> Y" | "b \<in> Y" "c \<in> B" | "b \<in> B" "c \<in> Y" | "b \<in> B" "c \<in> B"
      using h by blast
    then show ?thesis
    proof cases
      case 4
      then show ?thesis using tiling_unique [OF p, of b c j] h by simp
    qed (use h mix [of b c j] mix [of c b j] dj [of b c j] in simp_all)
  qed
qed

lemma replace_fresh:
  assumes p: "tiling n (X \<union> B)" and d: "X \<inter> B = {}"
    and cov: "\<Union> (blk ` Y) = \<Union> (blk ` X)" and ne: "y \<in> Y" "blk y \<noteq> {}"
  shows "y \<notin> B"
proof
  assume "y \<in> B"
  obtain j where j: "j \<in> blk y" using ne by blast
  then obtain x where "x \<in> X" "j \<in> blk x" using cov ne by blast
  then show False using tiling_unique [OF p, of x y j] \<open>y \<in> B\<close> j d by blast
qed

lemma blk_halves: "blk (i, Suc k) = blk (i, k) \<union> blk (i + 2 ^ k, k)"
  by (auto simp: blk_def)

lemma block_ok_halves:
  assumes "block_ok n (i, Suc k)"
  shows "block_ok n (i, k)" "block_ok n (i + 2 ^ k, k)"
proof -
  have "2 ^ k dvd i" using assms pow2_dvd_mono [of "Suc k" i k] by (simp add: block_ok_def)
  then show "block_ok n (i, k)" "block_ok n (i + 2 ^ k, k)"
    using assms block_ok_bound [OF assms] by (auto simp: block_ok_def)
qed

lemma tiling_split:
  assumes p: "tiling n (insert (i, Suc k) B)" and d: "(i, Suc k) \<notin> B"
  shows "tiling n (insert (i, k) (insert (i + 2 ^ k, k) B))"
    and "(i, k) \<notin> B" and "(i + 2 ^ k, k) \<notin> B"
proof -
  let ?X = "{(i, Suc k)}" and ?Y = "{(i, k), (i + 2 ^ k, k)}"
  have p': "tiling n (?X \<union> B)" and d': "?X \<inter> B = {}" using p d by auto
  have cov: "\<Union> (blk ` ?Y) = \<Union> (blk ` ?X)" by (simp add: blk_halves)
  have ok: "block_ok n (i, Suc k)" using tiling_ok [OF p] by blast
  have "tiling n (?Y \<union> B)"
    by (rule tiling_replace [OF p' d' _ cov]) (use block_ok_halves [OF ok] in auto)
  then show "tiling n (insert (i, k) (insert (i + 2 ^ k, k) B))" by simp
  show "(i, k) \<notin> B" "(i + 2 ^ k, k) \<notin> B"
    using replace_fresh [OF p' d' cov, of "(i, k)"] replace_fresh [OF p' d' cov, of "(i + 2 ^ k, k)"]
    by (auto simp: blk_def)
qed

lemma tiling_join:
  assumes p: "tiling n (insert (i, k) (insert (i + 2 ^ k, k) B))"
    and d: "(i, k) \<notin> B" "(i + 2 ^ k, k) \<notin> B" and al: "2 ^ Suc k dvd i" "Suc k \<le> n"
  shows "tiling n (insert (i, Suc k) B)" and "(i, Suc k) \<notin> B"
proof -
  let ?X = "{(i, k), (i + 2 ^ k, k)}" and ?Y = "{(i, Suc k)}"
  have p': "tiling n (?X \<union> B)" and d': "?X \<inter> B = {}" using p d by auto
  have cov: "\<Union> (blk ` ?Y) = \<Union> (blk ` ?X)" by (simp add: blk_halves)
  have "block_ok n (i, k)" using tiling_ok [OF p] by blast
  then have ok: "block_ok n (i, Suc k)" using al by (simp add: block_ok_def)
  have "tiling n (?Y \<union> B)"
    by (rule tiling_replace [OF p' d' _ cov]) (use ok in auto)
  then show "tiling n (insert (i, Suc k) B)" by simp
  show "(i, Suc k) \<notin> B"
    using replace_fresh [OF p' d' cov, of "(i, Suc k)"] by (auto simp: blk_def)
qed

section \<open>Buddies\<close>

lemma buddy_in_heap:
  assumes "block_ok n (i, k)" "k < n"
  shows "block_ok n (i XOR 2 ^ k, k)"
proof -
  have al: "2 ^ k dvd i" and i: "i < 2 ^ n" using assms by (auto simp: block_ok_def)
  have "i XOR 2 ^ k < 2 ^ n"
  proof (cases "2 ^ Suc k dvd i")
    case True
    then have "i + 2 ^ Suc k \<le> 2 ^ n" using aligned_less_bound [of "Suc k" i n] i assms(2) by simp
    then show ?thesis using True by (simp add: xor_buddy [OF al]) (use zero_less_power [of "2::nat" k] in linarith)
  next
    case False
    then show ?thesis using i by (simp add: xor_buddy [OF al])
  qed
  then show ?thesis using assms xor_buddy_dvd [OF al] by (simp add: block_ok_def)
qed

lemma mem_blk_div:
  assumes "2 ^ l dvd h"
  shows "j \<in> blk (h, l) \<longleftrightarrow> j div 2 ^ l = h div 2 ^ l"
proof -
  obtain q where q: "h = 2 ^ l * q" using assms by auto
  have "j div 2 ^ l = q \<longleftrightarrow> q * 2 ^ l \<le> j \<and> j < (q + 1) * 2 ^ l"
    by (auto simp: div_nat_eqI dividend_less_times_div mult.commute)
  then show ?thesis by (simp add: q algebra_simps)
qed

lemma buddy_same_block:
  assumes "2 ^ l dvd h" "k < l"
  shows "i XOR 2 ^ k \<in> blk (h, l) \<longleftrightarrow> i \<in> blk (h, l)"
proof -
  have "drop_bit l (i XOR 2 ^ k) = drop_bit l i"
    using assms(2) by (simp add: drop_bit_xor) (simp add: drop_bit_eq_div)
  then show ?thesis unfolding mem_blk_div [OF assms(1)] by (simp add: drop_bit_eq_div)
qed

lemma buddy_is_head:
  assumes p: "tiling n B" and b: "(i, k) \<in> B" and k: "k < n"
  obtains l where "(i XOR 2 ^ k, l) \<in> B" "l \<le> k"
proof -
  let ?j = "i XOR 2 ^ k"
  have jok: "block_ok n (?j, k)" using buddy_in_heap [OF tiling_ok [OF p b] k] .
  then obtain h l where hl: "(h, l) \<in> B" "?j \<in> blk (h, l)"
    using tiling_cover [OF p, of ?j] unfolding block_ok_def by (metis fst_conv surj_pair)
  have hok: "2 ^ l dvd h" using tiling_ok [OF p hl(1)] by (simp add: block_ok_def)
  have lk: "l \<le> k"
  proof (rule ccontr)
    assume "\<not> l \<le> k"
    then have "i \<in> blk (h, l)" using buddy_same_block [OF hok, of k i] hl(2) by simp
    then have "(i, k) = (h, l)" using tiling_unique [OF p b hl(1), of i] by simp
    then show False using \<open>\<not> l \<le> k\<close> by simp
  qed
  have "2 ^ l dvd ?j" using jok pow2_dvd_mono [of k ?j l] lk by (simp add: block_ok_def)
  then have "?j = h" using dvd_interval_unique [OF hok] hl(2) by simp
  then show ?thesis using that hl(1) lk by blast
qed

text \<open>Merging a block with its buddy, as the allocator does it: the lower index, one order up.\<close>

lemma tiling_merge:
  assumes p: "tiling n (insert (i, k) (insert (i XOR 2 ^ k, k) B))"
    and d: "(i, k) \<notin> B" "(i XOR 2 ^ k, k) \<notin> B" and k: "k < n"
  shows "tiling n (insert (min i (i XOR 2 ^ k), Suc k) B)"
    and "(min i (i XOR 2 ^ k), Suc k) \<notin> B"
proof -
  have al: "2 ^ k dvd i" using tiling_ok [OF p, of "(i, k)"] by (simp add: block_ok_def)
  have "tiling n (insert (min i (i XOR 2 ^ k), Suc k) B) \<and> (min i (i XOR 2 ^ k), Suc k) \<notin> B"
  proof (cases "2 ^ Suc k dvd i")
    case True
    then have j: "i XOR 2 ^ k = i + 2 ^ k" using xor_buddy [OF al] by simp
    show ?thesis using tiling_join [of n i k B] p d True k unfolding j by simp
  next
    case False
    note ge = buddy_below(1) [OF al False]
    have j: "i XOR 2 ^ k = i - 2 ^ k" using xor_buddy [OF al] False by simp
    have up: "i - 2 ^ k + 2 ^ k = i" using ge by simp
    have m: "min i (i - 2 ^ k) = i - 2 ^ k" by (rule min_absorb2) simp
    have p': "tiling n (insert (i - 2 ^ k, k) (insert (i - 2 ^ k + 2 ^ k, k) B))"
      using p unfolding j up by (simp only: insert_commute)
    show ?thesis unfolding j m
      using tiling_join [OF p' _ _ buddy_below(2) [OF al False]] d k unfolding j up by auto
  qed
  then show "tiling n (insert (min i (i XOR 2 ^ k), Suc k) B)"
    "(min i (i XOR 2 ^ k), Suc k) \<notin> B" by auto
qed

section \<open>Coalesced partitions\<close>

text \<open>A set of free blocks is coalesced when no two buddies are both free. Together with the allocated
  blocks, which fix the free frames, coalescing determines the free blocks uniquely.\<close>

definition coalesced :: "nat \<Rightarrow> block set \<Rightarrow> bool" where
  "coalesced n F \<longleftrightarrow> (\<forall>i k. (i, k) \<in> F \<longrightarrow> k < n \<longrightarrow> (i XOR 2 ^ k, k) \<notin> F)"

lemma coalesced_subset:
  assumes "coalesced n F" "G \<subseteq> F"
  shows "coalesced n G"
  using assms unfolding coalesced_def by blast

lemma coalesced_insert:
  assumes "coalesced n F" "k < n \<Longrightarrow> (i XOR 2 ^ k, k) \<notin> F"
  shows "coalesced n (insert (i, k) F)"
proof -
  have "bit (i XOR 2 ^ k) k \<noteq> bit i k" by (simp add: bit_xor_iff bit_exp_iff)
  then have ne: "i XOR 2 ^ k \<noteq> i" by metis
  have flip: "j = i XOR 2 ^ k" if "j XOR 2 ^ k = i" for j
    using that by (auto simp: xor.assoc)
  show ?thesis
    using assms ne flip unfolding coalesced_def by (metis insert_iff prod.inject)
qed

lemma coalesced_no_proper:
  assumes p: "tiling n (F \<union> A)" and c: "coalesced n F" and q: "tiling n (G \<union> A)"
    and hl: "(h, l) \<in> G" "(h, l) \<notin> A"
  shows "(i, k) \<in> F \<Longrightarrow> k < l \<Longrightarrow> i \<notin> blk (h, l)"
proof (induction k arbitrary: i rule: less_induct)
  case (less k)
  show ?case
  proof
    assume i: "i \<in> blk (h, l)"
    have hok: "block_ok n (h, l)" using tiling_ok [OF q] hl by blast
    then have k: "k < n" using less.prems by (simp add: block_ok_def)
    have al: "2 ^ l dvd h" using hok by (simp add: block_ok_def)
    let ?j = "i XOR 2 ^ k"
    have j: "?j \<in> blk (h, l)" using buddy_same_block [OF al less.prems(2), of i] i by simp
    obtain m where m: "(?j, m) \<in> F \<union> A" "m \<le> k"
      using buddy_is_head [OF p, of i k] less.prems k by blast
    have "(?j, m) \<notin> A"
      using tiling_unique [OF q, of "(h, l)" "(?j, m)" ?j] hl j m less.prems by auto
    then have mF: "(?j, m) \<in> F" using m by simp
    moreover have "m \<noteq> k" using c less.prems k mF unfolding coalesced_def by blast
    ultimately have "?j \<notin> blk (h, l)" using less.IH [of m ?j] m less.prems by simp
    then show False using j by simp
  qed
qed

theorem coalesced_unique:
  assumes p: "tiling n (F \<union> A)" "coalesced n F" "F \<inter> A = {}"
    and q: "tiling n (G \<union> A)" "coalesced n G" "G \<inter> A = {}"
  shows "F \<subseteq> G"
proof
  fix b assume b: "b \<in> F"
  obtain i k where ik: "b = (i, k)" by (cases b)
  have bok: "block_ok n (i, k)" using tiling_ok [OF p(1)] b ik by blast
  then obtain h l where hl: "(h, l) \<in> G \<union> A" "i \<in> blk (h, l)"
    using tiling_cover [OF q(1), of i] unfolding block_ok_def by (metis fst_conv surj_pair)
  have "(h, l) \<notin> A"
    using tiling_unique [OF p(1), of b "(h, l)" i] b ik hl p(3) by auto
  then have g: "(h, l) \<in> G" using hl by simp
  have al: "2 ^ l dvd h" "2 ^ k dvd i"
    using tiling_ok [OF q(1), of "(h, l)"] g bok by (auto simp: block_ok_def)
  have "\<not> k < l"
    using coalesced_no_proper [OF p(1,2) q(1) g \<open>(h, l) \<notin> A\<close>, of i k] b ik hl by blast
  moreover have "\<not> l < k"
  proof
    assume lk: "l < k"
    have "2 ^ l dvd i" using pow2_dvd_mono [OF al(2), of l] lk by simp
    then have "i = h" using dvd_interval_unique [OF al(1)] hl(2) by simp
    then show False
      using coalesced_no_proper [OF q(1,2) p(1), of i k h l] b ik g lk p(3) by auto
  qed
  ultimately have "k = l" by simp
  then have "i = h" using dvd_interval_unique [OF al(1)] al(2) hl(2) by simp
  then show "b \<in> G" using ik g \<open>k = l\<close> by simp
qed

end
