(* ===== verification/BuddyInv.thy ===== *)
theory BuddyInv
  imports FreeList Partition
begin

text \<open>
  Correctness of the frame allocator. The invariant \<open>binv s fl H\<close> says that the free lists \<open>fl\<close>, the
  allocated blocks recorded in \<^verbatim>\<open>frames\<close> and the blocks \<open>H\<close> that an operation holds in between tile the
  heap, and that \<^verbatim>\<open>frames\<close> agrees with the lists. Each primitive step of \<^verbatim>\<open>buddy_alloc\<close> and
  \<^verbatim>\<open>buddy_free\<close> moves blocks between these three sets.
\<close>

section \<open>The invariant\<close>

definition free_blocks :: "(nat \<Rightarrow> nat list) \<Rightarrow> block set" where
  "free_blocks fl = {(i, k). k \<le> MAX_ORDER \<and> i \<in> set (fl k)}"

definition is_alloc :: "kheap \<Rightarrow> nat \<Rightarrow> bool" where
  "is_alloc s i \<longleftrightarrow> frames s i AND FRAME_ALLOC \<noteq> 0"

definition frame_order :: "kheap \<Rightarrow> nat \<Rightarrow> nat" where
  "frame_order s i = unat (frames s i AND FRAME_ORDER)"

definition alloc_blocks :: "kheap \<Rightarrow> block set" where
  "alloc_blocks s = {(i, k). i < FRAME_COUNT \<and> is_alloc s i \<and> k = frame_order s i}"

definition binv :: "kheap \<Rightarrow> (nat \<Rightarrow> nat list) \<Rightarrow> block set \<Rightarrow> bool" where
  "binv s fl H \<longleftrightarrow>
    (\<forall>k \<le> MAX_ORDER. flist (mem s) (free_area s k) 0 (fl k) \<and> distinct (fl k)) \<and>
    tiling MAX_ORDER (free_blocks fl \<union> alloc_blocks s \<union> H) \<and>
    H \<inter> (free_blocks fl \<union> alloc_blocks s) = {} \<and>
    (\<forall>i k. (i, k) \<in> free_blocks fl \<longrightarrow> frames s i = of_nat k)"

definition unalloc :: "kheap \<Rightarrow> nat set" where
  "unalloc s = {..<FRAME_COUNT} - \<Union> (blk ` alloc_blocks s)"

text \<open>What a step that allocates and releases nothing keeps: the flags of the allocated blocks, the
  state of the layers above, and every word of memory but the list links in unallocated frames.\<close>

definition keeps :: "kheap \<Rightarrow> kheap \<Rightarrow> bool" where
  "keeps s s' \<longleftrightarrow>
    (\<forall>i. is_alloc s i \<or> is_alloc s' i \<longrightarrow> frames s' i = frames s i) \<and>
    (\<forall>a. (\<forall>j\<in>unalloc s. a \<noteq> frame_to_addr j \<and> a \<noteq> frame_to_addr j + 8) \<longrightarrow> mem s' a = mem s a) \<and>
    caches s' = caches s"

lemma keeps_refl [simp]: "keeps s s"
  by (simp add: keeps_def)

lemma keeps_alloc:
  assumes "keeps s s'"
  shows "is_alloc s' = is_alloc s" "alloc_blocks s' = alloc_blocks s" "unalloc s' = unalloc s"
proof -
  show i: "is_alloc s' = is_alloc s"
    using assms by (auto simp: keeps_def is_alloc_def fun_eq_iff)
  then have "is_alloc s i \<Longrightarrow> frame_order s' i = frame_order s i" for i
    using assms by (simp add: keeps_def frame_order_def)
  with i show a: "alloc_blocks s' = alloc_blocks s" by (auto simp: alloc_blocks_def)
  show "unalloc s' = unalloc s" by (simp add: unalloc_def a)
qed

lemma keeps_trans:
  assumes "keeps s t" "keeps t u"
  shows "keeps s u"
  using assms keeps_alloc [OF assms(1)] keeps_alloc [OF assms(2)] unfolding keeps_def by metis

lemma keeps_user: "keeps s t \<Longrightarrow> is_alloc s i \<Longrightarrow> frames t i = frames s i"
  by (simp add: keeps_def)

lemma binv_tiling: "binv s fl H \<Longrightarrow> tiling MAX_ORDER (free_blocks fl \<union> alloc_blocks s \<union> H)"
  by (simp add: binv_def)

lemma binv_flist:
  assumes "binv s fl H" "k \<le> MAX_ORDER"
  shows "flist (mem s) (free_area s k) 0 (fl k)" "distinct (fl k)"
  using assms by (simp_all add: binv_def)

lemma binv_free_bound:
  assumes "binv s fl H" "k \<le> MAX_ORDER" "i \<in> set (fl k)"
  shows "i < FRAME_COUNT"
  using tiling_ok [OF binv_tiling [OF assms(1)], of "(i, k)"] assms
  by (simp add: free_blocks_def block_ok_def)

lemma free_unalloc:
  assumes "binv s fl H" "(i, k) \<in> free_blocks fl \<union> H" "j \<in> blk (i, k)"
  shows "j \<in> unalloc s"
proof -
  note t = binv_tiling [OF assms(1)]
  have "j < FRAME_COUNT" using block_ok_subset [OF tiling_ok [OF t]] assms(2,3) by blast
  moreover have False if "b \<in> alloc_blocks s" "j \<in> blk b" for b
  proof -
    have "b = (i, k)" using tiling_unique [OF t, of b "(i, k)" j] that assms(2,3) by blast
    moreover have "is_alloc s (fst b)" using that(1) by (auto simp: alloc_blocks_def)
    moreover have "\<not> is_alloc s i" if "(i, k) \<in> free_blocks fl"
    proof -
      have "frames s i = of_nat k" "k \<le> 14" using assms(1) that by (auto simp: binv_def free_blocks_def)
      then show ?thesis by (simp add: is_alloc_def order_byte)
    qed
    ultimately show False using assms(1,2) that(1) unfolding binv_def by auto
  qed
  ultimately show ?thesis by (auto simp: unalloc_def)
qed

section \<open>Steps\<close>

lemma alloc_blocks_cong: "frames s' = frames s \<Longrightarrow> alloc_blocks s' = alloc_blocks s"
  by (simp add: alloc_blocks_def is_alloc_def frame_order_def)

lemma binv_lists_apart:
  assumes "binv s fl H" "k \<le> MAX_ORDER" "l \<le> MAX_ORDER" "k \<noteq> l" "i \<in> set (fl k)"
  shows "i \<notin> set (fl l)"
proof
  assume "i \<in> set (fl l)"
  then have "k = l"
    using tiling_head_unique [OF binv_tiling [OF assms(1)], of i k l] assms
    by (simp add: free_blocks_def)
  then show False using assms(4) by simp
qed

lemma flist_other_list:
  assumes inv: "binv s fl H" "k \<le> MAX_ORDER" "l \<le> MAX_ORDER" "l \<noteq> k"
    and m: "\<And>a. (\<And>j. j \<in> insert i (set (fl k)) \<Longrightarrow> a \<noteq> frame_to_addr j \<and> a \<noteq> frame_to_addr j + 8) \<Longrightarrow>
      m' a = mem s a"
    and i: "i < FRAME_COUNT" "i \<notin> set (fl l)"
  shows "flist m' (free_area s l) 0 (fl l)"
proof -
  have "a \<noteq> frame_to_addr j \<and> a \<noteq> frame_to_addr j + 8"
    if "x \<in> set (fl l)" "a = frame_to_addr x \<or> a = frame_to_addr x + 8" "j \<in> insert i (set (fl k))" for x a j
  proof -
    have "x \<noteq> j" "x < FRAME_COUNT" "j < FRAME_COUNT"
      using that i binv_lists_apart [OF inv(1,3,2,4), of x] binv_free_bound [OF inv(1)] inv by auto
    then show ?thesis using that(2) by auto
  qed
  then have "flist m' (free_area s l) 0 (fl l) = flist (mem s) (free_area s l) 0 (fl l)"
    by (intro flist_cong m) blast+
  then show ?thesis using binv_flist(1) [OF inv(1,3)] by simp
qed

lemma binv_unlink:
  assumes inv: "binv s fl H" and k: "k \<le> MAX_ORDER" and fl: "fl k = xs @ i # ys"
  defines "s' \<equiv> list_remove k (frame_to_addr i) s"
  shows "binv s' (fl(k := xs @ ys)) (insert (i, k) H)" and "(i, k) \<notin> H" and "keeps s s'"
    and "free_blocks (fl(k := xs @ ys)) = free_blocks fl - {(i, k)}"
proof -
  have f: "flist (mem s) (free_area s k) 0 (xs @ i # ys)" and d: "distinct (xs @ i # ys)"
    using binv_flist [OF inv k] fl by auto
  have b: "\<And>j. j \<in> set (xs @ i # ys) \<Longrightarrow> j < FRAME_COUNT"
    using binv_free_bound [OF inv k] fl by simp
  have fr: "frames s' = frames s" "alloc_blocks s' = alloc_blocks s"
    unfolding s'_def by simp (rule alloc_blocks_cong, simp)
  show fb: "free_blocks (fl(k := xs @ ys)) = free_blocks fl - {(i, k)}"
    using d fl by (auto simp: free_blocks_def)
  have ik: "(i, k) \<in> free_blocks fl" using k fl by (simp add: free_blocks_def)
  then show nH: "(i, k) \<notin> H" using inv by (auto simp: binv_def)
  have na: "(i, k) \<notin> alloc_blocks s"
    using free_unalloc [OF inv, of i k i] ik unfolding unalloc_def by auto
  have m: "mem s' a = mem s a"
    if "\<And>j. j \<in> set (fl k) \<Longrightarrow> a \<noteq> frame_to_addr j \<and> a \<noteq> frame_to_addr j + 8" for a
    unfolding s'_def by (rule list_remove_mem_other [OF f _ d b]) (use that fl in auto)
  have "flist (mem s') (free_area s' l) 0 ((fl(k := xs @ ys)) l) \<and> distinct ((fl(k := xs @ ys)) l)"
    if l: "l \<le> MAX_ORDER" for l
  proof (cases "l = k")
    case True
    then show ?thesis using list_remove_flist [OF f d b] d by (simp add: s'_def)
  next
    case False
    have "i \<notin> set (fl l)" using binv_lists_apart [OF inv k l, of i] False fl by simp
    then have "flist (mem s') (free_area s l) 0 (fl l)"
      using flist_other_list [OF inv k l False, of i "mem s'"] m b fl by auto
    then show ?thesis using False binv_flist(2) [OF inv l] by (simp add: s'_def list_remove_area)
  qed
  moreover have "free_blocks (fl(k := xs @ ys)) \<union> alloc_blocks s' \<union> insert (i, k) H
      = free_blocks fl \<union> alloc_blocks s \<union> H"
    using ik fr by (auto simp: fb)
  ultimately show "binv s' (fl(k := xs @ ys)) (insert (i, k) H)"
    using inv na fr fb unfolding binv_def by auto
  have un: "j \<in> unalloc s" if "j \<in> set (fl k)" for j
    using free_unalloc [OF inv, of j k j] that k by (simp add: free_blocks_def)
  show "keeps s s'"
    unfolding keeps_def using m un fr by (auto simp: s'_def)
qed

lemma binv_link:
  assumes inv: "binv s fl (insert (i, k) H)" and nH: "(i, k) \<notin> H" and fi: "frames s i = of_nat k"
  defines "s' \<equiv> list_add k (frame_to_addr i) s"
  shows "binv s' (fl(k := i # fl k)) H" and "keeps s s'"
    and "free_blocks (fl(k := i # fl k)) = insert (i, k) (free_blocks fl)"
proof -
  have ok: "block_ok MAX_ORDER (i, k)" using tiling_ok [OF binv_tiling [OF inv]] by simp
  then have k: "k \<le> MAX_ORDER" and i: "i < FRAME_COUNT" by (auto simp: block_ok_def)
  have nf: "(i, k) \<notin> free_blocks fl" using inv by (auto simp: binv_def)
  have nh: "i \<notin> set (fl l)" if l: "l \<le> MAX_ORDER" for l
  proof
    assume "i \<in> set (fl l)"
    then have "(i, l) \<in> free_blocks fl" using l by (simp add: free_blocks_def)
    moreover from this have "l = k" using tiling_head_unique [OF binv_tiling [OF inv], of i l k] by simp
    ultimately show False using nf by simp
  qed
  note f = binv_flist [OF inv k]
  have d: "distinct (i # fl k)" using f(2) nh [OF k] by simp
  have b: "\<And>j. j \<in> set (i # fl k) \<Longrightarrow> j < FRAME_COUNT"
    using binv_free_bound [OF inv k] i by auto
  have fr: "frames s' = frames s" "alloc_blocks s' = alloc_blocks s"
    unfolding s'_def by simp (rule alloc_blocks_cong, simp)
  show fb: "free_blocks (fl(k := i # fl k)) = insert (i, k) (free_blocks fl)"
    using k by (auto simp: free_blocks_def)
  have m: "mem s' a = mem s a"
    if "\<And>j. j \<in> insert i (set (fl k)) \<Longrightarrow> a \<noteq> frame_to_addr j \<and> a \<noteq> frame_to_addr j + 8" for a
    unfolding s'_def by (rule list_add_mem_other [OF f(1)]) (use that in auto)
  have "flist (mem s') (free_area s' l) 0 ((fl(k := i # fl k)) l) \<and> distinct ((fl(k := i # fl k)) l)"
    if l: "l \<le> MAX_ORDER" for l
  proof (cases "l = k")
    case True
    then show ?thesis using list_add_flist [OF f(1) d b] d by (simp add: s'_def)
  next
    case False
    have "flist (mem s') (free_area s l) 0 (fl l)"
      by (rule flist_other_list [OF inv k l False m i nh [OF l]])
    then show ?thesis using False binv_flist(2) [OF inv l] by (simp add: s'_def)
  qed
  moreover have "free_blocks (fl(k := i # fl k)) \<union> alloc_blocks s' \<union> H
      = free_blocks fl \<union> alloc_blocks s \<union> insert (i, k) H"
    using fr by (auto simp: fb)
  ultimately show "binv s' (fl(k := i # fl k)) H"
    using inv nH fr fb fi unfolding binv_def by auto
  have un: "j \<in> unalloc s" if "j \<in> insert i (set (fl k))" for j
    using free_unalloc [OF inv, of j k j] that k by (auto simp: free_blocks_def)
  show "keeps s s'"
    unfolding keeps_def using m un fr by (auto simp: s'_def)
qed

lemma hole_not_alloc:
  assumes "binv s fl H" "(i, k) \<in> H"
  shows "\<not> is_alloc s i" "i < FRAME_COUNT"
proof -
  note t = binv_tiling [OF assms(1)]
  show i: "i < FRAME_COUNT" using tiling_ok [OF t, of "(i, k)"] assms(2) by (simp add: block_ok_def)
  show "\<not> is_alloc s i"
  proof
    assume "is_alloc s i"
    then have a: "(i, frame_order s i) \<in> alloc_blocks s" using i by (simp add: alloc_blocks_def)
    then have "frame_order s i = k" using tiling_head_unique [OF t, of i "frame_order s i" k] assms(2) by simp
    then show False using a assms unfolding binv_def by auto
  qed
qed

lemma hole_not_free:
  assumes "binv s fl H" "(i, k) \<in> H"
  shows "(i, l) \<notin> free_blocks fl"
proof
  assume f: "(i, l) \<in> free_blocks fl"
  then have "l = k" using tiling_head_unique [OF binv_tiling [OF assms(1)], of i l k] assms(2) by simp
  then show False using assms f unfolding binv_def by auto
qed

lemma binv_hole_frame:
  assumes inv: "binv s fl H" and h: "(i, k) \<in> H" and v: "v AND FRAME_ALLOC = 0"
  shows "binv (set_frame i v s) fl H" and "keeps s (set_frame i v s)"
proof -
  note na = hole_not_alloc [OF inv h]
  have ia: "is_alloc (set_frame i v s) = is_alloc s"
    using na v by (auto simp: is_alloc_def fun_eq_iff)
  have "alloc_blocks (set_frame i v s) = alloc_blocks s"
    using na by (auto simp: alloc_blocks_def ia frame_order_def)
  then show "binv (set_frame i v s) fl H"
    using inv hole_not_free [OF inv h] unfolding binv_def by auto
  show "keeps s (set_frame i v s)"
    using na ia unfolding keeps_def by (auto simp: fun_eq_iff)
qed

lemma binv_split:
  assumes inv: "binv s fl (insert (b, Suc k) H)" and nH: "(b, Suc k) \<notin> H"
  shows "binv s fl (insert (b + 2 ^ k, k) (insert (b, k) H))"
    and "(b, k) \<notin> H" and "(b + 2 ^ k, k) \<notin> insert (b, k) H" and "b XOR 2 ^ k = b + 2 ^ k"
proof -
  let ?B = "free_blocks fl \<union> alloc_blocks s \<union> H"
  have t: "tiling MAX_ORDER (insert (b, Suc k) ?B)" and n: "(b, Suc k) \<notin> ?B"
    using inv nH by (auto simp: binv_def)
  note sp = tiling_split [OF t n]
  show "(b, k) \<notin> H" "(b + 2 ^ k, k) \<notin> insert (b, k) H" using sp by auto
  have "binv s fl (insert (b, k) (insert (b + 2 ^ k, k) H))"
    using inv sp by (auto simp: binv_def)
  then show "binv s fl (insert (b + 2 ^ k, k) (insert (b, k) H))" by (simp only: insert_commute)
  have "2 ^ Suc k dvd b" using tiling_ok [OF t, of "(b, Suc k)"] by (simp add: block_ok_def)
  then show "b XOR 2 ^ k = b + 2 ^ k" using xor_buddy [of k b] pow2_dvd_mono [of "Suc k" b k] by simp
qed

lemma binv_merge:
  assumes inv: "binv s fl (insert (i, k) (insert (i XOR 2 ^ k, k) H))"
    and nH: "(i, k) \<notin> H" "(i XOR 2 ^ k, k) \<notin> H" and k: "k < MAX_ORDER"
  shows "binv s fl (insert (min i (i XOR 2 ^ k), Suc k) H)"
    and "(min i (i XOR 2 ^ k), Suc k) \<notin> H"
proof -
  let ?B = "free_blocks fl \<union> alloc_blocks s \<union> H"
  have t: "tiling MAX_ORDER (insert (i, k) (insert (i XOR 2 ^ k, k) ?B))"
    and n: "(i, k) \<notin> ?B" "(i XOR 2 ^ k, k) \<notin> ?B"
    using inv nH by (auto simp: binv_def)
  note mg = tiling_merge [OF t n k]
  show "(min i (i XOR 2 ^ k), Suc k) \<notin> H" using mg by simp
  show "binv s fl (insert (min i (i XOR 2 ^ k), Suc k) H)"
    using inv mg by (auto simp: binv_def)
qed

section \<open>The split loop of \<open>buddy_alloc\<close>\<close>

lemma buddy_split_correct:
  assumes "binv s fl (insert (b, k) H)" "(b, k) \<notin> H" "order \<le> k"
  shows "\<exists>fl'. binv (buddy_split order k b s) fl' (insert (b, order) H) \<and> (b, order) \<notin> H \<and>
    keeps s (buddy_split order k b s) \<and>
    free_blocks fl' = free_blocks fl \<union> {(b + 2 ^ j, j) |j. order \<le> j \<and> j < k}"
  using assms
proof (induction k arbitrary: s fl)
  case 0
  then show ?case by (intro exI [of _ fl]) (simp add: buddy_split.simps)
next
  case (Suc k)
  show ?case
  proof (cases "order = Suc k")
    case True
    then show ?thesis using Suc.prems by (intro exI [of _ fl]) (auto simp: buddy_split.simps)
  next
    case False
    then have ok: "order \<le> k" using Suc.prems by simp
    note sp = binv_split [OF Suc.prems(1,2)]
    have "k \<le> MAX_ORDER"
      using tiling_ok [OF binv_tiling [OF sp(1)], of "(b, k)"] by (simp add: block_ok_def)
    note hf = binv_hole_frame [OF sp(1) insertI1 order_byte(1) [OF this]]
    let ?s1 = "set_frame (b + 2 ^ k) (of_nat k) s"
    note ln = binv_link [OF hf(1) sp(3)]
    let ?s2 = "list_add k (frame_to_addr (b + 2 ^ k)) ?s1"
    have s2: "binv ?s2 (fl(k := (b + 2 ^ k) # fl k)) (insert (b, k) H)" "keeps ?s1 ?s2"
      "free_blocks (fl(k := (b + 2 ^ k) # fl k)) = insert (b + 2 ^ k, k) (free_blocks fl)"
      using ln by simp_all
    from Suc.IH [OF s2(1) sp(2) ok] obtain fl' where fl':
      "binv (buddy_split order k b ?s2) fl' (insert (b, order) H)" "(b, order) \<notin> H"
      "keeps ?s2 (buddy_split order k b ?s2)"
      "free_blocks fl' = insert (b + 2 ^ k, k) (free_blocks fl) \<union> {(b + 2 ^ j, j) |j. order \<le> j \<and> j < k}"
      using s2(3) by blast
    have eq: "buddy_split order (Suc k) b s = buddy_split order k b ?s2"
      using False Suc.prems(3) sp(4) by (subst buddy_split.simps) (simp add: Let_def)
    have "keeps s (buddy_split order k b ?s2)"
      using keeps_trans [OF keeps_trans [OF hf(2) s2(2)] fl'(3)] .
    moreover have "free_blocks fl' = free_blocks fl \<union> {(b + 2 ^ j, j) |j. order \<le> j \<and> j < Suc k}"
      using fl'(4) ok by (auto simp: less_Suc_eq)
    ultimately show ?thesis unfolding eq using fl'(1,2) by blast
  qed
qed

section \<open>Allocation\<close>

lemma found_order_None:
  assumes "found_order s n = None" "n \<le> k" "k \<le> MAX_ORDER"
  shows "free_area s k = 0"
  using assms unfolding found_order_def find_None_iff by auto

lemma found_order_Some:
  assumes "found_order s n = Some k"
  shows "free_area s k \<noteq> 0" "n \<le> k" "k \<le> MAX_ORDER"
    and "\<And>j. n \<le> j \<Longrightarrow> j < k \<Longrightarrow> free_area s j = 0"
proof -
  obtain p where p: "p < length [n..<Suc MAX_ORDER]" "free_area s ([n..<Suc MAX_ORDER] ! p) \<noteq> 0"
    "k = [n..<Suc MAX_ORDER] ! p" "\<And>j. j < p \<Longrightarrow> free_area s ([n..<Suc MAX_ORDER] ! j) = 0"
    using assms unfolding found_order_def find_Some_iff by auto
  have k: "k = n + p" "k < Suc MAX_ORDER" using p(1,3) by (auto simp del: upt_Suc)
  show "free_area s k \<noteq> 0" "n \<le> k" "k \<le> MAX_ORDER" using p k by auto
  show "free_area s j = 0" if "n \<le> j" "j < k" for j
    using p(4) [of "j - n"] that k by (auto simp del: upt_Suc)
qed

lemma binv_set_alloc:
  assumes inv: "binv s fl {(b, k)}" and v: "v AND FRAME_ALLOC \<noteq> 0" "unat (v AND FRAME_ORDER) = k"
  shows "binv (set_frame b v s) fl {}"
    and "alloc_blocks (set_frame b v s) = insert (b, k) (alloc_blocks s)"
proof -
  have h: "(b, k) \<in> {(b, k)}" by simp
  note na = hole_not_alloc [OF inv h]
  show ab: "alloc_blocks (set_frame b v s) = insert (b, k) (alloc_blocks s)"
    using na v by (auto simp: alloc_blocks_def is_alloc_def frame_order_def split: if_splits)
  show "binv (set_frame b v s) fl {}"
    using inv hole_not_free [OF inv h] unfolding binv_def ab by auto
qed

lemma buddy_alloc_None:
  assumes "buddy_alloc (int n) u s = (a, s')" "n \<le> MAX_ORDER" "found_order s n = None"
  shows "a = 0" "s' = s"
  using assms by (auto simp: buddy_alloc_def)

text \<open>The three cases of \<^verbatim>\<open>buddy_alloc\<close>, the last with everything it establishes.\<close>

definition alloc_step :: "kheap \<Rightarrow> nat \<Rightarrow> bool \<Rightarrow> nat \<Rightarrow> kheap \<Rightarrow> bool" where
  "alloc_step s n u b s' \<longleftrightarrow>
    (b, n) \<notin> alloc_blocks s \<and> alloc_blocks s' = insert (b, n) (alloc_blocks s) \<and>
    block_ok MAX_ORDER (b, n) \<and> blk (b, n) \<subseteq> unalloc s \<and>
    frames s' b = of_nat n OR FRAME_ALLOC OR (if u then FRAME_USER else 0) \<and>
    (\<forall>i. i \<noteq> b \<longrightarrow> is_alloc s i \<or> is_alloc s' i \<longrightarrow> frames s' i = frames s i) \<and>
    (\<forall>a. (\<forall>j\<in>unalloc s. a \<noteq> frame_to_addr j \<and> a \<noteq> frame_to_addr j + 8) \<longrightarrow> mem s' a = mem s a) \<and>
    caches s' = caches s"

lemma alloc_byte:
  assumes "n \<le> MAX_ORDER"
  shows "(word_of_nat n OR FRAME_ALLOC OR (if u then FRAME_USER else 0)) AND FRAME_ALLOC \<noteq> 0"
    and "unat ((word_of_nat n OR FRAME_ALLOC OR (if u then FRAME_USER else 0)) AND FRAME_ORDER) = n"
proof -
  have "FRAME_ALLOC \<noteq> 0" by simp
  then show "(word_of_nat n OR FRAME_ALLOC OR (if u then FRAME_USER else 0)) AND FRAME_ALLOC \<noteq> 0"
    "unat ((word_of_nat n OR FRAME_ALLOC OR (if u then FRAME_USER else 0)) AND FRAME_ORDER) = n"
    using order_byte(4-7) [OF assms(1)] by (cases u; simp only: if_True if_False or.right_neutral)+
qed

lemma buddy_alloc_eq:
  assumes f: "found_order s n = Some k" and n: "n \<le> MAX_ORDER"
    and b: "free_area s k = frame_to_addr b" "b < FRAME_COUNT"
  shows "buddy_alloc (int n) u s = (frame_to_addr b,
    set_frame b (of_nat n OR FRAME_ALLOC OR (if u then FRAME_USER else 0))
      (buddy_split n k b (list_remove k (frame_to_addr b) s)))"
proof -
  have "\<not> (int n < 0 \<or> int n > int MAX_ORDER)" using n by simp
  moreover have "set_frame b v (set_frame b w t) = set_frame b v t" for v w t
    by (simp add: set_frame_def)
  ultimately show ?thesis
    using f b by (simp add: buddy_alloc_def Let_def or.assoc)
qed

lemma buddy_alloc_Some:
  assumes inv: "binv s fl {}" and n: "n \<le> MAX_ORDER" and f: "found_order s n = Some k"
  obtains b s' fl' where "buddy_alloc (int n) u s = (frame_to_addr b, s')"
    "(b, k) \<in> free_blocks fl" "binv s' fl' {}" "alloc_step s n u b s'"
    "free_blocks fl' = free_blocks fl - {(b, k)} \<union> {(b + 2 ^ j, j) |j. n \<le> j \<and> j < k}"
proof -
  note fs = found_order_Some [OF f]
  obtain b ys where fl: "fl k = b # ys"
    using flist_head [OF binv_flist(1) [OF inv fs(3)]] fs(1) by (cases "fl k") auto
  have bb: "b < FRAME_COUNT" using binv_free_bound [OF inv fs(3)] fl by simp
  have hd: "free_area s k = frame_to_addr b" using flist_head [OF binv_flist(1) [OF inv fs(3)]] fl by simp
  let ?s1 = "list_remove k (frame_to_addr b) s"
  note ul = binv_unlink [OF inv fs(3), of "[]" b ys, simplified fl, simplified]
  let ?s2 = "buddy_split n k b ?s1"
  obtain fl' where fl': "binv ?s2 fl' {(b, n)}" "keeps ?s1 ?s2"
    "free_blocks fl' = free_blocks fl - {(b, k)} \<union> {(b + 2 ^ j, j) |j. n \<le> j \<and> j < k}"
    using buddy_split_correct [OF ul(1) _ fs(2)] ul(4) by auto
  have kp: "keeps s ?s2" using keeps_trans [OF ul(3) fl'(2)] .
  note ka = keeps_alloc [OF kp]
  let ?v = "of_nat n OR FRAME_ALLOC OR (if u then FRAME_USER else 0)"
  note sa = binv_set_alloc [OF fl'(1) alloc_byte [OF n, of u]]
  have h: "(b, n) \<in> {(b, n)}" by simp
  have "blk (b, n) \<subseteq> unalloc s"
    using free_unalloc [OF fl'(1), of b n] ka(3) by auto
  moreover have "block_ok MAX_ORDER (b, n)" using tiling_ok [OF binv_tiling [OF fl'(1)], of "(b, n)"] by simp
  moreover have "(b, n) \<notin> alloc_blocks s" using fl'(1) ka(2) unfolding binv_def by auto
  moreover have "frames (set_frame b ?v ?s2) i = frames s i"
    if "i \<noteq> b" "is_alloc s i \<or> is_alloc (set_frame b ?v ?s2) i" for i
    using that kp by (auto simp: keeps_def is_alloc_def)
  ultimately have "alloc_step s n u b (set_frame b ?v ?s2)"
    unfolding alloc_step_def using sa(2) ka kp unfolding keeps_def by simp
  then show ?thesis
    using that [OF buddy_alloc_eq [OF f n hd bb]] sa(1) fl'(3) fl fs(3)
    by (simp add: free_blocks_def)
qed

section \<open>Release\<close>

lemma alloc_block_order:
  assumes "binv s fl H" "(i, k) \<in> alloc_blocks s"
  shows "k \<le> MAX_ORDER" "i < FRAME_COUNT" "2 ^ k dvd i"
  using tiling_ok [OF binv_tiling [OF assms(1)], of "(i, k)"] assms(2) by (auto simp: block_ok_def)

lemma binv_release:
  assumes inv: "binv s fl {}" and a: "(i, k) \<in> alloc_blocks s"
  shows "binv (set_frame i (of_nat k) s) fl {(i, k)}"
    and "alloc_blocks (set_frame i (of_nat k) s) = alloc_blocks s - {(i, k)}"
proof -
  note o = alloc_block_order [OF inv a]
  have ai: "is_alloc s i" "frame_order s i = k" using a by (auto simp: alloc_blocks_def)
  show ab: "alloc_blocks (set_frame i (of_nat k) s) = alloc_blocks s - {(i, k)}"
    using ai order_byte(1) [OF o(1)]
    by (auto simp: alloc_blocks_def is_alloc_def frame_order_def split: if_splits)
  have nf: "(i, l) \<notin> free_blocks fl" for l
    using free_unalloc [OF inv, of i l i] a blk_head [of i k] blk_head [of i l] unfolding unalloc_def by blast
  have "free_blocks fl \<union> (alloc_blocks s - {(i, k)}) \<union> {(i, k)} = free_blocks fl \<union> alloc_blocks s"
    using a by auto
  then show "binv (set_frame i (of_nat k) s) fl {(i, k)}"
    using inv nf unfolding binv_def ab by auto
qed

lemma xor_pow2_neq: "i XOR 2 ^ k \<noteq> (i::nat)"
proof -
  have "bit (i XOR 2 ^ k) k \<noteq> bit i k" by (simp add: bit_xor_iff bit_exp_iff)
  then show ?thesis by metis
qed

lemma merge_test:
  assumes inv: "binv s fl {(i, k)}" and k: "k < MAX_ORDER"
  shows "frames s (i XOR 2 ^ k) AND (FRAME_ALLOC OR FRAME_ORDER) = of_nat k \<longleftrightarrow>
    (i XOR 2 ^ k, k) \<in> free_blocks fl"
proof
  let ?j = "i XOR 2 ^ k"
  assume t: "frames s ?j AND (FRAME_ALLOC OR FRAME_ORDER) = of_nat k"
  obtain l where l: "(?j, l) \<in> free_blocks fl \<union> alloc_blocks s \<union> {(i, k)}" "l \<le> k"
    using buddy_is_head [OF binv_tiling [OF inv] _ k, of i] by blast
  have "\<not> is_alloc s ?j" using order_mask_alloc [OF t] k by (simp add: is_alloc_def)
  then have f: "(?j, l) \<in> free_blocks fl" using l(1) xor_pow2_neq [of i k] by (auto simp: alloc_blocks_def)
  then have "frames s ?j = of_nat l" using inv by (auto simp: binv_def)
  then have "(of_nat k :: u8) = of_nat l" using t order_byte(2) [of l] l(2) k by simp
  then show "(?j, k) \<in> free_blocks fl" using order_byte_inj [of k l] l(2) k f by simp
next
  assume "(i XOR 2 ^ k, k) \<in> free_blocks fl"
  then have "frames s (i XOR 2 ^ k) = of_nat k" using inv by (auto simp: binv_def)
  then show "frames s (i XOR 2 ^ k) AND (FRAME_ALLOC OR FRAME_ORDER) = of_nat k"
    using order_byte(2) [of k] k by simp
qed

definition merged :: "kheap \<Rightarrow> (nat \<Rightarrow> nat list) \<Rightarrow> nat \<Rightarrow> nat \<Rightarrow> nat \<times> nat \<times> kheap \<Rightarrow> bool" where
  "merged s fl i k r \<longleftrightarrow> (case r of (i', k', s') \<Rightarrow>
    \<exists>fl'. binv s' fl' {(i', k')} \<and> frames s' i' = of_nat k' \<and> keeps s s' \<and>
      free_blocks fl' \<subseteq> free_blocks fl \<and>
      (k' < MAX_ORDER \<longrightarrow> (i' XOR 2 ^ k', k') \<notin> free_blocks fl') \<and> i' \<le> i)"

lemma merge_step:
  assumes inv: "binv s fl {(i, k)}" and k: "k < MAX_ORDER" and j: "j = i XOR 2 ^ k"
    and f: "(j, k) \<in> free_blocks fl" and m: "m = (if i < j then i else j)"
  obtains fl' where "binv (set_frame m (of_nat (Suc k)) (list_remove k (frame_to_addr j) s)) fl' {(m, Suc k)}"
    "keeps s (set_frame m (of_nat (Suc k)) (list_remove k (frame_to_addr j) s))"
    "free_blocks fl' \<subseteq> free_blocks fl"
proof -
  have kk: "k \<le> MAX_ORDER" using k by simp
  obtain xs ys where fl: "fl k = xs @ j # ys" using f split_list [of j "fl k"] by (auto simp: free_blocks_def)
  note ul = binv_unlink [OF inv kk fl]
  have "binv (list_remove k (frame_to_addr j) s) (fl(k := xs @ ys)) (insert (i, k) (insert (i XOR 2 ^ k, k) {}))"
    using ul(1) j by (simp add: insert_commute)
  from binv_merge(1) [OF this _ _ k]
  have h: "binv (list_remove k (frame_to_addr j) s) (fl(k := xs @ ys)) {(m, Suc k)}"
    using m j by (simp add: min_def not_le split: if_splits)
  note hf = binv_hole_frame [OF h insertI1 order_byte(1) [of "Suc k"]]
  show ?thesis
  proof (rule that)
    show "binv (set_frame m (of_nat (Suc k)) (list_remove k (frame_to_addr j) s)) (fl(k := xs @ ys)) {(m, Suc k)}"
      using hf(1) k by simp
    show "keeps s (set_frame m (of_nat (Suc k)) (list_remove k (frame_to_addr j) s))"
      using keeps_trans [OF ul(3) hf(2)] k by simp
    show "free_blocks (fl(k := xs @ ys)) \<subseteq> free_blocks fl" using ul(4) by auto
  qed
qed

lemma buddy_merge_correct:
  assumes "binv s fl {(i, k)}" "frames s i = of_nat k"
  shows "merged s fl i k (buddy_merge i k s)"
  using assms
proof (induction i k s arbitrary: fl rule: buddy_merge.induct)
  case (1 i k s)
  let ?j = "i XOR 2 ^ k"
  let ?m = "if i < ?j then i else ?j"
  let ?s' = "set_frame ?m (of_nat (Suc k)) (list_remove k (frame_to_addr ?j) s)"
  have stop: "merged s fl i k (i, k, s)" if "k < MAX_ORDER \<Longrightarrow> (?j, k) \<notin> free_blocks fl"
    unfolding merged_def using "1.prems" that by auto
  show ?case
  proof (cases "k < MAX_ORDER \<and> (?j, k) \<in> free_blocks fl")
    case False
    then have "buddy_merge i k s = (i, k, s)"
      using merge_test [OF "1.prems"(1)] by (subst buddy_merge.simps) auto
    then show ?thesis using stop False by auto
  next
    case True
    then have k: "k < MAX_ORDER" and f: "(?j, k) \<in> free_blocks fl" by auto
    note t = merge_test [OF "1.prems"(1) k, THEN iffD2, OF f]
    obtain fl' where fl': "binv ?s' fl' {(?m, Suc k)}" "keeps s ?s'" "free_blocks fl' \<subseteq> free_blocks fl"
      using merge_step [OF "1.prems"(1) k refl f refl] .
    have eq: "buddy_merge i k s = buddy_merge ?m (Suc k) ?s'"
      using k t by (subst buddy_merge.simps) (simp only: Let_def if_True simp_thms)
    have mg: "merged ?s' fl' ?m (Suc k) (buddy_merge ?m (Suc k) ?s')"
      by (rule "1.IH" [OF k refl t refl refl refl fl'(1)]) simp
    obtain i' k' t where bm: "buddy_merge ?m (Suc k) ?s' = (i', k', t)"
      by (cases "buddy_merge ?m (Suc k) ?s'")
    obtain fl'' where r: "binv t fl'' {(i', k')}" "frames t i' = of_nat k'" "keeps ?s' t"
      "free_blocks fl'' \<subseteq> free_blocks fl'"
      "k' < MAX_ORDER \<longrightarrow> (i' XOR 2 ^ k', k') \<notin> free_blocks fl''" "i' \<le> ?m"
      using mg unfolding bm merged_def prod.case by blast
    have "i' \<le> i" using r(6) by (simp split: if_splits)
    then show ?thesis
      unfolding eq bm merged_def prod.case
      using r(1,2,5) keeps_trans [OF fl'(2) r(3)] subset_trans [OF r(4) fl'(3)] by blast
  qed
qed

end
