(* ===== verification/AllocIface.thy ===== *)
theory AllocIface
  imports Prelude
begin

text \<open>
  The interface every memory allocator of the kernel offers its clients, as a locale: an invariant, the
  set of live allocations with the resource each covers, and the laws of acquiring and releasing. The
  frame allocator and the object caches interpret it on their own operations.
\<close>

datatype ('r, 'b) request = Acquire 'r | Release 'b

locale allocator =
  fixes inv :: "'s \<Rightarrow> bool"
    and live :: "'s \<Rightarrow> 'b set"
    and ext :: "'b \<Rightarrow> nat set"
    and acquire :: "'r \<Rightarrow> 's \<Rightarrow> 'b option \<times> 's"
    and release :: "'b \<Rightarrow> 's \<Rightarrow> 's"
  assumes live_apart: "inv s \<Longrightarrow> b \<in> live s \<Longrightarrow> c \<in> live s \<Longrightarrow> b \<noteq> c \<Longrightarrow> ext b \<inter> ext c = {}"
    and acquire_none: "inv s \<Longrightarrow> acquire r s = (None, s') \<Longrightarrow> inv s' \<and> live s' = live s"
    and acquire_some: "inv s \<Longrightarrow> acquire r s = (Some b, s') \<Longrightarrow>
      inv s' \<and> b \<notin> live s \<and> live s' = insert b (live s)"
    and release_live: "inv s \<Longrightarrow> b \<in> live s \<Longrightarrow>
      inv (release b s) \<and> live (release b s) = live s - {b}"
begin

text \<open>A client run: requests are served in order, a release of something not live is not issued.\<close>

fun run :: "('r, 'b) request list \<Rightarrow> 's \<Rightarrow> 's" where
  "run [] s = s"
| "run (Acquire r # cs) s = run cs (snd (acquire r s))"
| "run (Release b # cs) s = run cs (if b \<in> live s then release b s else s)"

lemma acquire_inv:
  assumes "inv s"
  shows "inv (snd (acquire r s))"
proof (cases "acquire r s")
  case (Pair o' s')
  then show ?thesis using acquire_none [OF assms, of r s'] acquire_some [OF assms, of r _ s'] by (cases o') auto
qed

lemma run_inv:
  assumes "inv s"
  shows "inv (run cs s)"
  using assms
proof (induction cs s rule: run.induct)
  case (2 r cs s)
  then show ?case using acquire_inv by simp
next
  case (3 b cs s)
  then show ?case using release_live [of s b] by simp
qed simp

lemma run_apart:
  assumes "inv s" "b \<in> live (run cs s)" "c \<in> live (run cs s)" "b \<noteq> c"
  shows "ext b \<inter> ext c = {}"
  using live_apart [OF run_inv [OF assms(1)]] assms(2-4) by blast

lemma acquire_fresh:
  assumes "inv s" "acquire r s = (Some b, s')" "c \<in> live s"
  shows "ext b \<inter> ext c = {}"
  using acquire_some [OF assms(1,2)] live_apart [of s' b c] assms(3) by auto

lemma acquire_release:
  assumes "inv s" "acquire r s = (Some b, s')"
  shows "inv (release b s')" "live (release b s') = live s"
  using acquire_some [OF assms] release_live [of s' b] by auto

end

end
