(* ===== verification/BuddyCorrect.thy ===== *)
theory BuddyCorrect
  imports BuddyInv AllocIface
begin

text \<open>
  The contract of the frame allocator, for the layers above it. \<open>buddy_inv\<close> is the invariant of a state
  in which no operation is under way: free lists and allocated blocks tile the heap, and no two
  buddies are both free. \<open>free_list\<close> reads a free list off the store.
\<close>

section \<open>The free lists as functions of the state\<close>

fun walk :: "nat \<Rightarrow> (addr \<Rightarrow> u64) \<Rightarrow> addr \<Rightarrow> nat list" where
  "walk 0 m p = []"
| "walk (Suc n) m p = (if p = 0 then [] else addr_to_frame p # walk n m (m p))"

definition free_list :: "kheap \<Rightarrow> nat \<Rightarrow> nat list" where
  "free_list s k = walk FRAME_COUNT (mem s) (free_area s k)"

abbreviation free_set :: "kheap \<Rightarrow> block set" where
  "free_set s \<equiv> free_blocks (free_list s)"

definition buddy_inv :: "kheap \<Rightarrow> bool" where
  "buddy_inv s \<longleftrightarrow> binv s (free_list s) {} \<and> coalesced MAX_ORDER (free_set s)"

lemma walk_null [simp]: "walk n m 0 = []"
  by (cases n) simp_all

lemma walk_flist:
  assumes "flist m p pr xs" "length xs \<le> n" "\<And>i. i \<in> set xs \<Longrightarrow> i < FRAME_COUNT"
  shows "walk n m p = xs"
  using assms
proof (induction n arbitrary: p pr xs)
  case (Suc n)
  then show ?case by (cases xs) auto
qed simp

lemma binv_free_list:
  assumes "binv s fl H" "k \<le> MAX_ORDER"
  shows "free_list s k = fl k"
proof -
  have "set (fl k) \<subseteq> {..<FRAME_COUNT}" using binv_free_bound [OF assms] by blast
  then have "card (set (fl k)) \<le> FRAME_COUNT" using card_mono [of "{..<FRAME_COUNT}" "set (fl k)"] by simp
  then have "length (fl k) \<le> FRAME_COUNT" using distinct_card [OF binv_flist(2) [OF assms]] by simp
  then show ?thesis unfolding free_list_def
    by (rule walk_flist [OF binv_flist(1) [OF assms]]) (rule binv_free_bound [OF assms])
qed

lemma binv_free_set:
  assumes "binv s fl H"
  shows "free_set s = free_blocks fl"
  using binv_free_list [OF assms] by (auto simp: free_blocks_def)

lemma buddy_invI:
  assumes "binv s fl {}" "coalesced MAX_ORDER (free_blocks fl)"
  shows "buddy_inv s"
  using assms binv_free_list [OF assms(1)] binv_free_set [OF assms(1)]
  unfolding buddy_inv_def binv_def by simp

lemma buddy_inv_tiling: "buddy_inv s \<Longrightarrow> tiling MAX_ORDER (free_set s \<union> alloc_blocks s)"
  using binv_tiling [of s "free_list s" "{}"] by (simp add: buddy_inv_def)

lemma buddy_inv_alloc_ok:
  assumes "buddy_inv s" "(i, k) \<in> alloc_blocks s"
  shows "block_ok MAX_ORDER (i, k)"
  using tiling_ok [OF buddy_inv_tiling [OF assms(1)]] assms(2) by blast

lemma buddy_inv_alloc_disjoint:
  assumes "buddy_inv s" "b \<in> alloc_blocks s" "c \<in> alloc_blocks s" "b \<noteq> c"
  shows "blk b \<inter> blk c = {}"
  using tiling_disjoint [OF buddy_inv_tiling [OF assms(1)]] assms(2-4) by blast

section \<open>Initialisation\<close>

lemma memory_init_simps:
  "frames (memory_init s) = (\<lambda>_. 0)(0 := 14)" "free_area (memory_init s) = (\<lambda>_. 0)(14 := HEAP_PHYS)"
  "mem (memory_init s) = (mem s)(HEAP_PHYS := 0, HEAP_PHYS + 8 := 0)"
  by (simp_all add: memory_init_def Let_def poke_def set_area_def set_frame_def)

lemma memory_init_alloc: "alloc_blocks (memory_init s) = {}"
  by (auto simp: alloc_blocks_def is_alloc_def memory_init_simps)

lemma frame_0: "frame_to_addr 0 = HEAP_PHYS"
  by (simp add: frame_to_addr_def)

lemma memory_init_free:
  "free_list (memory_init s) = (\<lambda>_. [])(14 := [0])" "buddy_inv (memory_init s)"
proof -
  let ?fl = "(\<lambda>_. [])(14 := [0])" and ?s = "memory_init s"
  have "free_blocks ?fl = {(0, 14)}" by (auto simp: free_blocks_def split: if_splits)
  moreover have "binv ?s ?fl {}"
    unfolding binv_def memory_init_alloc calculation
    using tiling_full [of 14] by (auto simp: memory_init_simps frame_0)
  moreover have "coalesced MAX_ORDER {(0, 14)}" by (simp add: coalesced_def)
  ultimately show "buddy_inv ?s" using buddy_invI by metis
  have "\<And>k. \<not> k \<le> MAX_ORDER \<Longrightarrow> free_list ?s k = []"
    by (simp add: free_list_def memory_init_simps)
  moreover have "\<And>k. k \<le> MAX_ORDER \<Longrightarrow> free_list ?s k = ?fl k"
    using binv_free_list [OF \<open>binv ?s ?fl {}\<close>] .
  ultimately show "free_list ?s = ?fl" by (intro ext) (case_tac "x \<le> MAX_ORDER"; simp)
qed

section \<open>Allocation\<close>

lemma alloc_coalesced:
  assumes t: "tiling n (F' \<union> A')" and c: "coalesced n F" and b: "(b, k) \<in> F" "2 ^ k dvd b"
    and F': "F' = F - {(b, k)} \<union> {(b + 2 ^ j, j) |j. m \<le> j \<and> j < k}"
    and a: "(b, m) \<in> A'" "F' \<inter> A' = {}"
  shows "coalesced n F'"
  unfolding coalesced_def
proof (intro allI impI notI)
  fix i l assume il: "(i, l) \<in> F'" "l < n" "(i XOR 2 ^ l, l) \<in> F'"
  have nb: "(b, j) \<notin> F'" for j
    using tiling_head_unique [OF t, of b j m] a by auto
  have new: "(x XOR 2 ^ l, l) \<notin> F'" if "(x, l) \<in> {(b + 2 ^ j, j) |j. m \<le> j \<and> j < k}" for x
  proof -
    have x: "x = b + 2 ^ l" "l < k" using that by auto
    have al: "2 ^ Suc l dvd b" using pow2_dvd_mono [OF b(2), of "Suc l"] x by simp
    have "b XOR 2 ^ l = x" using xor_buddy [of l b] al pow2_dvd_mono [OF al, of l] x by simp
    then have "x XOR 2 ^ l = b" by (auto simp: xor.assoc)
    then show ?thesis using nb by simp
  qed
  have "(i, l) \<in> F" using il new F' by blast
  moreover have "(i XOR 2 ^ l, l) \<in> F"
  proof -
    have "(i XOR 2 ^ l) XOR 2 ^ l = i" by (simp add: xor.assoc)
    then show ?thesis using il new [of "i XOR 2 ^ l"] F' by auto
  qed
  ultimately show False using c il(2) unfolding coalesced_def by blast
qed

lemma no_free_found:
  assumes inv: "buddy_inv s" and n: "n \<le> MAX_ORDER"
  shows "found_order s n = None \<longleftrightarrow> (\<forall>i k. (i, k) \<in> free_set s \<longrightarrow> k < n)"
proof -
  have b: "binv s (free_list s) {}" using inv by (simp add: buddy_inv_def)
  have e: "free_area s k = 0 \<longleftrightarrow> free_list s k = []" if "k \<le> MAX_ORDER" for k
  proof (cases "free_list s k")
    case Nil
    then show ?thesis using flist_head [OF binv_flist(1) [OF b that]] by simp
  next
    case (Cons x xs)
    then show ?thesis
      using flist_head [OF binv_flist(1) [OF b that]] binv_free_bound [OF b that, of x] by simp
  qed
  have "found_order s n = None \<longleftrightarrow> (\<forall>k. n \<le> k \<and> k \<le> MAX_ORDER \<longrightarrow> free_list s k = [])"
    unfolding found_order_def find_None_iff using e by (auto simp: less_Suc_eq_le simp del: upt_Suc)
  also have "\<dots> \<longleftrightarrow> (\<forall>i k. (i, k) \<in> free_set s \<longrightarrow> k < n)"
    unfolding free_blocks_def by (auto simp: not_le [symmetric]) (metis list.set_intros(1) neq_Nil_conv)
  finally show ?thesis .
qed

lemma buddy_alloc_cases:
  assumes inv: "buddy_inv s" and r: "buddy_alloc order u s = (a, s')"
  obtains (refused) "order < 0 \<or> order > int MAX_ORDER" "a = 0" "s' = s"
  | (exhausted) "0 \<le> order" "order \<le> int MAX_ORDER" "a = 0" "s' = s"
      "\<And>i k. (i, k) \<in> free_set s \<Longrightarrow> int k < order"
  | (allocated) b k where "0 \<le> order" "order \<le> int MAX_ORDER" "a = frame_to_addr b"
      "alloc_step s (nat order) u b s'" "buddy_inv s'" "(b, k) \<in> free_set s" "order \<le> int k"
proof (cases "order < 0 \<or> order > int MAX_ORDER")
  case True
  then show ?thesis using r refused by (auto simp: buddy_alloc_def)
next
  case False
  define n where "n = nat order"
  have n: "order = int n" "n \<le> MAX_ORDER" using False by (auto simp: n_def)
  have bi: "binv s (free_list s) {}" and co: "coalesced MAX_ORDER (free_set s)"
    using inv by (auto simp: buddy_inv_def)
  show ?thesis
  proof (cases "found_order s n")
    case None
    show ?thesis
    proof (rule exhausted)
      show "a = 0" "s' = s" using buddy_alloc_None [of n u s a s'] r n None by auto
      show "int k < order" if "(i, k) \<in> free_set s" for i k
        using no_free_found [OF inv n(2)] None that n by auto
    qed (use False in auto)
  next
    case (Some k)
    obtain b t fl' where f: "buddy_alloc (int n) u s = (frame_to_addr b, t)"
      "(b, k) \<in> free_set s" "binv t fl' {}" "alloc_step s n u b t"
      "free_blocks fl' = free_set s - {(b, k)} \<union> {(b + 2 ^ j, j) |j. n \<le> j \<and> j < k}"
      using buddy_alloc_Some [OF bi n(2) Some, of u] .
    have "coalesced MAX_ORDER (free_blocks fl')"
    proof (rule alloc_coalesced [OF _ co f(2) _ f(5)])
      show "tiling MAX_ORDER (free_blocks fl' \<union> alloc_blocks t)" using binv_tiling [OF f(3)] by simp
      show "2 ^ k dvd b" using tiling_ok [OF buddy_inv_tiling [OF inv], of "(b, k)"] f(2)
        by (simp add: block_ok_def)
      show "(b, n) \<in> alloc_blocks t" using f(4) by (simp add: alloc_step_def)
      show "free_blocks fl' \<inter> alloc_blocks t = {}"
        using free_unalloc [OF f(3)] blk_head unfolding unalloc_def by fastforce
    qed
    then have "buddy_inv t" using buddy_invI [OF f(3)] by simp
    moreover have "order \<le> int k" using found_order_Some(2) [OF Some] n by simp
    ultimately show ?thesis
      using allocated [of b k] f(1,2,4) r n False by simp
  qed
qed

section \<open>Release\<close>

definition free_step :: "kheap \<Rightarrow> nat \<Rightarrow> nat \<Rightarrow> kheap \<Rightarrow> bool" where
  "free_step s i k s' \<longleftrightarrow>
    alloc_blocks s' = alloc_blocks s - {(i, k)} \<and> \<not> is_alloc s' i \<and>
    (\<forall>j. j \<noteq> i \<longrightarrow> is_alloc s j \<or> is_alloc s' j \<longrightarrow> frames s' j = frames s j) \<and>
    (\<forall>a. (\<forall>j\<in>unalloc s'. a \<noteq> frame_to_addr j \<and> a \<noteq> frame_to_addr j + 8) \<longrightarrow> mem s' a = mem s a) \<and>
    caches s' = caches s"

lemma release_correct:
  assumes inv: "buddy_inv s" and a: "(i, k) \<in> alloc_blocks s"
    and bm: "buddy_merge i k (set_frame i (of_nat k) s) = (j, l, t)"
  shows "buddy_inv (list_add l (frame_to_addr j) t)" "free_step s i k (list_add l (frame_to_addr j) t)"
proof -
  have bi: "binv s (free_list s) {}" and co: "coalesced MAX_ORDER (free_set s)"
    using inv by (auto simp: buddy_inv_def)
  let ?s1 = "set_frame i (of_nat k) s" and ?s' = "list_add l (frame_to_addr j) t"
  note rl = binv_release [OF bi a]
  have k: "k \<le> MAX_ORDER" using alloc_block_order [OF bi a] by simp
  have "merged ?s1 (free_list s) i k (j, l, t)"
    using buddy_merge_correct [OF rl(1)] bm by simp
  then obtain fl' where f: "binv t fl' {(j, l)}" "frames t j = of_nat l" "keeps ?s1 t"
    "free_blocks fl' \<subseteq> free_set s" "l < MAX_ORDER \<Longrightarrow> (j XOR 2 ^ l, l) \<notin> free_blocks fl'"
    unfolding merged_def by auto
  have f1: "binv t fl' (insert (j, l) {})" using f(1) by simp
  note ln = binv_link [OF f1 _ f(2), simplified]
  have "coalesced MAX_ORDER (insert (j, l) (free_blocks fl'))"
    by (rule coalesced_insert [OF coalesced_subset [OF co f(4)] f(5)])
  then show "buddy_inv ?s'" using buddy_invI [OF ln(1)] ln(3) by simp
  have kp: "keeps ?s1 ?s'" using keeps_trans [OF f(3) ln(2)] .
  note ka = keeps_alloc [OF kp]
  have na: "\<not> is_alloc ?s' i" unfolding ka(1) is_alloc_def using order_byte(1) [OF k] by simp
  have "mem ?s' x = mem s x" if "\<forall>j\<in>unalloc ?s'. x \<noteq> frame_to_addr j \<and> x \<noteq> frame_to_addr j + 8" for x
    using kp that unfolding keeps_def ka(3) by simp
  moreover have "frames ?s' x = frames s x" if "x \<noteq> i" "is_alloc s x \<or> is_alloc ?s' x" for x
  proof -
    have "is_alloc ?s1 x = is_alloc s x" using that(1) by (simp add: is_alloc_def)
    then have "is_alloc ?s1 x \<or> is_alloc ?s' x" using that(2) by simp
    then have "frames ?s' x = frames ?s1 x" using kp unfolding keeps_def by blast
    then show ?thesis using that(1) by simp
  qed
  ultimately show "free_step s i k ?s'"
    unfolding free_step_def using na rl(2) ka(2) kp by (auto simp: keeps_def)
qed

lemma buddy_free_eq:
  assumes "i < FRAME_COUNT" "k \<le> MAX_ORDER"
  shows "buddy_free (frame_to_addr i) (int k) s =
    (case buddy_merge i k (set_frame i (of_nat k) s) of (idx, l, t) \<Rightarrow> list_add l (frame_to_addr idx) t)"
proof -
  have "\<not> (frame_to_addr i = 0 \<or> int k < 0 \<or> int k > int MAX_ORDER)" using assms by simp
  moreover have "\<not> (frame_to_addr i < HEAP_PHYS \<or> frame_to_addr i \<ge> HEAP_PHYS + HEAP_SIZE)"
    using frame_to_addr_range [OF assms(1)] by auto
  moreover have "\<not> frame_to_addr i AND (FRAME_SIZE - 1) \<noteq> 0" unfolding and_4095 by simp
  ultimately show ?thesis
    unfolding buddy_free_def Let_def using addr_to_frame_to_addr [OF assms(1)]
    by (simp only: if_False nat_int of_int_of_nat_eq)
qed

lemma buddy_free_correct:
  assumes "buddy_inv s" "(i, k) \<in> alloc_blocks s"
  shows "buddy_inv (buddy_free (frame_to_addr i) (int k) s)"
    and "free_step s i k (buddy_free (frame_to_addr i) (int k) s)"
proof -
  have o: "i < FRAME_COUNT" "k \<le> MAX_ORDER"
    using buddy_inv_alloc_ok [OF assms] by (auto simp: block_ok_def)
  obtain j l t where bm: "buddy_merge i k (set_frame i (of_nat k) s) = (j, l, t)"
    by (cases "buddy_merge i k (set_frame i (of_nat k) s)")
  show "buddy_inv (buddy_free (frame_to_addr i) (int k) s)"
    "free_step s i k (buddy_free (frame_to_addr i) (int k) s)"
    unfolding buddy_free_eq [OF o] bm prod.case using release_correct [OF assms bm] by auto
qed

text \<open>The allocated blocks determine the free ones, hence the whole abstract state.\<close>

lemma free_alloc_apart: "buddy_inv s \<Longrightarrow> free_set s \<inter> alloc_blocks s = {}"
proof -
  assume "buddy_inv s"
  then have b: "binv s (free_list s) {}" by (simp add: buddy_inv_def)
  show ?thesis using free_unalloc [OF b] blk_head unfolding unalloc_def by fastforce
qed

lemma free_set_canonical:
  assumes "buddy_inv s" "buddy_inv t" "alloc_blocks s = alloc_blocks t"
  shows "free_set s = free_set t"
proof -
  have s: "tiling MAX_ORDER (free_set s \<union> alloc_blocks s)" "coalesced MAX_ORDER (free_set s)"
      "free_set s \<inter> alloc_blocks s = {}"
    using assms(1) buddy_inv_tiling free_alloc_apart by (auto simp: buddy_inv_def)
  have t: "tiling MAX_ORDER (free_set t \<union> alloc_blocks s)" "coalesced MAX_ORDER (free_set t)"
      "free_set t \<inter> alloc_blocks s = {}"
    using assms(2,3) buddy_inv_tiling free_alloc_apart by (auto simp: buddy_inv_def)
  show ?thesis using coalesced_unique [OF s t] coalesced_unique [OF t s] by blast
qed

section \<open>The user-page layer\<close>

text \<open>\<^verbatim>\<open>munmap_user\<close> on an arbitrary address: it releases the block that starts there if there is one,
  and otherwise leaves the state alone.\<close>

lemma munmap_user_cases:
  assumes inv: "buddy_inv s" and r: "munmap_user a s = (c, s')"
  obtains (nothing) "s' = s" "\<And>i k. a = frame_to_addr i \<Longrightarrow> (i, k) \<notin> alloc_blocks s"
  | (released) i k where "a = frame_to_addr i" "(i, k) \<in> alloc_blocks s" "c = 0"
      "free_step s i k s'" "buddy_inv s'"
proof (cases "a \<noteq> 0 \<and> take_bit 12 a = 0 \<and> addr_to_frame a < FRAME_COUNT \<and> is_alloc s (addr_to_frame a)")
  case True
  define i where "i = addr_to_frame a"
  have a: "a = frame_to_addr i" using True aligned_is_frame by (simp add: i_def)
  have al: "(i, frame_order s i) \<in> alloc_blocks s" using True by (simp add: alloc_blocks_def i_def)
  have g: "\<not> a = 0" "\<not> a AND (FRAME_SIZE - 1) \<noteq> 0" "\<not> addr_to_frame a \<ge> FRAME_COUNT"
    "\<not> frames s (addr_to_frame a) AND FRAME_ALLOC = 0"
    using True unfolding and_4095 by (auto simp: is_alloc_def)
  have "munmap_user a s = (0, buddy_free a (uint (frames s i AND FRAME_ORDER)) s)"
    unfolding munmap_user_def Let_def i_def using g by (simp only: if_False)
  moreover have "uint (frames s i AND FRAME_ORDER) = int (frame_order s i)"
    unfolding frame_order_def by simp
  ultimately have e: "c = 0" "s' = buddy_free (frame_to_addr i) (int (frame_order s i)) s"
    using r a by simp_all
  then show ?thesis using released [OF a al] buddy_free_correct [OF inv al] by simp
next
  case False
  have "s' = s"
    using r False unfolding munmap_user_def Let_def and_4095 by (auto simp: is_alloc_def split: if_splits)
  moreover have "(i, k) \<notin> alloc_blocks s" if "a = frame_to_addr i" for i k
  proof
    assume "(i, k) \<in> alloc_blocks s"
    then have "i < FRAME_COUNT" "is_alloc s i" by (auto simp: alloc_blocks_def)
    then show False using False that by simp
  qed
  ultimately show ?thesis by (rule nothing)
qed

lemma user_mask:
  "(f :: u8) AND (FRAME_ALLOC OR FRAME_USER) = FRAME_ALLOC OR FRAME_USER \<longleftrightarrow>
    f AND FRAME_ALLOC \<noteq> 0 \<and> f AND FRAME_USER \<noteq> 0"
  using and_two_bits_u8 [of 7 6 f] and_pow2_u8 [of f 7] and_pow2_u8 [of f 6] by simp

definition is_user :: "kheap \<Rightarrow> nat \<Rightarrow> bool" where
  "is_user s i \<longleftrightarrow> frames s i AND FRAME_USER \<noteq> 0"

lemma munmap_all_from_correct:
  assumes "buddy_inv s"
  shows "buddy_inv (munmap_all_from i s) \<and>
    alloc_blocks (munmap_all_from i s) = alloc_blocks s - {b. i \<le> fst b \<and> is_user s (fst b)} \<and>
    (\<forall>b\<in>alloc_blocks (munmap_all_from i s). frames (munmap_all_from i s) (fst b) = frames s (fst b))"
  using assms
proof (induction i s rule: munmap_all_from.induct)
  case (1 i s)
  show ?case
  proof (cases "i < FRAME_COUNT")
    case False
    then have "b \<notin> alloc_blocks s \<or> \<not> i \<le> fst b" for b by (auto simp: alloc_blocks_def)
    then show ?thesis using False 1(3) by (subst (1 2 3 4) munmap_all_from.simps) auto
  next
    case True
    show ?thesis
    proof (cases "is_alloc s i \<and> is_user s i")
      case False
      then have t: "\<not> frames s i AND (FRAME_ALLOC OR FRAME_USER) = FRAME_ALLOC OR FRAME_USER"
        unfolding user_mask by (auto simp: is_alloc_def is_user_def)
      have eq: "munmap_all_from i s = munmap_all_from (i + 1) s"
        using True t by (subst munmap_all_from.simps) (simp only: Let_def if_False if_True)
      have "alloc_blocks s - {b. i + 1 \<le> fst b \<and> is_user s (fst b)}
        = alloc_blocks s - {b. i \<le> fst b \<and> is_user s (fst b)}"
        using False by (auto simp: alloc_blocks_def Suc_le_eq le_less)
      then show ?thesis using 1(2) [OF True refl t 1(3)] unfolding eq by simp
    next
      case u: True
      then have t: "frames s i AND (FRAME_ALLOC OR FRAME_USER) = FRAME_ALLOC OR FRAME_USER"
        unfolding user_mask by (auto simp: is_alloc_def is_user_def)
      define k where "k = frame_order s i"
      have a: "(i, k) \<in> alloc_blocks s" using u True by (simp add: alloc_blocks_def k_def)
      obtain j l r where bm: "buddy_merge i k (set_frame i (of_nat k) s) = (j, l, r)"
        by (cases "buddy_merge i k (set_frame i (of_nat k) s)")
      let ?t = "list_add l (frame_to_addr j) r"
      have eq: "munmap_all_from i s = munmap_all_from (i + 2 ^ k) ?t"
        using True t bm unfolding k_def frame_order_def
        by (subst munmap_all_from.simps) (simp only: Let_def if_True prod.case simp_thms)
      note rc = release_correct [OF 1(3) a bm]
      have ab: "alloc_blocks ?t = alloc_blocks s - {(i, k)}" using rc(2) by (simp add: free_step_def)
      have fr: "frames ?t (fst b) = frames s (fst b)" if "b \<in> alloc_blocks ?t" for b
      proof -
        have "is_alloc ?t (fst b)" using that by (auto simp: alloc_blocks_def)
        moreover from this have "fst b \<noteq> i" using rc(2) by (auto simp: free_step_def)
        ultimately show ?thesis using rc(2) by (auto simp: free_step_def)
      qed
      have far: "i + 2 ^ k \<le> fst b" if "b \<in> alloc_blocks s" "b \<noteq> (i, k)" "i \<le> fst b" for b
        using buddy_inv_alloc_disjoint [OF 1(3) a, of b] that blk_head [of "fst b" "snd b"]
        by (cases b) force
      have IH: "buddy_inv (munmap_all_from (i + 2 ^ k) ?t)"
        "alloc_blocks (munmap_all_from (i + 2 ^ k) ?t) = alloc_blocks ?t - {b. i + 2 ^ k \<le> fst b \<and> is_user ?t (fst b)}"
        "\<forall>b\<in>alloc_blocks (munmap_all_from (i + 2 ^ k) ?t). frames (munmap_all_from (i + 2 ^ k) ?t) (fst b) = frames ?t (fst b)"
        using 1(1) [OF True refl t refl refl] bm rc(1) unfolding k_def frame_order_def by auto
      have us: "is_user ?t (fst b) = is_user s (fst b)" if "b \<in> alloc_blocks ?t" for b
        using fr [OF that] by (simp add: is_user_def)
      have "alloc_blocks ?t - {b. i + 2 ^ k \<le> fst b \<and> is_user ?t (fst b)}
        = alloc_blocks s - {b. i \<le> fst b \<and> is_user s (fst b)}"
        using us far u unfolding ab by force
      moreover have "frames (munmap_all_from (i + 2 ^ k) ?t) (fst b) = frames s (fst b)"
        if "b \<in> alloc_blocks (munmap_all_from (i + 2 ^ k) ?t)" for b
        using IH(2,3) fr [of b] that by simp
      ultimately show ?thesis unfolding eq using IH(1,2) by simp
    qed
  qed
qed

text \<open>The invariant reads memory only at the links of free frames, so the owners of allocated frames
  may write them as they like.\<close>

lemma buddy_inv_mem:
  assumes inv: "buddy_inv s"
    and m: "\<And>j. j \<in> unalloc s \<Longrightarrow> mem s' (frame_to_addr j) = mem s (frame_to_addr j) \<and>
      mem s' (frame_to_addr j + 8) = mem s (frame_to_addr j + 8)"
    and same: "frames s' = frames s" "free_area s' = free_area s"
  shows "buddy_inv s'" "alloc_blocks s' = alloc_blocks s" "unalloc s' = unalloc s"
proof -
  have b: "binv s (free_list s) {}" and co: "coalesced MAX_ORDER (free_set s)"
    using inv by (auto simp: buddy_inv_def)
  show ab: "alloc_blocks s' = alloc_blocks s" by (rule alloc_blocks_cong [OF same(1)])
  then show "unalloc s' = unalloc s" by (simp add: unalloc_def)
  have "flist (mem s') (free_area s k) 0 (free_list s k)" if k: "k \<le> MAX_ORDER" for k
  proof -
    have "j \<in> unalloc s" if "j \<in> set (free_list s k)" for j
      using free_unalloc [OF b, of j k j] that k by (simp add: free_blocks_def)
    then have "flist (mem s') (free_area s k) 0 (free_list s k) = flist (mem s) (free_area s k) 0 (free_list s k)"
      using m by (intro flist_cong) auto
    then show ?thesis using binv_flist(1) [OF b k] by simp
  qed
  then have "binv s' (free_list s) {}" using b same unfolding binv_def ab by simp
  then show "buddy_inv s'" using buddy_invI co by blast
qed

lemma alloc_addr_not_link:
  assumes "(i, k) \<in> alloc_blocks s" "j \<in> unalloc s" "buddy_inv s"
    and "unat (frame_to_addr i) \<le> unat a" "unat a < unat (frame_to_addr i) + 4096 * 2 ^ k"
  shows "a \<noteq> frame_to_addr j" "a \<noteq> frame_to_addr j + 8"
proof -
  have b: "i < FRAME_COUNT" using assms(1) by (simp add: alloc_blocks_def)
  have j: "j < FRAME_COUNT" "j \<notin> blk (i, k)" using assms(1,2) by (auto simp: unalloc_def)
  have "i + 2 ^ k \<le> j \<or> j < i" using j(2) by auto
  then have "unat (frame_to_addr i) + 4096 * 2 ^ k \<le> unat (frame_to_addr j) \<or>
    unat (frame_to_addr j) + 4096 \<le> unat (frame_to_addr i)"
    using b j(1) by (auto simp: frame_simps)
  then show "a \<noteq> frame_to_addr j" "a \<noteq> frame_to_addr j + 8"
    using assms(4,5) unat_frame_to_addr_8 [OF j(1)] unat_frame_to_addr [OF j(1)] by auto
qed

lemma poke_owned:
  assumes "buddy_inv s" "(i, k) \<in> alloc_blocks s"
    and "unat (frame_to_addr i) \<le> unat a" "unat a < unat (frame_to_addr i) + 4096 * 2 ^ k"
  shows "buddy_inv (poke a v s)"
  by (rule buddy_inv_mem(1) [OF assms(1)])
    (use alloc_addr_not_link [OF assms(2) _ assms(1,3,4)] in \<open>auto simp: eq_commute\<close>)

lemma order_for_least:
  "order \<le> order_for pages order \<and> pages \<le> 2 ^ order_for pages order \<and>
   (order < order_for pages order \<longrightarrow> 2 ^ (order_for pages order - 1) < pages)"
proof (induction pages order rule: order_for.induct)
  case (1 pages order)
  show ?case
  proof (cases "2 ^ order < pages")
    case True
    then have eq: "order_for pages order = order_for pages (Suc order)" by (subst order_for.simps) simp
    show ?thesis unfolding eq using 1 [OF True] True
      by (cases "order_for pages (Suc order) = Suc order") auto
  next
    case False
    then have "order_for pages order = order" by (subst order_for.simps) simp
    then show ?thesis using False by simp
  qed
qed

lemma size_to_pages_alt: "size_to_pages len = unat (len + 4095) div 4096"
proof -
  have e: "len + FRAME_SIZE - 1 = len + 4095" by simp
  show ?thesis unfolding size_to_pages_def e unat_div by simp
qed

lemma size_to_pages_exact:
  assumes "unat len + 4095 < 2 ^ 64"
  shows "size_to_pages len = (unat len + 4095) div 4096"
  unfolding size_to_pages_alt using assms unat_add_lem [of len 4095] by simp

lemma zero_bytes_simps [simp]:
  "frames (zero_bytes p n s) = frames s" "free_area (zero_bytes p n s) = free_area s"
  "caches (zero_bytes p n s) = caches s"
  by (simp_all add: zero_bytes_def caches_def)

lemma zero_bytes_owned:
  assumes inv: "buddy_inv s" and al: "(i, k) \<in> alloc_blocks s" and n: "n \<le> 4096 * 2 ^ k"
  shows "buddy_inv (zero_bytes (frame_to_addr i) n s)"
proof (rule buddy_inv_mem(1) [OF inv])
  fix j assume j: "j \<in> unalloc s"
  have ne: "unat a < unat (frame_to_addr i) \<or> unat (frame_to_addr i) + n \<le> unat a"
    if "a = frame_to_addr j \<or> a = frame_to_addr j + 8" for a
    using alloc_addr_not_link [OF al j inv, of a] that n by force
  show "mem (zero_bytes (frame_to_addr i) n s) (frame_to_addr j) = mem s (frame_to_addr j) \<and>
      mem (zero_bytes (frame_to_addr i) n s) (frame_to_addr j + 8) = mem s (frame_to_addr j + 8)"
    using ne [of "frame_to_addr j"] ne [of "frame_to_addr j + 8"] by (auto simp: zero_bytes_def)
qed simp_all

abbreviation mmap_pages :: "u64 \<Rightarrow> nat" where
  "mmap_pages len \<equiv> (if size_to_pages len = 0 then 1 else size_to_pages len)"

abbreviation mmap_order :: "u64 \<Rightarrow> nat" where
  "mmap_order len \<equiv> order_for (mmap_pages len) 0"

lemma mmap_user_cases:
  assumes inv: "buddy_inv s" and r: "mmap_user len s = (a, s')"
  obtains (failed) "a = 0" "s' = s" "\<And>i k. (i, k) \<in> free_set s \<Longrightarrow> k < mmap_order len"
  | (mapped) b t where "a = frame_to_addr b" "alloc_step s (mmap_order len) True b t" "buddy_inv t"
      "s' = zero_bytes (frame_to_addr b) (mmap_pages len * 4096) t" "buddy_inv s'"
      "alloc_blocks s' = insert (b, mmap_order len) (alloc_blocks s)"
proof -
  obtain p t where ba: "buddy_alloc (int (mmap_order len)) True s = (p, t)"
    by (cases "buddy_alloc (int (mmap_order len)) True s")
  have r': "(if p \<noteq> 0 then (p, zero_bytes p (mmap_pages len * 4096) t) else (p, t)) = (a, s')"
    using r ba by (simp add: mmap_user_def Let_def split: if_splits)
  from inv ba show ?thesis
  proof (cases rule: buddy_alloc_cases)
    case refused
    have "k < mmap_order len" if "(i, k) \<in> free_set s" for i k
      using refused(1) that by (auto simp: free_blocks_def)
    then show ?thesis using failed refused(2,3) r' by simp
  next
    case exhausted
    then show ?thesis using failed r' by simp
  next
    case (allocated b k)
    have bn: "b < FRAME_COUNT" "(b, mmap_order len) \<in> alloc_blocks t"
      using allocated(4) by (auto simp: alloc_step_def block_ok_def)
    have s': "a = frame_to_addr b" "s' = zero_bytes (frame_to_addr b) (mmap_pages len * 4096) t"
      using r' allocated(3) bn(1) by (auto split: if_splits)
    have "mmap_pages len * 4096 \<le> 4096 * 2 ^ mmap_order len"
      using order_for_least [of 0 "mmap_pages len"] by simp
    from zero_bytes_owned [OF allocated(5) bn(2) this] have "buddy_inv s'" using s' by simp
    moreover have "alloc_blocks s' = insert (b, mmap_order len) (alloc_blocks s)"
      using alloc_blocks_cong [of s' t] allocated(4) s' by (simp add: alloc_step_def)
    ultimately show ?thesis using mapped [of b t] s' allocated(4,5) by simp
  qed
qed

section \<open>Reachable states\<close>

text \<open>The steps the rest of the kernel takes on the frame allocator: any allocation, the release of an
  allocated block, the user-page calls on arbitrary arguments, and a write by the owner of a block.\<close>

inductive frame_step :: "kheap \<Rightarrow> kheap \<Rightarrow> bool" where
  alloc: "frame_step s (snd (buddy_alloc order u s))"
| free: "(i, k) \<in> alloc_blocks s \<Longrightarrow> frame_step s (buddy_free (frame_to_addr i) (int k) s)"
| mmap: "frame_step s (snd (mmap_user len s))"
| munmap: "frame_step s (snd (munmap_user a s))"
| munmap_all: "frame_step s (munmap_all_user s)"
| owner_write: "(i, k) \<in> alloc_blocks s \<Longrightarrow> unat (frame_to_addr i) \<le> unat a \<Longrightarrow>
    unat a < unat (frame_to_addr i) + 4096 * 2 ^ k \<Longrightarrow> frame_step s (poke a v s)"

lemma frame_step_inv:
  assumes "frame_step s s'" "buddy_inv s"
  shows "buddy_inv s'"
  using assms
proof (induction rule: frame_step.induct)
  case (alloc s order u)
  show ?case by (cases rule: buddy_alloc_cases [OF alloc surjective_pairing]) (use alloc in auto)
next
  case (free i k s)
  then show ?case using buddy_free_correct(1) by blast
next
  case (mmap s len)
  show ?case by (cases rule: mmap_user_cases [OF mmap surjective_pairing]) (use mmap in auto)
next
  case (munmap s a)
  show ?case by (cases rule: munmap_user_cases [OF munmap surjective_pairing]) (use munmap in auto)
next
  case (munmap_all s)
  then show ?case using munmap_all_from_correct by (simp add: munmap_all_user_def)
next
  case (owner_write i k s a v)
  then show ?case using poke_owned by blast
qed

lemma reachable_inv:
  assumes "frame_step\<^sup>*\<^sup>* (memory_init s0) s"
  shows "buddy_inv s"
  using assms by (induction rule: rtranclp_induct) (auto simp: memory_init_free intro: frame_step_inv)

section \<open>The frame allocator as an allocator\<close>

definition frame_acquire :: "int \<times> bool \<Rightarrow> kheap \<Rightarrow> block option \<times> kheap" where
  "frame_acquire r s = (case buddy_alloc (fst r) (snd r) s of
     (a, s') \<Rightarrow> (if a = 0 then None else Some (addr_to_frame a, nat (fst r)), s'))"

definition frame_release :: "block \<Rightarrow> kheap \<Rightarrow> kheap" where
  "frame_release b s = buddy_free (frame_to_addr (fst b)) (int (snd b)) s"

lemma frame_acquire_cases:
  assumes "buddy_inv s" "frame_acquire r s = (ob, s')"
  shows "case ob of None \<Rightarrow> s' = s
    | Some b \<Rightarrow> buddy_inv s' \<and> alloc_step s (snd b) (snd r) (fst b) s' \<and> int (snd b) = fst r"
proof -
  obtain a t where ba: "buddy_alloc (fst r) (snd r) s = (a, t)" by (cases "buddy_alloc (fst r) (snd r) s")
  from assms(1) ba show ?thesis
  proof (cases rule: buddy_alloc_cases)
    case (allocated b k)
    then have "b < FRAME_COUNT" by (simp add: alloc_step_def block_ok_def)
    then show ?thesis using assms(2) ba allocated by (auto simp: frame_acquire_def)
  qed (use assms(2) ba in \<open>auto simp: frame_acquire_def\<close>)
qed

interpretation fa: allocator buddy_inv alloc_blocks blk frame_acquire frame_release
proof (standard, goal_cases)
  case (1 s b c)
  then show ?case by (rule buddy_inv_alloc_disjoint)
next
  case (2 s r s')
  then show ?case using frame_acquire_cases [OF 2] by simp
next
  case (3 s r b s')
  then show ?case using frame_acquire_cases [OF 3] by (auto simp: alloc_step_def)
next
  case (4 s b)
  then show ?case using buddy_free_correct [of s "fst b" "snd b"]
    by (simp add: frame_release_def free_step_def)
qed

end
