(* ===== verification/BuddyProps.thy ===== *)
theory BuddyProps
  imports BuddyCorrect
begin

text \<open>
  The properties of the frame allocator, with a concrete heap on which they are exercised.
\<close>

definition boot_heap :: kheap where
  "boot_heap = memory_init
     \<lparr>mem = \<lambda>_. 0, frames = \<lambda>_. 0, free_area = \<lambda>_. 0, kmalloc_caches = [], pcpu_pages = [],
      pcpu_objects = \<lambda>_. [], cr3 = 0, user_va_next = 0x70000000\<rparr>"

lemma boot_heap_inv: "buddy_inv boot_heap"
  by (simp add: boot_heap_def memory_init_free)

lemma boot_heap_free: "free_set boot_heap = {(0, 14)}" "alloc_blocks boot_heap = {}"
  by (auto simp: boot_heap_def memory_init_free memory_init_alloc free_blocks_def split: if_splits)

text \<open>The first allocation of half the heap: the low half is handed out, the high half is free.\<close>

lemma boot_alloc: "fst (buddy_alloc 13 True boot_heap) = 0xA00000"
  by (simp add: boot_heap_def memory_init_def buddy_alloc_def found_order_def upt_rec list_remove_def
      Let_def addr_to_frame_def frame_to_addr_def poke_def set_area_def set_frame_def)

lemma boot_alloc_pair: "buddy_alloc 13 True boot_heap = (0xA00000, snd (buddy_alloc 13 True boot_heap))"
  using boot_alloc by (metis prod.collapse)

abbreviation half_heap :: kheap where
  "half_heap \<equiv> snd (buddy_alloc 13 True boot_heap)"

lemma half_heap_step: "alloc_step boot_heap 13 True 0 half_heap" "buddy_inv half_heap"
proof -
  from boot_heap_inv boot_alloc_pair
  have "alloc_step boot_heap 13 True 0 half_heap \<and> buddy_inv half_heap"
  proof (cases rule: buddy_alloc_cases)
    case (allocated b k)
    have "b < FRAME_COUNT" using allocated(4) by (simp add: alloc_step_def block_ok_def)
    moreover have "frame_to_addr 0 = frame_to_addr b" using allocated(3) frame_0 by simp
    ultimately have "b = 0" using frame_to_addr_inj [of 0 b] by simp
    then show ?thesis using allocated(4,5) by simp
  qed (use boot_heap_free in auto)
  then show "alloc_step boot_heap 13 True 0 half_heap" "buddy_inv half_heap" by auto
qed

lemma half_heap_blocks: "alloc_blocks half_heap = {(0, 13)}" "is_user half_heap 0"
  using half_heap_step(1) by (auto simp: alloc_step_def boot_heap_free is_user_def)

lemma half_heap_reachable: "frame_step\<^sup>*\<^sup>* boot_heap half_heap"
  using frame_step.alloc by blast

text \<open>C1: In every state the kernel can reach from \<^verbatim>\<open>memory_init\<close> by allocations, releases, user
  mappings and unmappings with arbitrary arguments, and writes by owners, the free lists and the
  allocated blocks together tile the 64 MB heap without overlap or gap, no block is both free and
  allocated, and no two buddies are both free.\<close>

theorem reachable_tiled:
  assumes "frame_step\<^sup>*\<^sup>* (memory_init s0) s"
  shows "tiling MAX_ORDER (free_set s \<union> alloc_blocks s) \<and> free_set s \<inter> alloc_blocks s = {} \<and>
    coalesced MAX_ORDER (free_set s)"
  using reachable_inv [OF assms] buddy_inv_tiling free_alloc_apart by (simp add: buddy_inv_def)

theorem reachable_tiled_witness:
  "tiling MAX_ORDER (free_set half_heap \<union> alloc_blocks half_heap) \<and>
   free_set half_heap \<inter> alloc_blocks half_heap = {} \<and> coalesced MAX_ORDER (free_set half_heap)"
  by (rule reachable_tiled) (use half_heap_reachable in \<open>simp add: boot_heap_def\<close>)

text \<open>C2: A successful \<^verbatim>\<open>buddy_alloc\<close> returns the address of a block of the requested order that is
  aligned to its size, lies in the heap, overlaps no live block, is recorded as allocated, and leaves
  every word of every live block as it was.\<close>

theorem buddy_alloc_safe:
  assumes "buddy_inv s" "buddy_alloc order u s = (a, s')" "a \<noteq> 0"
  shows "\<exists>b. a = frame_to_addr b \<and> 2 ^ nat order dvd b \<and> b + 2 ^ nat order \<le> FRAME_COUNT \<and>
    (\<forall>c\<in>alloc_blocks s. blk (b, nat order) \<inter> blk c = {}) \<and>
    alloc_blocks s' = insert (b, nat order) (alloc_blocks s) \<and>
    (\<forall>(i, k)\<in>alloc_blocks s. \<forall>x. unat (frame_to_addr i) \<le> unat x \<and>
       unat x < unat (frame_to_addr i) + 4096 * 2 ^ k \<longrightarrow> mem s' x = mem s x)"
  using assms(1,2)
proof (cases rule: buddy_alloc_cases)
  case (allocated b k)
  note st = allocated(4) [unfolded alloc_step_def]
  have "mem s' x = mem s x" if "(i, l) \<in> alloc_blocks s" "unat (frame_to_addr i) \<le> unat x"
    "unat x < unat (frame_to_addr i) + 4096 * 2 ^ l" for i l x
    using st alloc_addr_not_link [OF that(1) _ assms(1) that(2,3)] by blast
  moreover have "blk (b, nat order) \<inter> blk c = {}" if "c \<in> alloc_blocks s" for c
    using st that unfolding unalloc_def by blast
  moreover have "2 ^ nat order dvd b" "b + 2 ^ nat order \<le> FRAME_COUNT"
    using st block_ok_bound [of MAX_ORDER b "nat order"] by (auto simp: block_ok_def)
  ultimately show ?thesis using allocated(3) st by blast
qed (use assms(3) in auto)

theorem buddy_alloc_safe_witness:
  "\<exists>b. (0xA00000 :: u64) = frame_to_addr b \<and> 2 ^ nat 13 dvd b \<and> b + 2 ^ nat 13 \<le> FRAME_COUNT \<and>
    (\<forall>c\<in>alloc_blocks boot_heap. blk (b, nat 13) \<inter> blk c = {}) \<and>
    alloc_blocks half_heap = insert (b, nat 13) (alloc_blocks boot_heap) \<and>
    (\<forall>(i, k)\<in>alloc_blocks boot_heap. \<forall>x. unat (frame_to_addr i) \<le> unat x \<and>
       unat x < unat (frame_to_addr i) + 4096 * 2 ^ k \<longrightarrow> mem half_heap x = mem boot_heap x)"
  using buddy_alloc_safe [OF boot_heap_inv boot_alloc_pair] by simp

text \<open>\<^verbatim>\<open>buddy_alloc\<close> fails exactly when the order is out of range or no free block is large
  enough; fragmentation is the only reason to refuse, and a refusal changes nothing.\<close>

theorem buddy_alloc_complete:
  assumes "buddy_inv s"
  shows "(fst (buddy_alloc order u s) = 0 \<longleftrightarrow>
      order < 0 \<or> order > int MAX_ORDER \<or> (\<forall>i k. (i, k) \<in> free_set s \<longrightarrow> int k < order)) \<and>
    (fst (buddy_alloc order u s) = 0 \<longrightarrow> snd (buddy_alloc order u s) = s)"
  using assms surjective_pairing [of "buddy_alloc order u s"]
proof (cases rule: buddy_alloc_cases)
  case (allocated b k)
  then have "b < FRAME_COUNT" by (simp add: alloc_step_def block_ok_def)
  moreover have "\<not> int k < order" using allocated(7) by simp
  ultimately show ?thesis using allocated(1-3,6) by auto
qed auto

theorem buddy_alloc_complete_witness:
  "fst (buddy_alloc 14 False half_heap) = 0 \<and> snd (buddy_alloc 14 False half_heap) = half_heap"
proof -
  have "k < 14" if "(i, k) \<in> free_set half_heap" for i k
  proof (rule ccontr)
    assume "\<not> k < 14"
    moreover have ok: "block_ok 14 (i, k)"
      using tiling_ok [OF buddy_inv_tiling [OF half_heap_step(2)]] that by blast
    ultimately have "k = 14" "i = 0" using block_ok_bound [OF ok] by (auto simp: block_ok_def)
    then have "(0, 13) = (0, 14 :: nat)"
      using tiling_unique [OF buddy_inv_tiling [OF half_heap_step(2)], of "(0, 13)" "(0, 14)" 0]
        that half_heap_blocks by auto
    then show False by simp
  qed
  then show ?thesis using buddy_alloc_complete [OF half_heap_step(2), of 14 False] by auto
qed

text \<open>C12: Freeing a block right after allocating it restores the allocator: the same blocks are
  allocated and the same blocks, of the same sizes, are free. Merging undoes splitting exactly.\<close>

theorem buddy_alloc_free_roundtrip:
  assumes "buddy_inv s" "buddy_alloc order u s = (a, s')" "a \<noteq> 0"
  shows "alloc_blocks (buddy_free a order s') = alloc_blocks s \<and>
    free_set (buddy_free a order s') = free_set s \<and> buddy_inv (buddy_free a order s')"
  using assms(1,2)
proof (cases rule: buddy_alloc_cases)
  case (allocated b k)
  note st = allocated(4) [unfolded alloc_step_def]
  have al: "(b, nat order) \<in> alloc_blocks s'" using st by simp
  have e: "buddy_free a order s' = buddy_free (frame_to_addr b) (int (nat order)) s'"
    using allocated(1,3) by simp
  have "alloc_blocks (buddy_free a order s') = alloc_blocks s"
    unfolding e using buddy_free_correct(2) [OF allocated(5) al] st by (auto simp: free_step_def)
  moreover have "buddy_inv (buddy_free a order s')"
    unfolding e by (rule buddy_free_correct(1) [OF allocated(5) al])
  ultimately show ?thesis using free_set_canonical [OF _ assms(1)] by blast
qed (use assms(3) in auto)

theorem buddy_alloc_free_roundtrip_witness:
  "alloc_blocks (buddy_free 0xA00000 13 half_heap) = {} \<and>
   free_set (buddy_free 0xA00000 13 half_heap) = {(0, 14)} \<and> buddy_inv (buddy_free 0xA00000 13 half_heap)"
  using buddy_alloc_free_roundtrip [OF boot_heap_inv boot_alloc_pair] by (simp add: boot_heap_free)

text \<open>\<^verbatim>\<open>munmap_user\<close> is safe on every address a program may pass: it releases the block that
  starts at that address, if one is allocated there, and nothing else; the allocator stays
  consistent; and a second call with the same address does nothing.\<close>

theorem munmap_user_exact:
  assumes "buddy_inv s" "munmap_user a s = (c, s')"
  shows "alloc_blocks s' = {b \<in> alloc_blocks s. frame_to_addr (fst b) \<noteq> a} \<and> buddy_inv s' \<and>
    snd (munmap_user a s') = s'"
proof -
  have "alloc_blocks s' = {b \<in> alloc_blocks s. frame_to_addr (fst b) \<noteq> a} \<and> buddy_inv s'"
    using assms
  proof (cases rule: munmap_user_cases)
    case (released i k)
    have "frame_to_addr (fst b) = frame_to_addr i \<longleftrightarrow> b = (i, k)" if "b \<in> alloc_blocks s" for b
      using that released(2) by (auto simp: alloc_blocks_def)
    then show ?thesis using released by (auto simp: free_step_def)
  qed (use assms(1) in auto)
  moreover have "snd (munmap_user a s') = s'"
    using calculation [THEN conjunct2] surjective_pairing [of "munmap_user a s'"]
    by (cases rule: munmap_user_cases) (use calculation in auto)
  ultimately show ?thesis by blast
qed

theorem munmap_user_exact_witness:
  "alloc_blocks (snd (munmap_user 0xA01000 half_heap)) = {(0, 13)} \<and>
   alloc_blocks (snd (munmap_user 0xA00000 half_heap)) = {} \<and>
   buddy_inv (snd (munmap_user 0xA00000 half_heap))"
proof -
  have "frame_to_addr 0 = 0xA00000" by (simp add: frame_to_addr_def)
  then show ?thesis
    using munmap_user_exact [OF half_heap_step(2) surjective_pairing [of "munmap_user 0xA01000 half_heap"]]
      munmap_user_exact [OF half_heap_step(2) surjective_pairing [of "munmap_user 0xA00000 half_heap"]]
      half_heap_blocks
    by auto
qed

text \<open>C16: \<^verbatim>\<open>munmap_all_user\<close> releases exactly the blocks marked as user blocks: every kernel block
  stays allocated with its flags, and the allocator stays consistent.\<close>

theorem munmap_all_user_exact:
  assumes "buddy_inv s"
  shows "alloc_blocks (munmap_all_user s) = {b \<in> alloc_blocks s. \<not> is_user s (fst b)} \<and>
    buddy_inv (munmap_all_user s) \<and>
    (\<forall>b\<in>alloc_blocks (munmap_all_user s). frames (munmap_all_user s) (fst b) = frames s (fst b))"
  using munmap_all_from_correct [OF assms, of 0] unfolding munmap_all_user_def by auto

theorem munmap_all_user_exact_witness:
  "alloc_blocks (munmap_all_user half_heap) = {} \<and> buddy_inv (munmap_all_user half_heap)"
  using munmap_all_user_exact [OF half_heap_step(2)] half_heap_blocks by simp

text \<open>C15: A successful \<^verbatim>\<open>mmap_user\<close> of a length that does not wrap when it is rounded up to pages returns a
  fresh user block that overlaps no live block, is large enough for the length, is less than twice as
  large as the pages the length needs (one at least), and reads as zero over all of these pages, up to
  the end of the last one. The frames the power of two adds behind them are not cleared.\<close>

theorem mmap_user_fresh_zeroed:
  assumes "buddy_inv s" "mmap_user len s = (a, s')" "a \<noteq> 0" "unat len + 4095 < 2 ^ 64"
  shows "\<exists>b k. a = frame_to_addr b \<and> alloc_blocks s' = insert (b, k) (alloc_blocks s) \<and> buddy_inv s' \<and>
    is_user s' b \<and> (\<forall>c\<in>alloc_blocks s. blk (b, k) \<inter> blk c = {}) \<and>
    unat len \<le> 4096 * 2 ^ k \<and> 2 ^ k < 2 * max 1 ((unat len + 4095) div 4096) \<and>
    (\<forall>x. unat a \<le> unat x \<and> unat x < unat a + max 1 ((unat len + 4095) div 4096) * 4096 \<longrightarrow> mem s' x = 0)"
  using assms(1,2)
proof (cases rule: mmap_user_cases)
  case (mapped b t)
  note st = mapped(2) [unfolded alloc_step_def]
  let ?k = "mmap_order len" and ?p = "mmap_pages len"
  have k: "?k \<le> MAX_ORDER" using st by (simp add: block_ok_def)
  have pg: "size_to_pages len = (unat len + 4095) div 4096" by (rule size_to_pages_exact [OF assms(4)])
  have p: "?p = max 1 ((unat len + 4095) div 4096)" unfolding pg by (simp add: max_def)
  have len: "unat len \<le> ?p * 4096" unfolding p by (simp add: max_def) linarith
  have ord: "?p \<le> 2 ^ ?k" "0 < ?k \<longrightarrow> 2 ^ (?k - 1) < ?p" using order_for_least [of 0 ?p] by auto
  have "2 ^ ?k < 2 * ?p" using ord(2) by (cases ?k) auto
  then have "2 ^ ?k < 2 * max 1 ((unat len + 4095) div 4096)" by (subst p [symmetric])
  moreover have "frames s' b = of_nat ?k OR FRAME_ALLOC OR FRAME_USER" using st mapped(4) by simp
  then have "is_user s' b" using order_byte(9) [OF k] by (simp add: is_user_def)
  moreover have "blk (b, ?k) \<inter> blk c = {}" if "c \<in> alloc_blocks s" for c
    using st that unfolding unalloc_def by blast
  moreover have "mem s' x = 0"
    if "unat a \<le> unat x" "unat x < unat a + max 1 ((unat len + 4095) div 4096) * 4096" for x
    using that mapped(1,4) unfolding p [symmetric] by (auto simp: zero_bytes_def)
  moreover have "unat len \<le> 4096 * 2 ^ ?k" using len ord(1) by linarith
  ultimately show ?thesis using mapped(1,5,6) by (intro exI [of _ b] exI [of _ ?k]) blast
qed (use assms(3) in auto)

theorem mmap_user_fresh_zeroed_witness:
  "\<exists>b k. fst (mmap_user 5000 boot_heap) = frame_to_addr b \<and>
    alloc_blocks (snd (mmap_user 5000 boot_heap)) = {(b, k)} \<and> 5000 \<le> (4096 * 2 ^ k :: nat) \<and>
    mem (snd (mmap_user 5000 boot_heap)) (fst (mmap_user 5000 boot_heap)) = 0"
proof -
  have "fst (mmap_user 5000 boot_heap) \<noteq> 0"
    using boot_heap_inv surjective_pairing [of "mmap_user 5000 boot_heap"]
  proof (cases rule: mmap_user_cases)
    case failed
    have "order_for 2 0 = 1" by (simp add: order_for.simps)
    then show ?thesis using failed(3) [of 0 14] by (simp add: boot_heap_free size_to_pages_alt)
  next
    case (mapped b t)
    then show ?thesis by (simp add: alloc_step_def block_ok_def)
  qed
  from mmap_user_fresh_zeroed [OF boot_heap_inv surjective_pairing [of "mmap_user 5000 boot_heap"] this]
  show ?thesis by (auto simp: boot_heap_free)
qed

text \<open>For a length within 4095 bytes of \<open>2 ^ 64\<close> the rounding of \<^verbatim>\<open>mmap_user\<close> wraps to zero pages,
  which are taken as one: the call succeeds whenever a single frame is free and hands out one
  frame for a request of almost \<open>2 ^ 64\<close> bytes.\<close>

theorem mmap_user_wraps:
  assumes "buddy_inv s" "free_set s \<noteq> {}" "2 ^ 64 \<le> unat len + 4095"
  shows "\<exists>b. fst (mmap_user len s) = frame_to_addr b \<and>
    alloc_blocks (snd (mmap_user len s)) = insert (b, 0) (alloc_blocks s)"
proof -
  have "unat (len + 4095) = unat len + 4095 - 2 ^ 64"
    using assms(3) unat_u64_less [of len] by (simp add: unat_plus_if')
  then have "unat (len + 4095) < 4096" using unat_u64_less [of len] by simp
  then have "size_to_pages len = 0" unfolding size_to_pages_alt by simp
  moreover have "order_for 1 0 = 0" by (subst order_for.simps) simp
  ultimately have o: "mmap_order len = 0" by simp
  show ?thesis using assms(1) surjective_pairing [of "mmap_user len s"]
  proof (cases rule: mmap_user_cases)
    case failed
    then show ?thesis using assms(2) o by auto
  next
    case (mapped b t)
    then show ?thesis using o by auto
  qed
qed

theorem mmap_user_wraps_witness:
  "\<exists>b. fst (mmap_user 0xFFFFFFFFFFFFFFFF boot_heap) = frame_to_addr b \<and>
    alloc_blocks (snd (mmap_user 0xFFFFFFFFFFFFFFFF boot_heap)) = {(b, 0)}"
  using mmap_user_wraps [OF boot_heap_inv, of "0xFFFFFFFFFFFFFFFF"] by (simp add: boot_heap_free)

end
