(* ===== verification/Slab.thy ===== *)
theory Slab
  imports Buddy
begin

text \<open>
  The object caches of \<^verbatim>\<open>OvsbMk/kernel/memory.c\<close> on top of the frame allocator: slabs, the per-CPU page
  and object pools, \<^verbatim>\<open>kmalloc\<close>, \<^verbatim>\<open>kfree\<close> and \<^verbatim>\<open>kcalloc\<close>.

  A \<^verbatim>\<open>slab_t\<close> occupies the first 48 bytes of its frame: \<^verbatim>\<open>magic\<close> and \<^verbatim>\<open>in_use\<close> are the two halves of the
  word at offset 0, \<^verbatim>\<open>total\<close> the low half-word at 8, \<^verbatim>\<open>freelist\<close>, \<^verbatim>\<open>next\<close>, \<^verbatim>\<open>prev\<close> and \<^verbatim>\<open>cache\<close> the words at 16,
  24, 32 and 40. The cache pointer of a slab is the index of the cache in \<^verbatim>\<open>kmalloc_caches\<close> plus one, \<open>0\<close>
  for the null pointer. The walk along the slabs of a cache and the carving of a fresh slab are bounded
  by the number of frames and by the bytes of a frame.
\<close>

abbreviation SLAB_MAGIC :: u64 where "SLAB_MAGIC \<equiv> 0x534C4142"
abbreviation CACHE_COUNT :: nat where "CACHE_COUNT \<equiv> 8"
abbreviation PCPU_PAGE_POOL :: nat where "PCPU_PAGE_POOL \<equiv> 32"
abbreviation PCPU_OBJ_CACHE :: nat where "PCPU_OBJ_CACHE \<equiv> 16"
abbreviation PCPU_OBJ_REFILL :: nat where "PCPU_OBJ_REFILL \<equiv> 8"
abbreviation SLAB_HDR :: u64 where "SLAB_HDR \<equiv> 48"

text \<open>The fields of a \<^verbatim>\<open>slab_t\<close> at address \<open>p\<close>.\<close>

definition slab_magic :: "kheap \<Rightarrow> addr \<Rightarrow> u64" where
  "slab_magic s p = mem s p AND 0xFFFFFFFF"

definition slab_in_use :: "kheap \<Rightarrow> addr \<Rightarrow> u32" where
  "slab_in_use s p = ucast (drop_bit 32 (mem s p))"

definition set_slab_magic :: "addr \<Rightarrow> u64 \<Rightarrow> kheap \<Rightarrow> kheap" where
  "set_slab_magic p v s = poke p (push_bit 32 (drop_bit 32 (mem s p)) OR v) s"

definition set_slab_in_use :: "addr \<Rightarrow> u32 \<Rightarrow> kheap \<Rightarrow> kheap" where
  "set_slab_in_use p v s = poke p (push_bit 32 (ucast v) OR (mem s p AND 0xFFFFFFFF)) s"

definition set_slab_total :: "addr \<Rightarrow> nat \<Rightarrow> kheap \<Rightarrow> kheap" where
  "set_slab_total p n s =
    poke (p + 8) (push_bit 16 (drop_bit 16 (mem s (p + 8))) OR take_bit 16 (of_nat n)) s"

abbreviation slab_freelist :: "kheap \<Rightarrow> addr \<Rightarrow> addr" where "slab_freelist s p \<equiv> mem s (p + 16)"
abbreviation slab_next :: "kheap \<Rightarrow> addr \<Rightarrow> addr" where "slab_next s p \<equiv> mem s (p + 24)"
abbreviation slab_prev :: "kheap \<Rightarrow> addr \<Rightarrow> addr" where "slab_prev s p \<equiv> mem s (p + 32)"
abbreviation slab_cache :: "kheap \<Rightarrow> addr \<Rightarrow> u64" where "slab_cache s p \<equiv> mem s (p + 40)"

definition set_slabs :: "nat \<Rightarrow> addr \<Rightarrow> kheap \<Rightarrow> kheap" where
  "set_slabs c a s = s\<lparr>kmalloc_caches := (kmalloc_caches s)[c := (kmalloc_caches s ! c)\<lparr>slabs := a\<rparr>]\<rparr>"

text \<open>The frame of an address. \<^verbatim>\<open>~(FRAME_SIZE - 1)\<close> is a 32-bit mask, so the upper half is cleared too.\<close>

definition page_of :: "addr \<Rightarrow> addr" where
  "page_of a = a AND 0xFFFFF000"

section \<open>Slabs\<close>

fun find_slab :: "nat \<Rightarrow> kheap \<Rightarrow> addr \<Rightarrow> addr" where
  "find_slab 0 s p = 0"
| "find_slab (Suc n) s p =
    (if p = 0 then 0 else if slab_freelist s p \<noteq> 0 then p else find_slab n s (slab_next s p))"

fun carve :: "nat \<Rightarrow> u64 \<Rightarrow> addr \<Rightarrow> addr \<Rightarrow> addr \<Rightarrow> nat \<Rightarrow> kheap \<Rightarrow> addr \<times> nat \<times> kheap" where
  "carve 0 sz data fin head n s = (head, n, s)"
| "carve (Suc fuel) sz data fin head n s =
    (if data + sz \<le> fin then carve fuel sz (data + sz) fin data (Suc n) (poke data head s)
     else (head, n, s))"

text \<open>Taking the first object off a slab's free list, as both allocation paths do.\<close>

definition slab_take :: "addr \<Rightarrow> kheap \<Rightarrow> addr \<times> kheap" where
  "slab_take p s =
    (let obj = slab_freelist s p;
         s = poke (p + 16) (mem s obj) s
     in (obj, set_slab_in_use p (slab_in_use s p + 1) s))"

definition slab_alloc :: "nat \<Rightarrow> kheap \<Rightarrow> addr \<times> kheap" where
  "slab_alloc c s =
    (let p = find_slab FRAME_COUNT s (slabs (kmalloc_caches s ! c)) in
     if p \<noteq> 0 then slab_take p s
     else case buddy_alloc 0 False s of (page, s) \<Rightarrow>
       if page = 0 then (0, s)
       else
         let s = set_slab_magic page SLAB_MAGIC s;
             s = set_slab_in_use page 0 s;
             s = set_slab_total page (obj_per_slab (kmalloc_caches s ! c)) s;
             s = poke (page + 40) (of_nat (c + 1)) s;
             first = slabs (kmalloc_caches s ! c);
             s = poke (page + 24) first s;
             s = poke (page + 32) 0 s;
             s = (if first \<noteq> 0 then poke (first + 32) page s else s);
             s = set_slabs c page s
         in case carve 4096 (obj_size (kmalloc_caches s ! c)) (page + SLAB_HDR) (page + FRAME_SIZE) 0 0 s of
              (head, count, s) \<Rightarrow>
                let s = poke (page + 16) head s;
                    s = set_slab_total page count s;
                    obj = slab_freelist s page;
                    s = poke (page + 16) (mem s obj) s;
                    s = set_slab_in_use page 1 s
                in (obj, s))"

text \<open>Putting an object back on the free list of its slab \<open>p\<close>; an empty slab is unlinked from the cache
  \<open>c\<close> (\<open>0\<close> for none, otherwise index plus one) and its frame released. The three copies of this code in
  \<^verbatim>\<open>slab_free\<close> and \<^verbatim>\<open>pcpu_slab_free\<close> are this one definition.\<close>

definition slab_put :: "addr \<Rightarrow> addr \<Rightarrow> u64 \<Rightarrow> kheap \<Rightarrow> kheap" where
  "slab_put ptr p c s =
    (let s = poke ptr (slab_freelist s p) s;
         s = poke (p + 16) ptr s;
         s = set_slab_in_use p (slab_in_use s p - 1) s
     in if slab_in_use s p = 0 then
          let s = (if slab_next s p \<noteq> 0 then poke (slab_next s p + 32) (slab_prev s p) s else s);
              s = (if slab_prev s p \<noteq> 0 then poke (slab_prev s p + 24) (slab_next s p) s
                   else if c \<noteq> 0 then set_slabs (unat c - 1) (slab_next s p) s else s)
          in buddy_free p 0 s
        else s)"

definition slab_free :: "addr \<Rightarrow> kheap \<Rightarrow> kheap" where
  "slab_free ptr s =
    (if ptr = 0 then s
     else let p = page_of ptr in
       if slab_magic s p \<noteq> SLAB_MAGIC then s
       else slab_put ptr p (slab_cache s p) s)"

section \<open>Per-CPU pools\<close>

definition pcpu_page_alloc :: "kheap \<Rightarrow> addr \<times> kheap" where
  "pcpu_page_alloc s =
    (case pcpu_pages s of
       p # ps \<Rightarrow> (p, s\<lparr>pcpu_pages := ps\<rparr>)
     | [] \<Rightarrow> buddy_alloc 0 False s)"

definition pcpu_page_free :: "addr \<Rightarrow> kheap \<Rightarrow> kheap" where
  "pcpu_page_free p s =
    (if length (pcpu_pages s) < PCPU_PAGE_POOL then s\<lparr>pcpu_pages := p # pcpu_pages s\<rparr>
     else buddy_free p 0 s)"

definition push_obj :: "nat \<Rightarrow> addr \<Rightarrow> kheap \<Rightarrow> kheap" where
  "push_obj c a s = s\<lparr>pcpu_objects := (pcpu_objects s)(c := a # pcpu_objects s c)\<rparr>"

definition pop_obj :: "nat \<Rightarrow> kheap \<Rightarrow> kheap" where
  "pop_obj c s = s\<lparr>pcpu_objects := (pcpu_objects s)(c := tl (pcpu_objects s c))\<rparr>"

fun refill :: "nat \<Rightarrow> nat \<Rightarrow> addr \<Rightarrow> kheap \<Rightarrow> kheap" where
  "refill 0 c p s = s"
| "refill (Suc want) c p s =
    (if slab_freelist s p \<noteq> 0 then
       case slab_take p s of (extra, s) \<Rightarrow>
         if length (pcpu_objects s c) < PCPU_OBJ_CACHE then refill want c p (push_obj c extra s)
         else s
     else s)"

definition pcpu_slab_alloc :: "nat \<Rightarrow> kheap \<Rightarrow> addr \<times> kheap" where
  "pcpu_slab_alloc c s =
    (case pcpu_objects s c of
       a # _ \<Rightarrow> (a, pop_obj c s)
     | [] \<Rightarrow>
         (case slab_alloc c s of (obj, s) \<Rightarrow>
            if obj = 0 then (0, s) else (obj, refill PCPU_OBJ_REFILL c (page_of obj) s)))"

fun drain :: "nat \<Rightarrow> nat \<Rightarrow> kheap \<Rightarrow> kheap" where
  "drain 0 c s = s"
| "drain (Suc n) c s =
    (case pcpu_objects s c of
       [] \<Rightarrow> s
     | obj # _ \<Rightarrow>
         let s = pop_obj c s; p = page_of obj
         in drain n c (slab_put obj p (slab_cache s p) s))"

definition pcpu_slab_free :: "addr \<Rightarrow> addr \<Rightarrow> kheap \<Rightarrow> kheap" where
  "pcpu_slab_free ptr p s =
    (let cache = slab_cache s p; c = unat cache - 1 in
     if length (pcpu_objects s c) < PCPU_OBJ_CACHE then push_obj c ptr s
     else slab_put ptr p cache (drain (length (pcpu_objects s c)) c s))"

section \<open>The kernel heap interface\<close>

definition kmalloc :: "u64 \<Rightarrow> kheap \<Rightarrow> addr \<times> kheap" where
  "kmalloc size' s =
    (if size' = 0 then (0, s)
     else
       let sz = (if size' < 16 then 16 else size') in
       if sz \<ge> 2048 then
         let order = order_for (size_to_pages sz) 0 in
         if order = 0 then pcpu_page_alloc s else buddy_alloc (int order) False s
       else case find (\<lambda>c. obj_size (kmalloc_caches s ! c) \<ge> sz) [0..<CACHE_COUNT] of
              Some c \<Rightarrow> pcpu_slab_alloc c s
            | None \<Rightarrow> (0, s))"

definition kfree :: "addr \<Rightarrow> kheap \<Rightarrow> kheap" where
  "kfree ptr s =
    (if ptr = 0 then s
     else if ptr < HEAP_PHYS \<or> ptr \<ge> HEAP_PHYS + HEAP_SIZE then s
     else let p = page_of ptr in
       if slab_magic s p = SLAB_MAGIC then
         (if slab_cache s p \<noteq> 0 then pcpu_slab_free ptr p s else slab_free ptr s)
       else if ptr AND (FRAME_SIZE - 1) \<noteq> 0 then s
       else let idx = addr_to_frame ptr in
         if idx \<ge> FRAME_COUNT then s
         else if frames s idx AND FRAME_ALLOC = 0 then s
         else let order = uint (frames s idx AND FRAME_ORDER) in
           if order = 0 then pcpu_page_free ptr s else buddy_free ptr order s)"

definition kcalloc :: "u64 \<Rightarrow> u64 \<Rightarrow> kheap \<Rightarrow> addr \<times> kheap" where
  "kcalloc count size' s =
    (let total = count * size' in
     case kmalloc total s of (p, s) \<Rightarrow>
       if p = 0 then (0, s)
       else
         let alloc_size =
               (if total < 2048 then
                  (case find (\<lambda>c. obj_size (kmalloc_caches s ! c) \<ge> total) [0..<CACHE_COUNT] of
                     Some c \<Rightarrow> unat (obj_size (kmalloc_caches s ! c))
                   | None \<Rightarrow> unat total)
                else 2 ^ order_for (size_to_pages total) 0 * 4096)
         in (p, zero_bytes p alloc_size s))"

end
