(* ===== verification/Paging.thy ===== *)
theory Paging
  imports Slab
begin

text \<open>
  The page-table code of \<^verbatim>\<open>OvsbMk/kernel/memory.c\<close>. A table is a frame of 512 words in the memory store;
  the code reads and writes it through the kernel's identity mapping, so a table's physical address is
  its address in the store. TLB maintenance and memory barriers have no counterpart in the store.
  A C \<^verbatim>\<open>int\<close> result is an integer, \<open>-1\<close> for failure.
\<close>

section \<open>Table entries\<close>

definition pml4_index :: "u64 \<Rightarrow> u64" where "pml4_index va = drop_bit 39 va AND 0x1FF"
definition pdpt_index :: "u64 \<Rightarrow> u64" where "pdpt_index va = drop_bit 30 va AND 0x1FF"
definition pd_index :: "u64 \<Rightarrow> u64" where "pd_index va = drop_bit 21 va AND 0x1FF"
definition pt_index :: "u64 \<Rightarrow> u64" where "pt_index va = drop_bit 12 va AND 0x1FF"

definition entry_at :: "addr \<Rightarrow> u64 \<Rightarrow> addr" where "entry_at tbl i = tbl + 8 * i"
definition rd :: "kheap \<Rightarrow> addr \<Rightarrow> u64 \<Rightarrow> u64" where "rd s tbl i = mem s (entry_at tbl i)"
definition wr :: "addr \<Rightarrow> u64 \<Rightarrow> u64 \<Rightarrow> kheap \<Rightarrow> kheap" where "wr tbl i v s = poke (entry_at tbl i) v s"

abbreviation present :: "u64 \<Rightarrow> bool" where "present e \<equiv> e AND 1 \<noteq> 0"
abbreviation huge :: "u64 \<Rightarrow> bool" where "huge e \<equiv> e AND 0x80 \<noteq> 0"
abbreviation base4k :: "u64 \<Rightarrow> addr" where "base4k e \<equiv> e AND NOT 0xFFF"
abbreviation base2m :: "u64 \<Rightarrow> addr" where "base2m e \<equiv> e AND NOT 0x1FFFFF"

text \<open>A fresh table: a user frame, cleared entry by entry (again) by the caller's loop.\<close>

definition new_table :: "kheap \<Rightarrow> addr \<times> kheap" where
  "new_table s = (case mmap_user 4096 s of (p, s) \<Rightarrow> if p = 0 then (0, s) else (p, zero_bytes p 4096 s))"

definition ensure_pml4_entry :: "addr \<Rightarrow> u64 \<Rightarrow> kheap \<Rightarrow> int \<times> kheap" where
  "ensure_pml4_entry tbl i s =
    (if present (rd s tbl i) then (0, s)
     else case new_table s of (p, s) \<Rightarrow>
       if p = 0 then (-1, s) else (0, wr tbl i (p OR 0x07) s))"

text \<open>The 512 small-page entries that replace a huge entry.\<close>

definition fill_split :: "addr \<Rightarrow> u64 \<Rightarrow> kheap \<Rightarrow> kheap" where
  "fill_split pt pde s =
    fold (\<lambda>i. wr pt (of_nat i) ((base2m pde + of_nat i * 0x1000) OR (pde AND 0x1FF AND NOT 0x80))) [0..<512] s"

section \<open>Operations\<close>

definition page_alloc :: "kheap \<Rightarrow> addr \<times> kheap" where "page_alloc = pcpu_page_alloc"
definition page_free :: "addr \<Rightarrow> kheap \<Rightarrow> kheap" where "page_free = pcpu_page_free"

definition pml4_create :: "kheap \<Rightarrow> addr \<times> kheap" where
  "pml4_create s =
    (case page_alloc s of (p, s) \<Rightarrow>
       if p = 0 then (0, s)
       else (p, fold (\<lambda>i s. wr p (of_nat i) (rd s (cr3 s) (of_nat i)) s) [0..<512] s))"

definition pml4_destroy :: "addr \<Rightarrow> kheap \<Rightarrow> kheap" where "pml4_destroy = page_free"

definition pml4_add_user :: "addr \<Rightarrow> u64 \<Rightarrow> kheap \<Rightarrow> int \<times> kheap" where
  "pml4_add_user pml4 va s =
    (if \<not> present (rd s pml4 (pml4_index va)) then (-1, s)
     else let pdpt = base4k (rd s pml4 (pml4_index va)) in
       if \<not> present (rd s pdpt (pdpt_index va)) then (-1, s)
       else let pd = base4k (rd s pdpt (pdpt_index va)); e = rd s pd (pd_index va) in
         if \<not> present e then (0, wr pd (pd_index va) (base2m va OR 0x87) s)
         else (0, wr pd (pd_index va) (e OR 0x04) s))"

definition split_2mb_pde :: "addr \<Rightarrow> u64 \<Rightarrow> kheap \<Rightarrow> int \<times> kheap" where
  "split_2mb_pde pml4 va s =
    (if \<not> present (rd s pml4 (pml4_index va)) then (-1, s)
     else let pdpt = base4k (rd s pml4 (pml4_index va)) in
       if \<not> present (rd s pdpt (pdpt_index va)) then (-1, s)
       else let pd = base4k (rd s pdpt (pdpt_index va)); pde = rd s pd (pd_index va) in
         if \<not> present pde then (-1, s)
         else if \<not> huge pde then (0, s)
         else case mmap_user 4096 s of (pt, s) \<Rightarrow>
           if pt = 0 then (-1, s)
           else (0, wr pd (pd_index va) (pt OR 0x07) (fill_split pt pde s)))"

definition pml4_add_user_4kb :: "addr \<Rightarrow> u64 \<Rightarrow> kheap \<Rightarrow> int \<times> kheap" where
  "pml4_add_user_4kb pml4 va s =
    (case split_2mb_pde pml4 (base2m va) s of (r, s) \<Rightarrow>
       if r < 0 then (-1, s)
       else let pdpt = base4k (rd s pml4 (pml4_index va));
                pd = base4k (rd s pdpt (pdpt_index va));
                pt = base4k (rd s pd (pd_index va))
            in (0, wr pt (pt_index va) (rd s pt (pt_index va) OR 0x04) s))"

definition map_user_4kb :: "addr \<Rightarrow> u64 \<Rightarrow> kheap \<Rightarrow> int \<times> kheap" where
  "map_user_4kb pml4 va s =
    (case ensure_pml4_entry pml4 (pml4_index va) s of (r, s) \<Rightarrow>
     if r < 0 then (-1, s)
     else let pdpt = base4k (rd s pml4 (pml4_index va)) in
     case ensure_pml4_entry pdpt (pdpt_index va) s of (r, s) \<Rightarrow>
     if r < 0 then (-1, s)
     else let pd = base4k (rd s pdpt (pdpt_index va)) in
     if huge (rd s pd (pd_index va)) then (0, s)
     else case ensure_pml4_entry pd (pd_index va) s of (r, s) \<Rightarrow>
     if r < 0 then (-1, s)
     else let pt = base4k (rd s pd (pd_index va)) in
     if present (rd s pt (pt_index va)) then (0, s)
     else case mmap_user 4096 s of (frame, s) \<Rightarrow>
       if frame = 0 then (-1, s)
       else (0, wr pt (pt_index va) (frame OR 0x07) s))"

text \<open>One 2 MB step of \<^verbatim>\<open>pml4_map_phys\<close>; the loop advances by \<open>0x200000\<close> while the offset is below the
  size, so it runs once for every started 2 MB.\<close>

definition map_phys_step :: "addr \<Rightarrow> u64 \<Rightarrow> u64 \<Rightarrow> u64 \<Rightarrow> kheap \<Rightarrow> int \<times> kheap" where
  "map_phys_step pml4 va pa entry_flags s =
    (case ensure_pml4_entry pml4 (pml4_index va) s of (r, s) \<Rightarrow>
     if r < 0 then (-1, s)
     else let pdpt = base4k (rd s pml4 (pml4_index va)) in
     case ensure_pml4_entry pdpt (pdpt_index va) s of (r, s) \<Rightarrow>
     if r < 0 then (-1, s)
     else let pd = base4k (rd s pdpt (pdpt_index va)) in
       (0, wr pd (pd_index va) (pa OR entry_flags) s))"

fun map_phys_from :: "addr list \<Rightarrow> addr \<Rightarrow> u64 \<Rightarrow> u64 \<Rightarrow> u64 \<Rightarrow> kheap \<Rightarrow> int \<times> kheap" where
  "map_phys_from [] pml4 va pa fl s = (0, s)"
| "map_phys_from (off # offs) pml4 va pa fl s =
    (case map_phys_step pml4 (va + off) (pa + off) fl s of (r, s) \<Rightarrow>
       if r < 0 then (-1, s) else map_phys_from offs pml4 va pa fl s)"

definition pml4_map_phys :: "addr \<Rightarrow> u64 \<Rightarrow> u64 \<Rightarrow> u64 \<Rightarrow> bool \<Rightarrow> kheap \<Rightarrow> int \<times> kheap" where
  "pml4_map_phys pml4 va pa sz writable s =
    (let fl = 0x81 OR 0x04 OR (if writable then 0x02 else 0);
         offs = map (\<lambda>k. 0x200000 * of_nat k) [0..<(unat sz + 0x1FFFFF) div 0x200000]
     in case map_phys_from offs pml4 va pa fl s of (r, s) \<Rightarrow>
          if r < 0 then (-1, s) else (0, s\<lparr>cr3 := pml4\<rparr>))"

definition map_one_page :: "u64 \<Rightarrow> u64 \<Rightarrow> addr \<Rightarrow> kheap \<Rightarrow> int \<times> kheap" where
  "map_one_page va pa pml4 s =
    (case ensure_pml4_entry pml4 (pml4_index va) s of (r, s) \<Rightarrow>
     if r < 0 then (-1, s)
     else let pdpt = base4k (rd s pml4 (pml4_index va)) in
     case ensure_pml4_entry pdpt (pdpt_index va) s of (r, s) \<Rightarrow>
     if r < 0 then (-1, s)
     else let pd = base4k (rd s pdpt (pdpt_index va)); pde = rd s pd (pd_index va) in
     case (if \<not> present pde then ensure_pml4_entry pd (pd_index va) s
           else if huge pde then
             case mmap_user 4096 s of (pt, s) \<Rightarrow>
               if pt = 0 then (-1, s) else (0, wr pd (pd_index va) (pt OR 0x07) (fill_split pt pde s))
           else (0, s)) of (r, s) \<Rightarrow>
     if r < 0 then (-1, s)
     else let pt = base4k (rd s pd (pd_index va)) in
       (0, wr pt (pt_index va) (pa OR 0x67) s))"

abbreviation USER_VA_END :: u64 where "USER_VA_END \<equiv> 0x7F000000"

fun map_pages :: "(u64 \<times> u64) list \<Rightarrow> addr \<Rightarrow> kheap \<Rightarrow> int \<times> kheap" where
  "map_pages [] pml4 s = (0, s)"
| "map_pages ((va, pa) # ps) pml4 s =
    (case map_one_page va pa pml4 s of (r, s) \<Rightarrow> if r < 0 then (-1, s) else map_pages ps pml4 s)"

fun free_all :: "(addr \<times> int) list \<Rightarrow> kheap \<Rightarrow> kheap" where
  "free_all [] s = s"
| "free_all ((a, k) # bs) s = free_all bs (buddy_free a k s)"

text \<open>The four guard frames are allocated one after the other; a failure releases what was obtained.\<close>

fun alloc_guards :: "nat \<Rightarrow> (addr \<times> int) list \<Rightarrow> kheap \<Rightarrow> (addr \<times> int) list option \<times> kheap" where
  "alloc_guards 0 held s = (Some held, s)"
| "alloc_guards (Suc n) held s =
    (case buddy_alloc 0 True s of (g, s) \<Rightarrow>
       if g = 0 then (None, free_all held s) else alloc_guards n (held @ [(g, 0)]) s)"

definition mmap_user_high :: "u64 \<Rightarrow> kheap \<Rightarrow> addr \<times> kheap" where
  "mmap_user_high len s =
    (let pages = size_to_pages len;
         pages = (if pages < 64 then 64 else pages);
         order = order_for pages 0;
         n_total = 2 ^ order
     in case buddy_alloc (int order) True s of (phys, s) \<Rightarrow>
        if phys = 0 then (0, s)
        else case alloc_guards 4 [(phys, int order)] s of
          (None, s) \<Rightarrow> (0, s)
        | (Some held, s) \<Rightarrow>
            let va = user_va_next s;
                total_size = of_nat (n_total + 4) * FRAME_SIZE
            in if va + total_size > USER_VA_END then (0, free_all held s)
               else
                 let body = map (\<lambda>i. (va + of_nat i * FRAME_SIZE, phys + of_nat i * FRAME_SIZE)) [0..<n_total];
                     guards = map (\<lambda>i. (va + of_nat (n_total + i) * FRAME_SIZE, fst (held ! Suc i))) [0..<4]
                 in case map_pages (body @ guards) (cr3 s) s of (r, s) \<Rightarrow>
                      if r < 0 then (0, free_all held s)
                      else (va, s\<lparr>user_va_next := va + total_size\<rparr>))"

end
