(* ===== verification/KState.thy ===== *)
theory KState
  imports Paging
begin

text \<open>
  The state of the kernel above the physical memory: address-space maps and their objects
  (\<^verbatim>\<open>vm_map.h\<close>), the process table (\<^verbatim>\<open>process.h\<close>), the descriptor tables, pipes and sockets
  (\<^verbatim>\<open>syscall.c\<close>). Structures the code reaches by pointer are kept in maps from their addresses: objects
  in \<open>vobjs\<close>, address-space maps in \<open>vmaps\<close>. The doubly linked list of a map's entries is the list of its
  entries in order, each with the address of its \<^verbatim>\<open>kmalloc\<close>ed node. A process is identified by its slot in
  \<^verbatim>\<open>pcb_table\<close>, a descriptor table by the slot of the pool \<^verbatim>\<open>fd_tables\<close> it occupies (\<open>MAX_PROC\<close> is the
  table \<^verbatim>\<open>boot_fds\<close>). \<open>cpu_slot\<close> is the process whose context the CPU runs, \<open>cpu_rsp\<close> the stack pointer a
  context switch saves, \<open>fs_msr\<close> the FS base register.
\<close>

section \<open>Address spaces\<close>

record vm_object =
  refcnt :: int
  obj_bytes :: u64
  pages_arr :: addr
  page_count :: int

record vm_map_entry =
  e_node :: addr
  e_start :: u64
  e_end :: u64
  e_object :: addr
  e_offset :: u64
  e_prot :: u32
  e_flags :: u32

record vm_map =
  entries :: "vm_map_entry list"
  nentries :: int
  min_offset :: u64
  max_offset :: u64

section \<open>Processes\<close>

abbreviation MAX_PROC :: nat where "MAX_PROC \<equiv> 64"
abbreviation STACK_SIZE :: u64 where "STACK_SIZE \<equiv> 8192"
abbreviation PROC_NAME_MAX :: nat where "PROC_NAME_MAX \<equiv> 32"

datatype proc_state = PROC_EMPTY | PROC_READY | PROC_RUNNING | PROC_BLOCKED | PROC_ZOMBIE

record pcb =
  pid :: int
  state :: proc_state
  pname :: string
  is_user_proc :: bool
  kernel_rsp :: u64
  rsp0 :: u64
  pml4 :: addr
  user_rsp :: u64
  user_rip :: u64
  parent_pid :: int
  exit_code :: int
  program_break :: u64
  heap_start :: u64
  vm_map_ptr :: addr
  vmspace_ptr :: addr
  fs_base :: u64
  cwd :: string
  fds_tab :: "nat option"
  in_kern :: bool
  th_parent_pid :: int
  clear_tid :: addr

section \<open>Descriptors, pipes and sockets\<close>

abbreviation MAX_FDS :: nat where "MAX_FDS \<equiv> 16"
abbreviation MAX_PIPES :: nat where "MAX_PIPES \<equiv> 8"
abbreviation MAX_SOCKS :: nat where "MAX_SOCKS \<equiv> 16"
abbreviation SOCK_QUEUE :: nat where "SOCK_QUEUE \<equiv> 8"
abbreviation O_NONBLOCK :: u32 where "O_NONBLOCK \<equiv> 0x800"
abbreviation O_CLOEXEC :: u32 where "O_CLOEXEC \<equiv> 0x80000"

datatype fd_type = FD_FILE | FD_EVENT | FD_TIMER | FD_PIPE | FD_SOCK | FD_FB | FD_TTY | FD_MICE

record fdent =
  f_used :: bool
  f_type :: fd_type
  f_flags :: u32
  f_pipe :: int
  f_sock :: int
  f_name :: string
  f_pos :: u32
  f_wend :: bool
  f_counter :: u64

type_synonym fdtable = "nat \<Rightarrow> fdent"

text \<open>The ring buffer shared by pipes and sockets: 4096 bytes, free-running 32-bit positions.\<close>

record ring =
  rbuf :: "nat \<Rightarrow> u8"
  rpos :: u32
  wpos :: u32

record pipe =
  p_used :: bool
  p_ring :: ring

record sock =
  s_used :: bool
  s_path :: string
  s_listening :: bool
  s_peer :: int
  s_nonblock :: bool
  s_pending :: "int list"
  s_ring :: ring

record kernel =
  heap :: kheap
  vobjs :: "addr \<Rightarrow> vm_object"
  vmaps :: "addr \<Rightarrow> vm_map"
  pcb_table :: "nat \<Rightarrow> pcb"
  current_pid :: int
  pcb_count :: nat
  next_pid :: int
  tss_rsp0 :: u64
  cpu_slot :: nat
  cpu_rsp :: u64
  fs_msr :: u64
  g_in_syscall :: bool
  fd_tables :: "nat \<Rightarrow> fdtable"
  fdtab :: nat
  pipes :: "nat \<Rightarrow> pipe"
  socks :: "nat \<Rightarrow> sock"

definition set_heap :: "kheap \<Rightarrow> kernel \<Rightarrow> kernel" where
  "set_heap h k = k\<lparr>heap := h\<rparr>"

definition set_pcb :: "nat \<Rightarrow> pcb \<Rightarrow> kernel \<Rightarrow> kernel" where
  "set_pcb i p k = k\<lparr>pcb_table := (pcb_table k)(i := p)\<rparr>"

definition set_vmap :: "addr \<Rightarrow> vm_map \<Rightarrow> kernel \<Rightarrow> kernel" where
  "set_vmap a m k = k\<lparr>vmaps := (vmaps k)(a := m)\<rparr>"

definition set_vobj :: "addr \<Rightarrow> vm_object \<Rightarrow> kernel \<Rightarrow> kernel" where
  "set_vobj a m k = k\<lparr>vobjs := (vobjs k)(a := m)\<rparr>"

text \<open>Running an operation of the memory layer on the kernel's heap.\<close>

definition on_heap :: "(kheap \<Rightarrow> 'a \<times> kheap) \<Rightarrow> kernel \<Rightarrow> 'a \<times> kernel" where
  "on_heap f k = (case f (heap k) of (r, h) \<Rightarrow> (r, set_heap h k))"

definition upd_heap :: "(kheap \<Rightarrow> kheap) \<Rightarrow> kernel \<Rightarrow> kernel" where
  "upd_heap f k = set_heap (f (heap k)) k"

text \<open>\<^verbatim>\<open>process_current\<close>: the first non-empty slot whose pid is \<^verbatim>\<open>current_pid\<close>.\<close>

definition process_current :: "kernel \<Rightarrow> nat option" where
  "process_current k =
    find (\<lambda>i. state (pcb_table k i) \<noteq> PROC_EMPTY \<and> pid (pcb_table k i) = current_pid k) [0..<MAX_PROC]"

end
