(* ===== verification/VmMap.thy ===== *)
theory VmMap
  imports KState
begin

text \<open>
  The address-space maps of \<^verbatim>\<open>OvsbMk/kernel/vm_map.c\<close>: anonymous objects with lazily allocated frames,
  the sorted list of map entries, and the system calls \<^verbatim>\<open>vm_mmap\<close>, \<^verbatim>\<open>vm_munmap\<close> and \<^verbatim>\<open>vm_mprotect\<close> of the
  current process. A loop over addresses in steps of a page or of 2 MB runs over the list of these
  addresses when its end is a multiple of the step, so that the address cannot wrap around before the
  end; \<^verbatim>\<open>pml4_walk_ptes\<close> has no such end and is a partial function, \<open>None\<close> being the call that does not
  return. Its callback is a function on the entry it rewrites. The frames of an object are in the array
  of words at \<open>pages_arr\<close>, which is read and written through the memory, also behind its end.
\<close>

abbreviation MAP_ANON :: u32 where "MAP_ANON \<equiv> 0x1000"
abbreviation MAP_FIXED :: u32 where "MAP_FIXED \<equiv> 0x10"

abbreviation round_page :: "u64 \<Rightarrow> u64" where "round_page x \<equiv> (x + 0xFFF) AND NOT 0xFFF"

definition steps :: "u64 \<Rightarrow> u64 \<Rightarrow> u64 \<Rightarrow> u64 list" where
  "steps a b d = map (\<lambda>n. a + of_nat n * d) [0..<(unat b + unat d - 1 - unat a) div unat d]"

section \<open>Objects\<close>

definition vm_alloc_page :: "kernel \<Rightarrow> addr \<times> kernel" where
  "vm_alloc_page k = on_heap (mmap_user 4096) k"

definition vm_free_page :: "addr \<Rightarrow> kernel \<Rightarrow> kernel" where
  "vm_free_page pa k = snd (on_heap (munmap_user pa) k)"

definition entry_alloc :: "kernel \<Rightarrow> addr \<times> kernel" where
  "entry_alloc k = on_heap (kmalloc 56) k"

definition entry_free :: "addr \<Rightarrow> kernel \<Rightarrow> kernel" where
  "entry_free a k = upd_heap (kfree a) k"

definition vm_object_create :: "u64 \<Rightarrow> kernel \<Rightarrow> addr \<times> kernel" where
  "vm_object_create sz k =
    (case on_heap (kmalloc 32) k of (obj, k) \<Rightarrow>
       if obj = 0 then (0, k)
       else
         let npages = sint (ucast (drop_bit 12 (sz + 0xFFF)) :: u32);
             npages = (if npages = 0 then 1 else npages)
         in case on_heap (kcalloc (of_int npages) 8) k of (arr, k) \<Rightarrow>
              let k = set_vobj obj \<lparr>refcnt = 1, obj_bytes = push_bit 12 (of_int npages), pages_arr = arr,
                                    page_count = npages\<rparr> k
              in if arr = 0 then (0, upd_heap (kfree obj) k)
                 else (obj, upd_heap (fold (\<lambda>i. wr arr (of_nat i) 0) [0..<nat npages]) k))"

text \<open>The word of the array \<^verbatim>\<open>pages\<close> at an index\<close>

definition obj_page :: "addr \<Rightarrow> u64 \<Rightarrow> kernel \<Rightarrow> addr" where
  "obj_page obj i k = rd (heap k) (pages_arr (vobjs k obj)) i"

definition set_obj_page :: "addr \<Rightarrow> u64 \<Rightarrow> addr \<Rightarrow> kernel \<Rightarrow> kernel" where
  "set_obj_page obj i pa k = upd_heap (wr (pages_arr (vobjs k obj)) i pa) k"

definition vm_object_share :: "addr \<Rightarrow> kernel \<Rightarrow> kernel" where
  "vm_object_share obj k =
    (if obj = 0 then k else set_vobj obj ((vobjs k obj)\<lparr>refcnt := refcnt (vobjs k obj) + 1\<rparr>) k)"

definition vm_object_destroy :: "addr \<Rightarrow> kernel \<Rightarrow> kernel" where
  "vm_object_destroy obj k =
    (if obj = 0 then k
     else
       let r = refcnt (vobjs k obj) - 1;
           k = set_vobj obj ((vobjs k obj)\<lparr>refcnt := r\<rparr>) k
       in if r > 0 then k
          else
            let k = fold (\<lambda>i k. let pa = obj_page obj (of_nat i) k in if pa \<noteq> 0 then vm_free_page pa k else k)
                      [0..<nat (page_count (vobjs k obj))] k;
                k = upd_heap (kfree (pages_arr (vobjs k obj))) k
            in upd_heap (kfree obj) k)"

definition obj_get_page :: "addr \<Rightarrow> u64 \<Rightarrow> kernel \<Rightarrow> addr \<times> kernel" where
  "obj_get_page obj idx k =
    (if idx \<ge> of_int (page_count (vobjs k obj)) then (0, k)
     else if obj_page obj idx k = 0 then
       (case vm_alloc_page k of (pa, k) \<Rightarrow>
          if pa = 0 then (0, k)
          else let k = set_obj_page obj idx pa k in (obj_page obj idx k, k))
     else (obj_page obj idx k, k))"

section \<open>Maps\<close>

definition vm_map_init :: "addr \<Rightarrow> u64 \<Rightarrow> u64 \<Rightarrow> kernel \<Rightarrow> kernel" where
  "vm_map_init m mn mx k =
    set_vmap m \<lparr>entries = [], nentries = 0, min_offset = mn, max_offset = mx\<rparr> k"

definition entry_covers :: "vm_map_entry \<Rightarrow> u64 \<Rightarrow> u64 \<Rightarrow> bool" where
  "entry_covers e st en \<longleftrightarrow> e_start e \<le> st \<and> e_end e \<ge> en"

definition vm_map_find_entry :: "vm_map \<Rightarrow> u64 \<Rightarrow> vm_map_entry option" where
  "vm_map_find_entry m a = find (\<lambda>e. a \<ge> e_start e \<and> a < e_end e) (entries m)"

definition overlap :: "vm_map \<Rightarrow> u64 \<Rightarrow> u64 \<Rightarrow> bool" where
  "overlap m st en \<longleftrightarrow> list_ex (\<lambda>e. e_start e < en \<and> e_end e > st) (entries m)"

definition vm_map_fixed ::
    "addr \<Rightarrow> addr \<Rightarrow> u64 \<Rightarrow> u64 \<Rightarrow> u64 \<Rightarrow> u32 \<Rightarrow> u32 \<Rightarrow> kernel \<Rightarrow> int \<times> kernel" where
  "vm_map_fixed m obj offset a sz prot flags k =
    (let sz = round_page sz in
     if sz = 0 \<or> a AND 0xFFF \<noteq> 0 then (-1, k)
     else if overlap (vmaps k m) a (a + sz) then (-1, k)
     else case entry_alloc k of (node, k) \<Rightarrow>
       if node = 0 then (-1, k)
       else
         let k = vm_object_share obj k;
             e = \<lparr>e_node = node, e_start = a, e_end = a + sz, e_object = obj, e_offset = offset,
                  e_prot = prot, e_flags = flags\<rparr>;
             es = entries (vmaps k m);
             es = takeWhile (\<lambda>x. e_start x < a) es @ [e] @ dropWhile (\<lambda>x. e_start x < a) es
         in (0, set_vmap m ((vmaps k m)\<lparr>entries := es, nentries := nentries (vmaps k m) + 1\<rparr>) k))"

fun find_candidate :: "nat \<Rightarrow> vm_map \<Rightarrow> u64 \<Rightarrow> u64 \<Rightarrow> u64 option" where
  "find_candidate 0 m cand sz = None"
| "find_candidate (Suc tries) m cand sz =
    (if cand + sz \<le> max_offset m then
       if \<not> overlap m cand (cand + sz) then Some cand
       else find_candidate tries m (cand + 0x100000) sz
     else None)"

definition vm_map_find ::
    "addr \<Rightarrow> addr \<Rightarrow> u64 \<Rightarrow> u64 \<Rightarrow> u64 \<Rightarrow> u32 \<Rightarrow> u32 \<Rightarrow> kernel \<Rightarrow> int \<times> u64 \<times> kernel" where
  "vm_map_find m obj offset hint sz prot flags k =
    (let sz = round_page sz in
     if sz = 0 then (-1, hint, k)
     else
       let cand = (if hint \<noteq> 0 then hint else 0x70000000);
           cand = (if cand < min_offset (vmaps k m) then min_offset (vmaps k m) else cand);
           cand = round_page cand
       in case find_candidate 100 (vmaps k m) cand sz of
            None \<Rightarrow> (-1, hint, k)
          | Some a \<Rightarrow> (case vm_map_fixed m obj offset a sz prot flags k of (r, k) \<Rightarrow> (r, a, k)))"

fun remove_entries :: "u64 \<Rightarrow> u64 \<Rightarrow> vm_map_entry list \<Rightarrow> kernel \<Rightarrow> vm_map_entry list \<times> kernel" where
  "remove_entries st en [] k = ([], k)"
| "remove_entries st en (e # es) k =
    (if e_start e \<ge> st \<and> e_end e \<le> en then
       let k = (if e_object e \<noteq> 0 then vm_object_destroy (e_object e) k else k)
       in remove_entries st en es (entry_free (e_node e) k)
     else case remove_entries st en es k of (es, k) \<Rightarrow> (e # es, k))"

definition vm_map_remove :: "addr \<Rightarrow> u64 \<Rightarrow> u64 \<Rightarrow> kernel \<Rightarrow> int \<times> kernel" where
  "vm_map_remove m st en k =
    (case remove_entries st en (entries (vmaps k m)) k of (es, k') \<Rightarrow>
       (0, set_vmap m ((vmaps k' m)\<lparr>entries := es,
              nentries := nentries (vmaps k m) - int (length (entries (vmaps k m)) - length es)\<rparr>) k'))"

definition vm_map_protect :: "addr \<Rightarrow> u64 \<Rightarrow> u64 \<Rightarrow> u32 \<Rightarrow> kernel \<Rightarrow> int \<times> kernel" where
  "vm_map_protect m st en prot k =
    (0, set_vmap m ((vmaps k m)\<lparr>entries :=
          map (\<lambda>e. if e_start e < en \<and> e_end e > st then e\<lparr>e_prot := prot\<rparr> else e) (entries (vmaps k m))\<rparr>) k)"

definition vm_map_covers :: "addr \<Rightarrow> u64 \<Rightarrow> kernel \<Rightarrow> bool" where
  "vm_map_covers m va k \<longleftrightarrow>
    m \<noteq> 0 \<and> list_ex (\<lambda>e. va \<ge> e_start e \<and> va < e_end e) (entries (vmaps k m))"

definition vm_map_count_entries :: "addr \<Rightarrow> kernel \<Rightarrow> int" where
  "vm_map_count_entries m k = (if m = 0 then -1 else int (length (entries (vmaps k m))))"

section \<open>Wiring\<close>

text \<open>The frame behind page address \<open>va\<close> of an entry, allocated on demand.\<close>

definition entry_page :: "vm_map_entry \<Rightarrow> addr \<Rightarrow> u64 \<Rightarrow> kernel \<Rightarrow> addr \<times> kernel" where
  "entry_page e obj va k = obj_get_page obj (drop_bit 12 (va - e_start e + e_offset e)) k"

fun wire_split :: "nat list \<Rightarrow> vm_map_entry \<Rightarrow> addr \<Rightarrow> u64 \<Rightarrow> u64 \<Rightarrow> u64 \<Rightarrow> addr \<Rightarrow> u64 \<Rightarrow> kernel \<Rightarrow> int \<times> kernel" where
  "wire_split [] e obj ws we chunk pt old k = (0, k)"
| "wire_split (i # is) e obj ws we chunk pt old k =
    (let va = chunk + of_nat i * 0x1000 in
     if va \<ge> ws \<and> va < we then
       case entry_page e obj va k of (pa, k) \<Rightarrow>
         if pa = 0 then (-1, k)
         else wire_split is e obj ws we chunk pt old (upd_heap (wr pt (of_nat i) (pa OR 0x07)) k)
     else wire_split is e obj ws we chunk pt old
            (upd_heap (wr pt (of_nat i) ((base2m old + of_nat i * 0x1000) OR (old AND 0x1FF AND NOT 0x80))) k))"

fun wire_small :: "nat list \<Rightarrow> vm_map_entry \<Rightarrow> addr \<Rightarrow> u64 \<Rightarrow> u64 \<Rightarrow> u64 \<Rightarrow> addr \<Rightarrow> kernel \<Rightarrow> int \<times> kernel" where
  "wire_small [] e obj ws we chunk pt k = (0, k)"
| "wire_small (i # is) e obj ws we chunk pt k =
    (let va = chunk + of_nat i * 0x1000 in
     if va \<ge> ws \<and> va < we \<and> \<not> present (rd (heap k) pt (of_nat i)) then
       case entry_page e obj va k of (pa, k) \<Rightarrow>
         if pa = 0 then (-1, k)
         else wire_small is e obj ws we chunk pt (upd_heap (wr pt (of_nat i) (pa OR 0x07)) k)
     else wire_small is e obj ws we chunk pt k)"

definition wire_chunk :: "vm_map_entry \<Rightarrow> addr \<Rightarrow> u64 \<Rightarrow> u64 \<Rightarrow> addr \<Rightarrow> u64 \<Rightarrow> kernel \<Rightarrow> int \<times> kernel" where
  "wire_chunk e obj ws we p4 chunk k =
    (case on_heap (ensure_pml4_entry p4 (pml4_index chunk)) k of (r, k) \<Rightarrow>
     if r < 0 then (-1, k)
     else let pdpt = base4k (rd (heap k) p4 (pml4_index chunk)) in
     case on_heap (ensure_pml4_entry pdpt (pdpt_index chunk)) k of (r, k) \<Rightarrow>
     if r < 0 then (-1, k)
     else
       let pd = base4k (rd (heap k) pdpt (pdpt_index chunk)); old = rd (heap k) pd (pd_index chunk) in
       if present old \<and> huge old then
         case on_heap (mmap_user 4096) k of (pt, k) \<Rightarrow>
           if pt = 0 then (-1, k)
           else case wire_split [0..<512] e obj ws we chunk pt old k of (r, k) \<Rightarrow>
             if r < 0 then (-1, k) else (0, upd_heap (wr pd (pd_index chunk) (pt OR 0x07)) k)
       else
         case on_heap (ensure_pml4_entry pd (pd_index chunk)) k of (r, k) \<Rightarrow>
           if r < 0 then (-1, k)
           else wire_small [0..<512] e obj ws we chunk (base4k (rd (heap k) pd (pd_index chunk))) k)"

fun wire_chunks :: "u64 list \<Rightarrow> vm_map_entry \<Rightarrow> addr \<Rightarrow> u64 \<Rightarrow> u64 \<Rightarrow> addr \<Rightarrow> kernel \<Rightarrow> int \<times> kernel" where
  "wire_chunks [] e obj ws we p4 k = (0, k)"
| "wire_chunks (c # cs) e obj ws we p4 k =
    (case wire_chunk e obj ws we p4 c k of (r, k) \<Rightarrow>
       if r < 0 then (-1, k) else wire_chunks cs e obj ws we p4 k)"

definition set_entry_object :: "addr \<Rightarrow> nat \<Rightarrow> addr \<Rightarrow> kernel \<Rightarrow> kernel" where
  "set_entry_object m i obj k =
    (let es = entries (vmaps k m)
     in set_vmap m ((vmaps k m)\<lparr>entries := es[i := (es ! i)\<lparr>e_object := obj\<rparr>]\<rparr>) k)"

definition wire_entry :: "addr \<Rightarrow> u64 \<Rightarrow> u64 \<Rightarrow> addr \<Rightarrow> nat \<Rightarrow> kernel \<Rightarrow> int \<times> kernel" where
  "wire_entry m st en p4 i k =
    (let e = entries (vmaps k m) ! i in
     if e_start e < en \<and> e_end e > st then
       let ws = (if e_start e > st then e_start e else st);
           we = (if e_end e < en then e_end e else en)
       in case (if e_object e = 0 \<and> e_flags e AND MAP_ANON \<noteq> 0 then
                  case vm_object_create (e_end e - e_start e) k of (obj, k) \<Rightarrow>
                    if obj = 0 then (None, k) else (Some obj, set_entry_object m i obj k)
                else (Some (e_object e), k)) of
            (None, k) \<Rightarrow> (-1, k)
          | (Some obj, k) \<Rightarrow>
              if obj = 0 then (0, k)
              else wire_chunks (steps (base2m ws) (base2m (we + 0x1FFFFF)) 0x200000) e obj ws we p4 k
     else (0, k))"

fun wire_entries :: "nat list \<Rightarrow> addr \<Rightarrow> u64 \<Rightarrow> u64 \<Rightarrow> addr \<Rightarrow> kernel \<Rightarrow> int \<times> kernel" where
  "wire_entries [] m st en p4 k = (0, k)"
| "wire_entries (i # is) m st en p4 k =
    (case wire_entry m st en p4 i k of (r, k) \<Rightarrow>
       if r < 0 then (-1, k) else wire_entries is m st en p4 k)"

definition vm_map_wire :: "addr \<Rightarrow> u64 \<Rightarrow> u64 \<Rightarrow> addr \<Rightarrow> kernel \<Rightarrow> int \<times> kernel" where
  "vm_map_wire m st sz p4 k =
    (case wire_entries [0..<length (entries (vmaps k m))] m st (st + sz) p4 k of (r, k) \<Rightarrow>
       if r < 0 then (-1, k) else (0, upd_heap (\<lambda>h. h\<lparr>cr3 := p4\<rparr>) k))"

section \<open>Page-table walks\<close>

definition pte_set_prot :: "u32 \<Rightarrow> u64 \<Rightarrow> u64" where
  "pte_set_prot prot f =
    (let f = (if prot AND 2 \<noteq> 0 then f OR 0x02 else f AND NOT 0x02);
         f = f OR 0x04;
         f = (if prot AND 1 = 0 then f AND NOT 0x02 else f)
     in if prot AND 4 = 0 then f OR 0x8000000000000000 else f AND NOT 0x8000000000000000)"

definition pte_clear :: "u64 \<Rightarrow> u64" where
  "pte_clear f = 0"

definition walk_pt :: "(u64 \<Rightarrow> u64) \<Rightarrow> addr \<Rightarrow> u64 \<Rightarrow> u64 \<Rightarrow> u64 \<Rightarrow> kheap \<Rightarrow> kheap" where
  "walk_pt fn pt chunk st en s =
    fold (\<lambda>i s. let va = chunk + of_nat i * 0x1000; e = rd s pt (of_nat i) in
                if va \<ge> st \<and> va < en \<and> present e then wr pt (of_nat i) (fn e) s else s) [0..<512] s"

definition walk_chunk :: "(u64 \<Rightarrow> u64) \<Rightarrow> addr \<Rightarrow> u64 \<Rightarrow> u64 \<Rightarrow> u64 \<Rightarrow> kheap \<Rightarrow> int \<times> kheap" where
  "walk_chunk fn p4 st en c s =
    (if \<not> present (rd s p4 (pml4_index c)) then (0, s)
     else let pdpt = base4k (rd s p4 (pml4_index c)) in
     if \<not> present (rd s pdpt (pdpt_index c)) then (0, s)
     else let pd = base4k (rd s pdpt (pdpt_index c)); pde = rd s pd (pd_index c) in
     if \<not> present pde then (0, s)
     else case (if huge pde then split_2mb_pde p4 c s else (0, s)) of (r, s) \<Rightarrow>
       if r < 0 then (-1, s)
       else let pd = base4k (rd s pdpt (pdpt_index c)); pt = base4k (rd s pd (pd_index c))
            in (0, walk_pt fn pt c st en s))"

text \<open>The loop ends when the address of the next 2 MB is not below \<open>en\<close>. For an end in the last 2 MB the
  address wraps around to 0 instead, and the loop only ends when a page cannot be split.\<close>

partial_function (option) walk_chunks ::
    "(u64 \<Rightarrow> u64) \<Rightarrow> addr \<Rightarrow> u64 \<Rightarrow> u64 \<Rightarrow> u64 \<Rightarrow> kheap \<Rightarrow> (int \<times> kheap) option" where
  "walk_chunks fn p4 st en c s =
    (if c < en then
       case walk_chunk fn p4 st en c s of (r, s) \<Rightarrow>
         if r < 0 then Some (-1, s) else walk_chunks fn p4 st en (c + 0x200000) s
     else Some (0, s))"

definition pml4_walk_ptes :: "(u64 \<Rightarrow> u64) \<Rightarrow> addr \<Rightarrow> u64 \<Rightarrow> u64 \<Rightarrow> kheap \<Rightarrow> (int \<times> kheap) option" where
  "pml4_walk_ptes fn p4 st en s = walk_chunks fn p4 st en (base2m st) s"

text \<open>A walk of the calling process, whose result is not looked at\<close>

definition walk_current :: "(u64 \<Rightarrow> u64) \<Rightarrow> addr \<Rightarrow> u64 \<Rightarrow> u64 \<Rightarrow> kernel \<Rightarrow> kernel option" where
  "walk_current fn p4 st en k = map_option (\<lambda>(_, h). set_heap h k) (pml4_walk_ptes fn p4 st en (heap k))"

section \<open>The calls of the current process\<close>

definition free_obj_page :: "addr \<Rightarrow> u64 \<Rightarrow> kernel \<Rightarrow> kernel" where
  "free_obj_page obj pg k =
    (if pg < of_int (page_count (vobjs k obj)) \<and> obj_page obj pg k \<noteq> 0
     then set_obj_page obj pg 0 (vm_free_page (obj_page obj pg k) k)
     else k)"

definition munmap_entry :: "addr \<Rightarrow> u64 \<Rightarrow> u64 \<Rightarrow> nat \<Rightarrow> kernel \<Rightarrow> kernel" where
  "munmap_entry m a en i k =
    (let e = entries (vmaps k m) ! i in
     if e_start e < en \<and> e_end e > a \<and> e_object e \<noteq> 0 then
       let ws = (if e_start e > a then e_start e else a);
           we = (if e_end e < en then e_end e else en);
           k = fold (\<lambda>va. free_obj_page (e_object e) (drop_bit 12 (va - e_start e)))
                 (steps (base4k ws) we 0x1000) k
       in set_entry_object m i 0 (vm_object_destroy (e_object e) k)
     else k)"

definition vm_munmap :: "u64 \<Rightarrow> u64 \<Rightarrow> kernel \<Rightarrow> (int \<times> kernel) option" where
  "vm_munmap a sz k =
    (case process_current k of
       None \<Rightarrow> Some (-1, k)
     | Some cur \<Rightarrow>
         let m = vm_map_ptr (pcb_table k cur) in
         if m = 0 then Some (-1, k)
         else let sz = round_page sz in
           if sz = 0 then Some (0, k)
           else let en = a + sz;
                    k = fold (munmap_entry m a en) [0..<length (entries (vmaps k m))] k
                in map_option (\<lambda>k. (0, snd (vm_map_remove m a en k)))
                     (walk_current pte_clear (pml4 (pcb_table k cur)) a en k))"

definition vm_mprotect :: "u64 \<Rightarrow> u64 \<Rightarrow> u32 \<Rightarrow> kernel \<Rightarrow> (int \<times> kernel) option" where
  "vm_mprotect a sz prot k =
    (case process_current k of
       None \<Rightarrow> Some (-1, k)
     | Some cur \<Rightarrow>
         let m = vm_map_ptr (pcb_table k cur) in
         if m = 0 then Some (-1, k)
         else let sz = round_page sz in
           if sz = 0 then Some (0, k)
           else let en = a + sz in
             case vm_map_protect m a en prot k of (r, k) \<Rightarrow>
               if r < 0 then Some (-1, k)
               else map_option (Pair 0) (walk_current (pte_set_prot prot) (pml4 (pcb_table k cur)) a en k))"

definition vm_mmap :: "u64 \<Rightarrow> u64 \<Rightarrow> u32 \<Rightarrow> u32 \<Rightarrow> kernel \<Rightarrow> int \<times> u64 \<times> kernel" where
  "vm_mmap a sz prot flags k =
    (case process_current k of
       None \<Rightarrow> (-1, a, k)
     | Some cur \<Rightarrow>
         let m = vm_map_ptr (pcb_table k cur) in
         if m = 0 then (-1, a, k)
         else let sz = round_page sz in
           if sz = 0 then (-1, a, k)
           else case (if flags AND MAP_ANON \<noteq> 0 then
                        case vm_object_create sz k of (obj, k) \<Rightarrow>
                          (if obj = 0 then None else Some obj, k)
                      else (Some 0, k)) of
             (None, k) \<Rightarrow> (-1, a, k)
           | (Some obj, k) \<Rightarrow>
               case (if flags AND MAP_FIXED \<noteq> 0 then
                       case vm_map_fixed m obj 0 a sz prot flags k of (r, k) \<Rightarrow> (r, a, k)
                     else vm_map_find m obj 0 a sz prot flags k) of (r, va, k) \<Rightarrow>
                 if r < 0 then (-1, a, vm_object_destroy obj k)
                 else case vm_map_wire m va sz (pml4 (pcb_table k cur)) k of (r, k) \<Rightarrow>
                   if r < 0 then (-1, a, snd (vm_map_remove m va (va + sz) k))
                   else (0, va, k))"

section \<open>Address spaces as a whole\<close>

text \<open>The map of a \<^verbatim>\<open>vmspace_t\<close> is its first member, so both have the same address.\<close>

definition vmspace_create :: "kernel \<Rightarrow> (addr \<times> addr) \<times> kernel" where
  "vmspace_create k =
    (case on_heap (kmalloc 48) k of (vs, k) \<Rightarrow>
       if vs = 0 then ((0, 0), k)
       else case on_heap pml4_create (vm_map_init vs 0x10000 0x7FFFF000 k) of (p4, k) \<Rightarrow> ((vs, p4), k))"

definition vmspace_destroy :: "addr \<times> addr \<Rightarrow> kernel \<Rightarrow> kernel" where
  "vmspace_destroy v k =
    (if fst v = 0 then k
     else let vs = fst v;
              k = snd (vm_map_remove vs (min_offset (vmaps k vs)) (max_offset (vmaps k vs)) k);
              k = upd_heap (pml4_destroy (snd v)) k
          in upd_heap (kfree vs) k)"

end
