(* ===== verification/Process.thy ===== *)
theory Process
  imports VmMap
begin

text \<open>
  The process table and the scheduler of \<^verbatim>\<open>OvsbMk/kernel/process.c\<close>. \<open>ctx_switch\<close> is the effect of the
  assembly routines \<^verbatim>\<open>context_switch\<close> and \<^verbatim>\<open>context_switch_kern\<close> on the state the C code sees: it saves the
  stack pointer of the process that stops and installs the next one's stack, page table and kernel stack.
  A call that does not return to its caller ends with the state in which the next process runs.
  \<^verbatim>\<open>proc_waitpid\<close> polls: one pass over the table either returns or yields, and the caller polls again when
  it is scheduled next, so the loop is a function of the number of passes.
\<close>

section \<open>The table\<close>

abbreviation pst :: "kernel \<Rightarrow> nat \<Rightarrow> proc_state" where "pst k i \<equiv> state (pcb_table k i)"

definition set_state :: "nat \<Rightarrow> proc_state \<Rightarrow> kernel \<Rightarrow> kernel" where
  "set_state i st k = set_pcb i ((pcb_table k i)\<lparr>state := st\<rparr>) k"

definition zero_pcb :: pcb where
  "zero_pcb = \<lparr>pid = 0, state = PROC_EMPTY, pname = [], is_user_proc = False, kernel_rsp = 0, rsp0 = 0,
     pml4 = 0, user_rsp = 0, user_rip = 0, parent_pid = 0, exit_code = 0, program_break = 0,
     heap_start = 0, vm_map_ptr = 0, vmspace_ptr = 0, fs_base = 0, cwd = [], fds_tab = None,
     in_kern = False, th_parent_pid = 0, clear_tid = 0\<rparr>"

definition alloc_pcb :: "kernel \<Rightarrow> nat option \<times> kernel" where
  "alloc_pcb k =
    (if pcb_count k \<ge> MAX_PROC then (None, k)
     else (Some (pcb_count k), k\<lparr>pcb_count := pcb_count k + 1\<rparr>))"

definition find_pid :: "int \<Rightarrow> kernel \<Rightarrow> nat option" where
  "find_pid p k = find (\<lambda>i. pid (pcb_table k i) = p) [0..<MAX_PROC]"

definition find_empty :: "kernel \<Rightarrow> nat option" where
  "find_empty k = find (\<lambda>i. pst k i = PROC_EMPTY) [0..<MAX_PROC]"

text \<open>Copying a name of at most \<open>n\<close> characters over an old one, without and with a terminator.\<close>

definition copy_name :: "nat \<Rightarrow> string \<Rightarrow> string \<Rightarrow> string" where
  "copy_name n new old = take n new @ drop (length (take n new)) old"

definition push_frame :: "addr \<Rightarrow> u64 list \<Rightarrow> kheap \<Rightarrow> kheap" where
  "push_frame sp ws h = fold (\<lambda>(i, w). poke (sp + 8 * of_nat i) w) (enumerate 0 ws) h"

text \<open>The frame an \<^verbatim>\<open>iretq\<close> into user mode pops: fifteen registers, RIP, CS, RFLAGS, RSP and SS.\<close>

definition user_frame :: "u64 list \<Rightarrow> u64 \<Rightarrow> u64 \<Rightarrow> u64 \<Rightarrow> u64 list" where
  "user_frame regs rip rflags rsp = regs @ [rip, 0x1B, rflags, rsp, 0x23]"

definition setup_user_stack :: "nat \<Rightarrow> u64 \<Rightarrow> u64 \<Rightarrow> u64 \<Rightarrow> kernel \<Rightarrow> kernel" where
  "setup_user_stack i ent ustack ustack_size k =
    (let sp = kernel_rsp (pcb_table k i) - 160;
         k = upd_heap (push_frame sp (user_frame (replicate 15 0) ent 0x202 (ustack + ustack_size))) k
     in set_pcb i ((pcb_table k i)\<lparr>kernel_rsp := sp\<rparr>) k)"

definition new_vm_map :: "kernel \<Rightarrow> addr \<times> kernel" where
  "new_vm_map k =
    (case on_heap (kmalloc 32) k of (m, k) \<Rightarrow>
       (m, if m \<noteq> 0 then vm_map_init m 0x10000 0x7FFFF000 k else k))"

definition fds_cleanup :: "kernel \<Rightarrow> kernel" where
  "fds_cleanup k = k\<lparr>fd_tables := (fd_tables k)(fdtab k :=
     (\<lambda>i. if 3 \<le> i \<and> i < MAX_FDS then (fd_tables k (fdtab k) i)\<lparr>f_used := False\<rparr> else fd_tables k (fdtab k) i))\<rparr>"

definition process_init :: "u64 \<Rightarrow> kernel \<Rightarrow> kernel" where
  "process_init idle_entry k =
    (let k = fds_cleanup k;
         k = k\<lparr>pcb_table := \<lambda>_. zero_pcb\<lparr>pid := -1, th_parent_pid := -1\<rparr>,
               pcb_count := 0, current_pid := 0, next_pid := 1\<rparr>
     in case alloc_pcb k of
          (None, k) \<Rightarrow> k
        | (Some i, k) \<Rightarrow>
            (case on_heap (kmalloc STACK_SIZE) k of (kstack, k) \<Rightarrow>
               if kstack = 0 then k
               else
                 let sp = kstack + STACK_SIZE - 8;
                     k = upd_heap (poke sp idle_entry) k
                 in set_pcb i ((pcb_table k i)\<lparr>pid := 0, state := PROC_READY, is_user_proc := False,
                      pname := ''idle'', kernel_rsp := sp, rsp0 := sp, pml4 := cr3 (heap k),
                      parent_pid := 0, exit_code := 0\<rparr>) k))"

definition process_create_user :: "string \<Rightarrow> u64 \<Rightarrow> u64 \<Rightarrow> u64 \<Rightarrow> kernel \<Rightarrow> int \<times> kernel" where
  "process_create_user name ent ustack ustack_size k =
    (case alloc_pcb k of
       (None, k) \<Rightarrow> (-1, k)
     | (Some i, k) \<Rightarrow>
         (case on_heap (kmalloc STACK_SIZE) k of (kstack, k) \<Rightarrow>
            if kstack = 0 then (-1, k)
            else case new_vm_map k of (m, k) \<Rightarrow>
              let np = next_pid k; top = kstack + STACK_SIZE; old = pcb_table k i;
                  p = old\<lparr>pid := np, state := PROC_READY, is_user_proc := True,
                     pname := copy_name (PROC_NAME_MAX - 1) name (pname old),
                     kernel_rsp := top, rsp0 := top, pml4 := cr3 (heap k), parent_pid := current_pid k,
                     exit_code := 0, program_break := 0x201000, heap_start := 0x201000,
                     vm_map_ptr := m, fs_base := 0, th_parent_pid := -1, clear_tid := 0, cwd := ''/''\<rparr>;
                  k = set_pcb i p (k\<lparr>next_pid := cint (np + 1)\<rparr>)
              in (np, setup_user_stack i ent ustack ustack_size k)))"

definition proc_spawn :: "string \<Rightarrow> u64 \<Rightarrow> u64 \<Rightarrow> kernel \<Rightarrow> int \<times> kernel" where
  "proc_spawn name ent user_stack_top k =
    (case find_empty k of
       None \<Rightarrow> (-1, k)
     | Some slot \<Rightarrow>
         (case on_heap (mmap_user STACK_SIZE) k of (kstack, k) \<Rightarrow>
            if kstack = 0 then (-1, k)
            else case on_heap pml4_create k of (p4, k) \<Rightarrow>
              if p4 = 0 then (-1, snd (on_heap (munmap_user kstack) k))
              else case new_vm_map k of (m, k) \<Rightarrow>
                let np = next_pid k; top = kstack + STACK_SIZE; sp = top - 160;
                    p = (pcb_table k slot)\<lparr>pid := np, state := PROC_READY, is_user_proc := True,
                       pname := take (PROC_NAME_MAX - 1) name, rsp0 := top, pml4 := p4,
                       parent_pid := current_pid k, exit_code := 0, program_break := 0x201000,
                       heap_start := 0x201000, vm_map_ptr := m, fs_base := 0, th_parent_pid := -1,
                       clear_tid := 0, cwd := ''/'', kernel_rsp := sp\<rparr>;
                    k = set_pcb slot p (k\<lparr>next_pid := cint (np + 1),
                          pcb_count := (if slot \<ge> pcb_count k then slot + 1 else pcb_count k)\<rparr>)
                in (np, upd_heap (push_frame sp (user_frame (replicate 15 0) ent 0x202 user_stack_top)) k)))"

section \<open>Scheduling\<close>

definition tss_set_rsp0 :: "u64 \<Rightarrow> kernel \<Rightarrow> kernel" where
  "tss_set_rsp0 a k = k\<lparr>tss_rsp0 := a\<rparr>"

definition ctx_switch :: "nat \<Rightarrow> nat \<Rightarrow> kernel \<Rightarrow> kernel" where
  "ctx_switch prev nxt k =
    (let k = set_pcb prev ((pcb_table k prev)\<lparr>kernel_rsp := cpu_rsp k, fs_base := fs_msr k\<rparr>) k;
         n = pcb_table k nxt;
         k = upd_heap (\<lambda>h. h\<lparr>cr3 := pml4 n\<rparr>) k;
         k = set_pcb nxt (n\<lparr>in_kern := False\<rparr>) k
     in k\<lparr>cpu_slot := nxt, cpu_rsp := kernel_rsp n, tss_rsp0 := rsp0 n,
          fs_msr := (if in_kern n then fs_msr k else fs_base n)\<rparr>)"

text \<open>The switch out of a system call in progress marks the stopped process as blocked in the kernel and
  leaves the FS base alone.\<close>

definition ctx_switch_kern :: "nat \<Rightarrow> nat \<Rightarrow> kernel \<Rightarrow> kernel" where
  "ctx_switch_kern prev nxt k =
    (let k = set_pcb prev ((pcb_table k prev)\<lparr>kernel_rsp := cpu_rsp k, in_kern := True\<rparr>) k;
         n = pcb_table k nxt;
         k = upd_heap (\<lambda>h. h\<lparr>cr3 := pml4 n\<rparr>) k;
         k = set_pcb nxt (n\<lparr>in_kern := False\<rparr>) k
     in k\<lparr>cpu_slot := nxt, cpu_rsp := kernel_rsp n, tss_rsp0 := rsp0 n\<rparr>)"

definition find_next_ready :: "kernel \<Rightarrow> nat option" where
  "find_next_ready k =
    map_option (\<lambda>i. (nat (current_pid k) + i) mod MAX_PROC)
      (find (\<lambda>i. pst k ((nat (current_pid k) + i) mod MAX_PROC) = PROC_READY) [1..<MAX_PROC + 1])"

definition schedule :: "kernel \<Rightarrow> kernel" where
  "schedule k =
    (case find_next_ready k of
       None \<Rightarrow> k
     | Some nxt \<Rightarrow>
         if int nxt = current_pid k then k
         else
           let prev = nat (current_pid k);
               k = set_pcb prev ((pcb_table k prev)\<lparr>in_kern := False\<rparr>) k;
               k = (if pst k prev = PROC_RUNNING then set_state prev PROC_READY k else k);
               k = set_state nxt PROC_RUNNING k;
               k = k\<lparr>current_pid := int nxt\<rparr>;
               k = tss_set_rsp0 (rsp0 (pcb_table k nxt)) k
           in if g_in_syscall k \<and> is_user_proc (pcb_table k prev) then ctx_switch_kern prev nxt k
              else ctx_switch prev nxt k)"

definition proc_yield :: "kernel \<Rightarrow> kernel" where
  "proc_yield k = schedule k"

definition process_switch_to :: "int \<Rightarrow> kernel \<Rightarrow> kernel" where
  "process_switch_to p k =
    (case process_current k of
       None \<Rightarrow> k
     | Some cur \<Rightarrow>
         (case find (\<lambda>i. pst k i \<noteq> PROC_EMPTY \<and> pid (pcb_table k i) = p) [0..<MAX_PROC] of
            None \<Rightarrow> k
          | Some nxt \<Rightarrow>
              let k = set_state (nat (current_pid k)) PROC_BLOCKED k;
                  k = k\<lparr>current_pid := p\<rparr>;
                  k = set_state nxt PROC_RUNNING k;
                  k = tss_set_rsp0 (rsp0 (pcb_table k nxt)) k
              in ctx_switch cur nxt k))"

section \<open>Exit and wait\<close>

text \<open>The first blocked process that is the parent of a process with the child's pid becomes ready.\<close>

definition is_parent_of :: "kernel \<Rightarrow> nat \<Rightarrow> int \<Rightarrow> bool" where
  "is_parent_of k i child \<longleftrightarrow>
    list_ex (\<lambda>j. pid (pcb_table k j) = child \<and> parent_pid (pcb_table k j) = pid (pcb_table k i)) [0..<MAX_PROC]"

definition proc_wake_parent :: "int \<Rightarrow> kernel \<Rightarrow> kernel" where
  "proc_wake_parent child k =
    (case find (\<lambda>i. pst k i = PROC_BLOCKED \<and> is_parent_of k i child) [0..<MAX_PROC] of
       None \<Rightarrow> k
     | Some i \<Rightarrow> set_state i PROC_READY k)"

definition fds_close_exec :: "nat option \<Rightarrow> kernel \<Rightarrow> kernel" where
  "fds_close_exec t k =
    (case t of
       None \<Rightarrow> k
     | Some t \<Rightarrow> k\<lparr>fd_tables := (fd_tables k)(t :=
         (\<lambda>i. if 3 \<le> i \<and> i < MAX_FDS then (fd_tables k t i)\<lparr>f_used := False\<rparr> else fd_tables k t i))\<rparr>)"

definition process_exit_current :: "int \<Rightarrow> kernel \<Rightarrow> kernel" where
  "process_exit_current code k =
    (case process_current k of
       None \<Rightarrow> k
     | Some p \<Rightarrow>
         let k = fds_close_exec (fds_tab (pcb_table k p)) k;
             k = set_pcb p ((pcb_table k p)\<lparr>exit_code := code, state := PROC_ZOMBIE\<rparr>) k;
             k = proc_wake_parent (pid (pcb_table k p)) k;
             pp = parent_pid (pcb_table k p);
             parent = (if pp < 0 \<or> pp \<ge> int MAX_PROC then 0 else nat pp);
             k = (if pst k parent = PROC_BLOCKED \<or> pst k parent = PROC_READY
                  then set_state parent PROC_READY k else k);
             k = k\<lparr>current_pid := int parent\<rparr>;
             k = tss_set_rsp0 (rsp0 (pcb_table k parent)) k
         in ctx_switch p parent k)"

definition proc_exit :: "int \<Rightarrow> kernel \<Rightarrow> kernel" where
  "proc_exit code k =
    (if current_pid k < 0 \<or> current_pid k \<ge> int MAX_PROC then k
     else
       let k = fds_cleanup k;
           c = nat (current_pid k);
           k = set_pcb c ((pcb_table k c)\<lparr>exit_code := code, state := PROC_ZOMBIE\<rparr>) k
       in schedule (proc_wake_parent (pid (pcb_table k c)) k))"

datatype wait_result = Reaped int int | NoChild | Again

text \<open>One pass of the loop of \<^verbatim>\<open>proc_waitpid\<close>; \<open>Again\<close> is the pass that ends in \<^verbatim>\<open>schedule\<close>.\<close>

definition waitpid_pass :: "int \<Rightarrow> kernel \<Rightarrow> wait_result \<times> kernel" where
  "waitpid_pass p k =
    (case find_pid p k of
       None \<Rightarrow> (NoChild, k)
     | Some i \<Rightarrow>
         if pst k i = PROC_ZOMBIE then
           let code = exit_code (pcb_table k i);
               k = snd (on_heap (munmap_user (rsp0 (pcb_table k i) - STACK_SIZE)) k);
               k = upd_heap (pml4_destroy (pml4 (pcb_table k i))) k
           in (Reaped p code, set_state i PROC_EMPTY k)
         else (Again, schedule k))"

text \<open>The loop, with \<open>env n\<close> standing for what the other processes do until the caller runs again after
  its \<open>n\<close>-th yield. \<open>None\<close> when the given number of passes does not end it.\<close>

fun proc_waitpid :: "nat \<Rightarrow> (nat \<Rightarrow> kernel \<Rightarrow> kernel) \<Rightarrow> int \<Rightarrow> kernel \<Rightarrow> (wait_result \<times> kernel) option" where
  "proc_waitpid 0 env p k = None"
| "proc_waitpid (Suc n) env p k =
    (case waitpid_pass p k of
       (Again, k) \<Rightarrow> proc_waitpid n env p (env n k)
     | r \<Rightarrow> Some r)"

end
