(* ===== verification/Fork.thy ===== *)
theory Fork
  imports Process
begin

text \<open>
  \<^verbatim>\<open>fork\<close>, thread creation and thread exit of \<^verbatim>\<open>OvsbMk/kernel/process.c\<close>. The register frame of the system
  call in progress is the list of its words; \<open>user_rsp_now\<close> is the variable \<^verbatim>\<open>current_rsp0\<close> that the entry
  code exchanged with the user's stack pointer.
\<close>

abbreviation phys_mask :: u64 where "phys_mask \<equiv> 0x000FFFFFFFFFF000"

definition child_frame_for :: "addr \<Rightarrow> u64 \<Rightarrow> kheap \<Rightarrow> addr \<times> kheap" where
  "child_frame_for child va s =
    (case split_2mb_pde child (base2m va) s of (_, s) \<Rightarrow>
     case map_user_4kb child va s of (r, s) \<Rightarrow>
       if r < 0 then (0, s)
       else
         let pdpt = base4k (rd s child (pml4_index va));
             pd = base4k (rd s pdpt (pdpt_index va));
             pt = base4k (rd s pd (pd_index va));
             pte = rd s pt (pt_index va)
         in if \<not> present pte then (0, s) else (pte AND phys_mask, s))"

definition copy_page :: "addr \<Rightarrow> addr \<Rightarrow> kheap \<Rightarrow> kheap" where
  "copy_page dst src s = fold (\<lambda>b s. poke (dst + 8 * of_nat b) (mem s (src + 8 * of_nat b)) s) [0..<512] s"

text \<open>One page of the parent copied into the frame the child has for the same address.\<close>

definition copy_one :: "addr \<Rightarrow> u64 \<Rightarrow> addr \<Rightarrow> kheap \<Rightarrow> kheap" where
  "copy_one dst va pa s =
    (case child_frame_for dst va s of (fr, s) \<Rightarrow> if fr = 0 then s else copy_page fr pa s)"

abbreviation user_entry :: "u64 \<Rightarrow> bool" where "user_entry e \<equiv> present e \<and> e AND 4 \<noteq> 0"

definition copy_pd_entry :: "addr \<Rightarrow> u64 \<Rightarrow> u64 \<Rightarrow> kheap \<Rightarrow> kheap" where
  "copy_pd_entry dst base e2 s =
    (if huge e2 then
       fold (\<lambda>n. copy_one dst (base + push_bit 12 (of_nat n)) ((e2 AND 0xFFFFFE00000) + push_bit 12 (of_nat n))) [0..<512] s
     else
       let spt = e2 AND phys_mask in
       fold (\<lambda>n s. let e1 = rd s spt (of_nat n) in
               if user_entry e1 then copy_one dst (base + push_bit 12 (of_nat n)) (e1 AND phys_mask) s else s) [0..<512] s)"

definition copy_pd :: "addr \<Rightarrow> u64 \<Rightarrow> addr \<Rightarrow> kheap \<Rightarrow> kheap" where
  "copy_pd dst base sp2 s =
    fold (\<lambda>k s. let e2 = rd s sp2 (of_nat k) in
            if user_entry e2 then copy_pd_entry dst (base OR push_bit 21 (of_nat k)) e2 s else s) [0..<512] s"

definition copy_pdpt :: "addr \<Rightarrow> u64 \<Rightarrow> addr \<Rightarrow> kheap \<Rightarrow> kheap" where
  "copy_pdpt dst base sp3 s =
    fold (\<lambda>j s. let e3 = rd s sp3 (of_nat j) in
            if user_entry e3 \<and> \<not> huge e3 then copy_pd dst (base OR push_bit 30 (of_nat j)) (e3 AND phys_mask) s
            else s) [0..<512] s"

definition copy_user_space :: "addr \<Rightarrow> addr \<Rightarrow> kheap \<Rightarrow> kheap" where
  "copy_user_space src dst s =
    fold (\<lambda>i s. let e4 = rd s src (of_nat i) in
            if user_entry e4 then copy_pdpt dst (push_bit 39 (of_nat i)) (e4 AND phys_mask) s else s) [0..<512] s"

fun vm_map_copy_entries :: "vm_map_entry list \<Rightarrow> addr \<Rightarrow> kernel \<Rightarrow> kernel" where
  "vm_map_copy_entries [] dst k = k"
| "vm_map_copy_entries (e # es) dst k =
    (let sz = (if e_end e > e_start e then e_end e - e_start e else 0);
         k = (if sz \<noteq> 0 then snd (vm_map_fixed dst 0 0 (e_start e) sz (e_prot e) (e_flags e) k) else k)
     in vm_map_copy_entries es dst k)"

definition vm_map_copy_to :: "addr \<Rightarrow> addr \<Rightarrow> kernel \<Rightarrow> kernel" where
  "vm_map_copy_to dst src k = vm_map_copy_entries (entries (vmaps k src)) dst k"

definition fds_dup_into_slot :: "nat \<Rightarrow> kernel \<Rightarrow> kernel" where
  "fds_dup_into_slot slot k =
    (if slot \<ge> MAX_PROC then k else k\<lparr>fd_tables := (fd_tables k)(slot := fd_tables k (fdtab k))\<rparr>)"

definition fds_tab_addr :: "nat \<Rightarrow> nat option" where
  "fds_tab_addr slot = (if slot \<ge> MAX_PROC then None else Some slot)"

text \<open>The part of \<^verbatim>\<open>proc_fork\<close> after the allocations: the child's control block in \<open>slot\<close>, its copy of
  the parent's memory and descriptors, and the frame from which it first runs.\<close>

definition fork_fill :: "u64 list \<Rightarrow> u64 \<Rightarrow> nat \<Rightarrow> pcb \<Rightarrow> addr \<Rightarrow> addr \<Rightarrow> addr \<Rightarrow> kernel \<Rightarrow> kernel" where
  "fork_fill kframe user_rsp_now slot pp kstack child_pml4 m k =
    (let np = next_pid k; top = kstack + STACK_SIZE; sp = top - 160;
         k = set_pcb slot ((pcb_table k slot)\<lparr>pid := np, state := PROC_READY, is_user_proc := True,
               pname := take (PROC_NAME_MAX - 5) (pname pp) @ ''fk'', rsp0 := top,
               pml4 := child_pml4, parent_pid := pid pp, exit_code := 0,
               program_break := program_break pp, heap_start := heap_start pp, vm_map_ptr := m,
               vmspace_ptr := 0, fs_base := (if fs_msr k \<noteq> 0 then fs_msr k else fs_base pp),
               cwd := cwd pp, fds_tab := fds_tab_addr slot, kernel_rsp := sp,
               user_rsp := user_rsp_now, user_rip := kframe ! 15\<rparr>)
               (k\<lparr>next_pid := cint (np + 1),
                  pcb_count := (if slot \<ge> pcb_count k then slot + 1 else pcb_count k)\<rparr>);
         k = upd_heap (copy_user_space (pml4 pp) child_pml4) k;
         k = fds_dup_into_slot slot k
     in upd_heap (push_frame sp
          (user_frame (take 14 kframe @ [0]) (kframe ! 15) (kframe ! 16) user_rsp_now)) k)"

definition proc_fork :: "u64 list \<Rightarrow> u64 \<Rightarrow> kernel \<Rightarrow> int \<times> kernel" where
  "proc_fork kframe user_rsp_now k =
    (case process_current k of
       None \<Rightarrow> (-1, k)
     | Some par \<Rightarrow>
       (case find_empty k of
          None \<Rightarrow> (-1, k)
        | Some slot \<Rightarrow>
          (case on_heap (kmalloc STACK_SIZE) k of (kstack, k) \<Rightarrow>
           if kstack = 0 then (-1, k)
           else case on_heap pml4_create k of (child_pml4, k) \<Rightarrow>
           if child_pml4 = 0 then (-1, upd_heap (kfree kstack) k)
           else case new_vm_map k of (m, k) \<Rightarrow>
             let pp = pcb_table k par;
                 k = (if m \<noteq> 0 \<and> vm_map_ptr pp \<noteq> 0 then vm_map_copy_to m (vm_map_ptr pp) k else k)
             in (next_pid k, fork_fill kframe user_rsp_now slot pp kstack child_pml4 m k))))"

abbreviation CLONE_VM :: u64 where "CLONE_VM \<equiv> 0x100"
abbreviation CLONE_THREAD :: u64 where "CLONE_THREAD \<equiv> 0x10000"
abbreviation CLONE_SETTLS :: u64 where "CLONE_SETTLS \<equiv> 0x80000"
abbreviation CLONE_PARENT_SETTID :: u64 where "CLONE_PARENT_SETTID \<equiv> 0x100000"
abbreviation CLONE_CHILD_CLEARTID :: u64 where "CLONE_CHILD_CLEARTID \<equiv> 0x200000"
abbreviation CLONE_CHILD_SETTID :: u64 where "CLONE_CHILD_SETTID \<equiv> 0x1000000"

text \<open>A 32-bit store into user memory, seen through the current page table as a half of a word.\<close>

definition poke32 :: "addr \<Rightarrow> u32 \<Rightarrow> kheap \<Rightarrow> kheap" where
  "poke32 a v s =
    (if a AND 4 = 0 then poke a ((mem s a AND NOT 0xFFFFFFFF) OR ucast v) s
     else poke (a - 4) ((mem s (a - 4) AND 0xFFFFFFFF) OR push_bit 32 (ucast v)) s)"

definition proc_clone_thread ::
    "u64 \<Rightarrow> u64 \<Rightarrow> addr \<Rightarrow> addr \<Rightarrow> u64 \<Rightarrow> u64 list \<Rightarrow> kernel \<Rightarrow> int \<times> kernel" where
  "proc_clone_thread flags newsp ptid ctid tls kframe k =
    (case process_current k of
       None \<Rightarrow> (-1, k)
     | Some par \<Rightarrow>
       if flags AND CLONE_THREAD = 0 \<or> flags AND CLONE_VM = 0 then (-22, k)
       else
       (case find_empty k of
          None \<Rightarrow> (-1, k)
        | Some slot \<Rightarrow>
          (case on_heap (kmalloc STACK_SIZE) k of (kstack, k) \<Rightarrow>
           if kstack = 0 then (-1, k)
           else
             let np = next_pid k; top = kstack + STACK_SIZE; sp = top - 160; pp = pcb_table k par;
                 rsp = (if newsp \<noteq> 0 then newsp else kframe ! 18);
                 k = set_pcb slot (zero_pcb\<lparr>pid := np, state := PROC_READY, is_user_proc := True,
                       pname := take (PROC_NAME_MAX - 4) (pname pp) @ ''th'', rsp0 := top,
                       pml4 := pml4 pp, vm_map_ptr := vm_map_ptr pp, fds_tab := fds_tab pp,
                       program_break := program_break pp, heap_start := heap_start pp,
                       parent_pid := pid pp, th_parent_pid := pid pp, cwd := cwd pp,
                       fs_base := (if flags AND CLONE_SETTLS \<noteq> 0 then tls else fs_base pp),
                       clear_tid := (if flags AND CLONE_CHILD_CLEARTID \<noteq> 0 then ctid else 0),
                       kernel_rsp := sp, user_rsp := rsp, user_rip := kframe ! 15\<rparr>)
                       (k\<lparr>next_pid := cint (np + 1),
                          pcb_count := (if slot \<ge> pcb_count k then slot + 1 else pcb_count k)\<rparr>);
                 k = (if flags AND CLONE_PARENT_SETTID \<noteq> 0 \<and> ptid \<noteq> 0
                      then upd_heap (poke32 ptid (of_int np)) k else k);
                 k = (if flags AND CLONE_CHILD_SETTID \<noteq> 0 \<and> ctid \<noteq> 0
                      then upd_heap (poke32 ctid (of_int np)) k else k);
                 k = upd_heap (push_frame sp
                       (user_frame (take 14 kframe @ [0]) (kframe ! 15) (kframe ! 16) rsp)) k
             in (np, k))))"

definition proc_thread_exit :: "int \<Rightarrow> kernel \<Rightarrow> kernel" where
  "proc_thread_exit code k =
    (case process_current k of
       None \<Rightarrow> k
     | Some me \<Rightarrow>
         let k = (if clear_tid (pcb_table k me) \<noteq> 0
                  then upd_heap (poke (clear_tid (pcb_table k me)) 0) k else k);
             k = set_pcb me ((pcb_table k me)\<lparr>exit_code := code, state := PROC_EMPTY\<rparr>) k
         in schedule k)"

text \<open>\<^verbatim>\<open>SYS_exit\<close>: a thread only leaves its slot, a process becomes a zombie.\<close>

definition sys_exit :: "int \<Rightarrow> kernel \<Rightarrow> kernel" where
  "sys_exit code k =
    (case process_current k of
       None \<Rightarrow> process_exit_current code k
     | Some me \<Rightarrow>
         if th_parent_pid (pcb_table k me) \<ge> 0 then proc_thread_exit code k
         else process_exit_current code k)"

end
