(* ===== verification/VmMapInv.thy ===== *)
theory VmMapInv
  imports Fork
begin

text \<open>
  What the address-space maps keep: the entries of a map are non-empty page ranges in ascending order
  that do not overlap, and the map as a function from addresses to entries changes by exactly the
  range an operation names.
\<close>

section \<open>Page addresses\<close>

lemma low_bits: "(x :: u64) AND 0xFFF = take_bit 12 x"
  by (simp add: take_bit_eq_mask mask_eq_exp_minus_1)

lemma aligned_mod: "(x :: u64) AND 0xFFF = 0 \<longleftrightarrow> unat x mod 4096 = 0"
proof -
  have "unat (x AND 0xFFF) = unat x mod 4096"
    unfolding low_bits by (simp add: take_bit_eq_mod unat_mod)
  then show ?thesis by (metis unat_eq_zero)
qed

lemma aligned_add:
  assumes "(x :: u64) AND 0xFFF = 0" "y AND 0xFFF = 0"
  shows "(x + y) AND 0xFFF = 0"
proof -
  have "unat (x + y) mod 4096 = (unat x + unat y) mod 4096"
    by (simp add: unat_word_ariths mod_mod_cancel)
  then show ?thesis using assms by (simp add: aligned_mod mod_eq_0_iff_dvd)
qed

lemma round_page_aligned [simp]: "round_page x AND 0xFFF = 0"
  by (simp add: and.assoc)

lemma word_add_strict:
  assumes "unat (a :: u64) + unat b < 2 ^ 64" "b \<noteq> 0"
  shows "a < a + b" "unat (a + b) = unat a + unat b"
  using assms by (simp_all add: word_less_nat_alt unat_plus_if' unat_eq_zero [symmetric] del: unat_eq_zero)

section \<open>The invariant\<close>

definition entry_ok :: "vm_map_entry \<Rightarrow> bool" where
  "entry_ok e \<longleftrightarrow> e_start e < e_end e \<and> e_start e AND 0xFFF = 0 \<and> e_end e AND 0xFFF = 0"

definition entries_ok :: "vm_map_entry list \<Rightarrow> bool" where
  "entries_ok es \<longleftrightarrow> list_all entry_ok es \<and> sorted_wrt (\<lambda>a b. e_end a \<le> e_start b) es"

definition map_ok :: "vm_map \<Rightarrow> bool" where
  "map_ok m \<longleftrightarrow> entries_ok (entries m) \<and> nentries m = int (length (entries m)) \<and> min_offset m \<le> 2 ^ 62"

definition maps_ok :: "kernel \<Rightarrow> bool" where
  "maps_ok k \<longleftrightarrow> (\<forall>m. map_ok (vmaps k m))"

text \<open>The part of an entry that places it: everything but the object behind it.\<close>

definition shape :: "vm_map_entry list \<Rightarrow> vm_map_entry list" where
  "shape es = map (\<lambda>e. e\<lparr>e_object := 0\<rparr>) es"

definition same_shape :: "vm_map \<Rightarrow> vm_map \<Rightarrow> bool" where
  "same_shape m m' \<longleftrightarrow> shape (entries m') = shape (entries m) \<and> nentries m' = nentries m \<and>
     min_offset m' = min_offset m \<and> max_offset m' = max_offset m"

lemma entries_ok_map:
  assumes "\<And>e. e_start (f e) = e_start e" "\<And>e. e_end (f e) = e_end e"
  shows "entries_ok (map f es) = entries_ok es"
  by (simp add: entries_ok_def list_all_iff entry_ok_def sorted_wrt_map assms)

lemma entries_ok_shape: "entries_ok (shape es) = entries_ok es"
  unfolding shape_def by (rule entries_ok_map) simp_all

lemma same_shape_ok: "same_shape m m' \<Longrightarrow> map_ok m' = map_ok m"
  unfolding map_ok_def same_shape_def
  by (metis entries_ok_shape shape_def length_map)

lemma same_shape_refl [simp]: "same_shape m m"
  by (simp add: same_shape_def)

lemma same_shape_trans: "same_shape l m \<Longrightarrow> same_shape m n \<Longrightarrow> same_shape l n"
  by (simp add: same_shape_def)

text \<open>The part of the state that decides which process is running and what it owns.\<close>

definition outside :: "kernel \<Rightarrow> (nat \<Rightarrow> pcb) \<times> int \<times> nat" where
  "outside k = (pcb_table k, current_pid k, pcb_count k)"

definition kept :: "kernel \<Rightarrow> (addr \<Rightarrow> vm_map) \<times> (nat \<Rightarrow> pcb) \<times> int \<times> nat" where
  "kept k = (vmaps k, outside k)"

definition same_maps :: "kernel \<Rightarrow> kernel \<Rightarrow> bool" where
  "same_maps k k' \<longleftrightarrow> (\<forall>m. same_shape (vmaps k m) (vmaps k' m)) \<and> outside k' = outside k"

lemma same_maps_refl [simp]: "same_maps k k"
  by (simp add: same_maps_def)

lemma same_maps_trans: "same_maps k l \<Longrightarrow> same_maps l n \<Longrightarrow> same_maps k n"
  unfolding same_maps_def by (auto intro: same_shape_trans)

lemma same_maps_ok: "same_maps k k' \<Longrightarrow> maps_ok k' = maps_ok k"
  unfolding same_maps_def maps_ok_def using same_shape_ok by blast

section \<open>Operations that leave the maps alone\<close>

lemma vmaps_set_vmap [simp]: "vmaps (set_vmap a m k) = (vmaps k)(a := m)"
  by (simp add: set_vmap_def)

lemma outside_set_vmap [simp]: "outside (set_vmap a m k) = outside k"
  by (simp add: outside_def set_vmap_def)

lemma keptD:
  assumes "kept k' = kept k"
  shows "vmaps k' = vmaps k" "outside k' = outside k" "same_maps k k'"
  using assms by (simp_all add: kept_def same_maps_def)

lemma kept_set_heap [simp]: "kept (set_heap h k) = kept k"
  by (simp add: set_heap_def kept_def outside_def)

lemma kept_set_vobj [simp]: "kept (set_vobj a v k) = kept k"
  by (simp add: set_vobj_def kept_def outside_def)

lemma kept_upd_heap [simp]: "kept (upd_heap f k) = kept k"
  by (simp add: upd_heap_def)

lemma kept_on_heap: "on_heap f k = (r, k') \<Longrightarrow> kept k' = kept k"
  by (auto simp: on_heap_def split: prod.splits)

lemma kept_snd_on_heap [simp]: "kept (snd (on_heap f k)) = kept k"
  by (simp add: on_heap_def split: prod.splits)

lemma kept_free_page [simp]: "kept (vm_free_page a k) = kept k"
  by (simp add: vm_free_page_def)

lemma kept_entry_free [simp]: "kept (entry_free a k) = kept k"
  by (simp add: entry_free_def)

lemma kept_entry_alloc: "entry_alloc k = (r, k') \<Longrightarrow> kept k' = kept k"
  unfolding entry_alloc_def by (rule kept_on_heap)

lemma kept_object_share [simp]: "kept (vm_object_share a k) = kept k"
  by (simp add: vm_object_share_def)

lemma kept_fold:
  assumes "\<And>x k. kept (f x k) = kept k"
  shows "kept (fold f xs k) = kept k"
  by (induction xs arbitrary: k) (simp_all add: assms)

lemma kept_object_destroy [simp]: "kept (vm_object_destroy a k) = kept k"
  by (simp add: vm_object_destroy_def Let_def kept_fold)

lemma kept_object_create: "vm_object_create sz k = (r, k') \<Longrightarrow> kept k' = kept k"
  by (auto simp: vm_object_create_def Let_def split: prod.splits if_splits dest!: kept_on_heap)

lemma kept_set_obj_page [simp]: "kept (set_obj_page obj i pa k) = kept k"
  by (simp add: set_obj_page_def)

lemma kept_entry_page: "entry_page e obj va k = (r, k') \<Longrightarrow> kept k' = kept k"
  by (auto simp: entry_page_def obj_get_page_def vm_alloc_page_def Let_def
      split: prod.splits if_splits dest!: kept_on_heap)

lemma kept_wire_split: "wire_split is e obj ws we c pt old k = (r, k') \<Longrightarrow> kept k' = kept k"
  by (induction "is" e obj ws we c pt old k rule: wire_split.induct)
    (auto simp: Let_def split: prod.splits if_splits dest!: kept_entry_page)

lemma kept_wire_small: "wire_small is e obj ws we c pt k = (r, k') \<Longrightarrow> kept k' = kept k"
  by (induction "is" e obj ws we c pt k rule: wire_small.induct)
    (auto simp: Let_def split: prod.splits if_splits dest!: kept_entry_page)

lemma kept_wire_chunk: "wire_chunk e obj ws we p4 c k = (r, k') \<Longrightarrow> kept k' = kept k"
  by (auto simp: wire_chunk_def Let_def split: prod.splits if_splits
      dest!: kept_on_heap kept_wire_split kept_wire_small)

lemma kept_wire_chunks: "wire_chunks cs e obj ws we p4 k = (r, k') \<Longrightarrow> kept k' = kept k"
  by (induction cs e obj ws we p4 k rule: wire_chunks.induct)
    (auto split: prod.splits if_splits dest!: kept_wire_chunk)

lemma kept_free_obj_page [simp]: "kept (free_obj_page obj pg k) = kept k"
  by (simp add: free_obj_page_def Let_def)

section \<open>Operations that only exchange objects\<close>

text \<open>Of an entry that meets the range the object may have been exchanged; the others are as before.\<close>

definition touched :: "u64 \<Rightarrow> u64 \<Rightarrow> vm_map_entry \<Rightarrow> vm_map_entry \<Rightarrow> bool" where
  "touched st en e e' \<longleftrightarrow> e' = e \<or> e_start e < en \<and> st < e_end e \<and> e'\<lparr>e_object := 0\<rparr> = e\<lparr>e_object := 0\<rparr>"

definition same_off :: "addr \<Rightarrow> u64 \<Rightarrow> u64 \<Rightarrow> kernel \<Rightarrow> kernel \<Rightarrow> bool" where
  "same_off m st en k k' \<longleftrightarrow> same_maps k k' \<and> (\<forall>m'. m' \<noteq> m \<longrightarrow> vmaps k' m' = vmaps k m') \<and>
     list_all2 (touched st en) (entries (vmaps k m)) (entries (vmaps k' m))"

lemma touched_refl [simp]: "touched st en e e"
  by (simp add: touched_def)

lemma touched_bounds: "touched st en e e' \<Longrightarrow> e_start e' = e_start e \<and> e_end e' = e_end e"
  unfolding touched_def by (metis vm_map_entry.select_convs(2,3) vm_map_entry.surjective vm_map_entry.update_convs(4))

lemma touched_trans: "touched st en e e' \<Longrightarrow> touched st en e' e'' \<Longrightarrow> touched st en e e''"
  using touched_bounds [of st en e e'] by (auto simp: touched_def)

lemma touched_all_trans:
  "list_all2 (touched st en) xs ys \<Longrightarrow> list_all2 (touched st en) ys zs \<Longrightarrow> list_all2 (touched st en) xs zs"
  by (rule list_all2_trans [OF touched_trans])

lemma same_off_kept: "kept k' = kept k \<Longrightarrow> same_off m st en k k'"
  using keptD [of k' k] by (simp add: same_off_def list_all2_same)

lemma same_off_trans: "same_off m st en k l \<Longrightarrow> same_off m st en l n \<Longrightarrow> same_off m st en k n"
  unfolding same_off_def by (metis same_maps_trans touched_all_trans)

lemma same_offD: "same_off m st en k k' \<Longrightarrow> same_maps k k'"
  by (simp add: same_off_def)

lemma set_entry_object_same:
  assumes "i < length (entries (vmaps k m))" "e_start (entries (vmaps k m) ! i) < en" "st < e_end (entries (vmaps k m) ! i)"
  shows "same_off m st en k (set_entry_object m i obj k)"
proof -
  have "shape ((entries (vmaps k m))[i := (entries (vmaps k m) ! i)\<lparr>e_object := obj\<rparr>]) =
      shape (entries (vmaps k m))"
    unfolding shape_def map_update by (rule nth_equalityI) (auto simp: nth_list_update assms)
  moreover have "list_all2 (touched st en) es (es[i := (es ! i)\<lparr>e_object := obj\<rparr>])" if "es = entries (vmaps k m)" for es
    using assms by (auto simp: list_all2_conv_all_nth nth_list_update that touched_def)
  ultimately show ?thesis by (simp add: same_off_def same_maps_def set_entry_object_def Let_def same_shape_def)
qed

lemma same_maps_length:
  assumes "same_maps k k'"
  shows "length (entries (vmaps k' m)) = length (entries (vmaps k m))"
  using assms unfolding same_maps_def same_shape_def shape_def by (metis length_map)

lemma wire_entry_same:
  assumes "wire_entry m st en p4 i k = (r, k')" "i < length (entries (vmaps k m))"
  shows "same_off m st en k k'"
proof -
  let ?e = "entries (vmaps k m) ! i"
  show ?thesis
  proof (cases "e_start ?e < en \<and> e_end ?e > st")
    case meets: True
    define pick where "pick = (if e_object ?e = 0 \<and> e_flags ?e AND MAP_ANON \<noteq> 0 then
        case vm_object_create (e_end ?e - e_start ?e) k of (obj, k) \<Rightarrow>
          if obj = 0 then (None, k) else (Some obj, set_entry_object m i obj k)
      else (Some (e_object ?e), k))"
    have p: "same_off m st en k (snd pick)"
    proof (cases "e_object ?e = 0 \<and> e_flags ?e AND MAP_ANON \<noteq> 0")
      case True
      obtain obj k1 where c: "vm_object_create (e_end ?e - e_start ?e) k = (obj, k1)" by fastforce
      note v = kept_object_create [OF c]
      have "same_off m st en k1 (set_entry_object m i obj k1)"
        using assms(2) meets by (intro set_entry_object_same) (simp_all add: keptD(1) [OF v])
      then show ?thesis using True c same_off_kept [OF v, of m st en]
        by (auto simp: pick_def intro: same_off_trans)
    next
      case False
      then show ?thesis by (auto simp: pick_def same_off_kept)
    qed
    have "kept k' = kept (snd pick)"
      using assms(1) meets unfolding wire_entry_def Let_def pick_def [symmetric]
      by (auto split: prod.splits option.splits if_splits dest!: kept_wire_chunks)
    from same_off_trans [OF p same_off_kept [OF this]] show ?thesis .
  next
    case False
    then show ?thesis using assms(1) by (auto simp: wire_entry_def Let_def same_off_kept)
  qed
qed

lemma wire_entries_same:
  assumes "wire_entries is m st en p4 k = (r, k')" "\<forall>i\<in>set is. i < length (entries (vmaps k m))"
  shows "same_off m st en k k'"
  using assms
proof (induction "is" m st en p4 k arbitrary: r k' rule: wire_entries.induct)
  case (2 i "is" m st en p4 k)
  obtain r1 k1 where w: "wire_entry m st en p4 i k = (r1, k1)" by fastforce
  have s: "same_off m st en k k1" by (rule wire_entry_same [OF w]) (use 2(3) in simp)
  show ?case
  proof (cases "r1 < 0")
    case True
    then show ?thesis using 2(2) w s by simp
  next
    case False
    have "same_off m st en k1 k'"
      using 2(1) [OF w [symmetric] False, of r k'] False 2(2,3) w same_maps_length [OF same_offD [OF s]] by simp
    then show ?thesis by (rule same_off_trans [OF s])
  qed
qed (simp add: same_off_kept)

lemma vm_map_wire_same:
  assumes "vm_map_wire m st sz p4 k = (r, k')"
  shows "same_off m st (st + sz) k k'"
proof -
  obtain r1 k1 where w: "wire_entries [0..<length (entries (vmaps k m))] m st (st + sz) p4 k = (r1, k1)"
    by fastforce
  have s: "same_off m st (st + sz) k k1" by (rule wire_entries_same [OF w]) simp
  have "kept k' = kept k1" using assms w by (auto simp: vm_map_wire_def split: if_splits)
  from same_off_trans [OF s same_off_kept [OF this]] show ?thesis .
qed

lemma munmap_entry_same:
  assumes "i < length (entries (vmaps k m))"
  shows "same_off m a en k (munmap_entry m a en i k)"
proof -
  let ?e = "entries (vmaps k m) ! i"
  have "same_off m a en k (set_entry_object m i 0 k')" if v: "kept k' = kept k" "e_start ?e < en" "a < e_end ?e" for k'
  proof -
    have "same_off m a en k' (set_entry_object m i 0 k')"
      by (rule set_entry_object_same) (use assms v(2,3) in \<open>simp_all only: keptD(1) [OF v(1)]\<close>)
    then show ?thesis by (rule same_off_trans [OF same_off_kept [OF v(1)]])
  qed
  then show ?thesis by (simp add: munmap_entry_def Let_def kept_fold same_off_kept)
qed

lemma munmap_entries_same:
  assumes "\<forall>i\<in>set is. i < length (entries (vmaps k m))"
  shows "same_off m a en k (fold (munmap_entry m a en) is k)"
  using assms
proof (induction "is" arbitrary: k)
  case (Cons i "is")
  have s: "same_off m a en k (munmap_entry m a en i k)" using Cons.prems by (simp add: munmap_entry_same)
  have "same_off m a en (munmap_entry m a en i k) (fold (munmap_entry m a en) is (munmap_entry m a en i k))"
    by (rule Cons.IH) (use Cons.prems same_maps_length [OF same_offD [OF s]] in simp)
  then show ?case using same_off_trans [OF s] by simp
qed (simp add: same_off_kept)

section \<open>Insertion\<close>

definition insert_entry :: "vm_map_entry \<Rightarrow> vm_map_entry list \<Rightarrow> vm_map_entry list" where
  "insert_entry e es = takeWhile (\<lambda>x. e_start x < e_start e) es @ [e] @ dropWhile (\<lambda>x. e_start x < e_start e) es"

lemma set_insert_entry: "set (insert_entry e es) = insert e (set es)"
proof -
  have "set es = set (takeWhile (\<lambda>x. e_start x < e_start e) es) \<union> set (dropWhile (\<lambda>x. e_start x < e_start e) es)"
    by (metis set_append takeWhile_dropWhile_id)
  then show ?thesis by (auto simp: insert_entry_def)
qed

lemma length_insert_entry: "length (insert_entry e es) = Suc (length es)"
  unfolding insert_entry_def by (metis add_Suc_right append_Cons append_Nil length_Cons length_append takeWhile_dropWhile_id)

definition clear_of :: "vm_map_entry \<Rightarrow> vm_map_entry \<Rightarrow> bool" where
  "clear_of e x \<longleftrightarrow> e_end x \<le> e_start e \<or> e_end e \<le> e_start x"

lemma overlap_iff: "overlap m st en \<longleftrightarrow> (\<exists>e\<in>set (entries m). e_start e < en \<and> st < e_end e)"
  by (simp add: overlap_def list_ex_iff)

lemma insert_sorted:
  assumes "entries_ok es" "entry_ok e" "\<forall>x\<in>set es. clear_of e x"
  shows "entries_ok (insert_entry e es)"
  using assms
proof (induction es)
  case Nil
  then show ?case by (simp add: insert_entry_def entries_ok_def)
next
  case (Cons x es)
  have x: "entry_ok x" "clear_of e x" "\<forall>y\<in>set es. e_end x \<le> e_start y" "entries_ok es"
    using Cons.prems by (auto simp: entries_ok_def)
  show ?case
  proof (cases "e_start x < e_start e")
    case True
    then have "e_end x \<le> e_start e" using x(1,2) Cons.prems(2) by (auto simp: clear_of_def entry_ok_def)
    moreover have "entries_ok (insert_entry e es)" using Cons x(4) by simp
    moreover have "insert_entry e (x # es) = x # insert_entry e es" using True by (simp add: insert_entry_def)
    ultimately show ?thesis using x(1,3) by (auto simp: entries_ok_def set_insert_entry)
  next
    case False
    have "e_end e \<le> e_start y" if "y \<in> set (x # es)" for y
    proof -
      have "e_start x \<le> e_start y" using that x(1,3) by (auto simp: entry_ok_def)
      moreover have "e_end e \<le> e_start x" using False x(1,2) by (auto simp: clear_of_def entry_ok_def)
      ultimately show ?thesis by simp
    qed
    moreover have "insert_entry e (x # es) = e # x # es" using False by (simp add: insert_entry_def)
    ultimately show ?thesis using Cons.prems by (auto simp: entries_ok_def)
  qed
qed

lemma vm_map_fixed_cases:
  assumes "vm_map_fixed m obj off a sz prot flags k = (r, k')"
  obtains (refused) "r = -1" "kept k' = kept k"
  | (inserted) e where "r = 0" "e_start e = a" "e_end e = a + round_page sz" "e_object e = obj"
      "e_offset e = off" "e_prot e = prot" "e_flags e = flags"
      "vmaps k' = (vmaps k)(m := (vmaps k m)\<lparr>entries := insert_entry e (entries (vmaps k m)),
         nentries := nentries (vmaps k m) + 1\<rparr>)"
      "\<not> overlap (vmaps k m) a (a + round_page sz)" "round_page sz \<noteq> 0" "a AND 0xFFF = 0"
      "outside k' = outside k"
proof -
  obtain node k1 where n: "entry_alloc k = (node, k1)" by fastforce
  note v = kept_entry_alloc [OF n] keptD [OF kept_entry_alloc [OF n]]
  show thesis
  proof (cases "round_page sz = 0 \<or> a AND 0xFFF \<noteq> 0 \<or> overlap (vmaps k m) a (a + round_page sz) \<or> node = 0")
    case True
    then show thesis using assms n v by (intro refused) (auto simp: vm_map_fixed_def Let_def split: if_splits)
  next
    case False
    let ?e = "\<lparr>e_node = node, e_start = a, e_end = a + round_page sz, e_object = obj, e_offset = off,
      e_prot = prot, e_flags = flags\<rparr>"
    have "kept (vm_object_share obj k1) = kept k" using v(1) by simp
    note u = keptD [OF this]
    show thesis
      by (rule inserted [of ?e])
        (use False assms n u in \<open>auto simp: vm_map_fixed_def Let_def insert_entry_def\<close>)
  qed
qed

lemma not_overlap_clear:
  assumes "\<not> overlap m (e_start e) (e_end e)" "x \<in> set (entries m)"
  shows "clear_of e x"
  using assms by (auto simp: overlap_iff clear_of_def)

lemma maps_ok_upd: "maps_ok k \<Longrightarrow> map_ok v \<Longrightarrow> vmaps k' = (vmaps k)(m := v) \<Longrightarrow> maps_ok k'"
  by (simp add: maps_ok_def)

lemma vm_map_fixed_ok:
  assumes ok: "maps_ok k" and r: "vm_map_fixed m obj off a sz prot flags k = (r, k')"
    and fit: "unat a + unat (round_page sz) < 2 ^ 64"
  shows "maps_ok k'"
  using r
proof (cases rule: vm_map_fixed_cases)
  case refused
  then show ?thesis using ok same_maps_ok keptD(3) by blast
next
  case (inserted e)
  have "entry_ok e"
    using word_add_strict(1) [OF fit inserted(10)] aligned_add [OF inserted(11) round_page_aligned] inserted(11)
    by (simp add: entry_ok_def inserted(2,3))
  moreover have "\<forall>x\<in>set (entries (vmaps k m)). clear_of e x"
    using not_overlap_clear [of "vmaps k m" e] inserted(2,3,9) by simp
  moreover have "map_ok (vmaps k m)" using ok by (simp add: maps_ok_def)
  ultimately have "map_ok ((vmaps k m)\<lparr>entries := insert_entry e (entries (vmaps k m)),
         nentries := nentries (vmaps k m) + 1\<rparr>)"
    by (simp add: map_ok_def insert_sorted length_insert_entry)
  then show ?thesis by (rule maps_ok_upd [OF ok _ inserted(8)])
qed

section \<open>Search\<close>

lemma clear_low:
  assumes "(x :: u64) AND b = 0"
  shows "(x + b) AND NOT b = x"
proof -
  have "(x OR b) AND NOT b = x"
    using assms by (auto simp: bit_eq_iff bit_simps)
  then show ?thesis by (simp only: disjunctive_add_eq_or [OF assms])
qed

lemma round_page_id: "x AND 0xFFF = 0 \<Longrightarrow> round_page x = x"
  by (rule clear_low)

lemma round_page_bound: "unat (round_page x) \<le> unat x + 4095"
proof -
  have "unat (round_page x) \<le> unat (x + 0xFFF)" by (meson word_and_le1 word_le_nat_alt word_and_le2)
  also have "\<dots> \<le> unat x + 4095" using unat_word_ariths(1) [of x "0xFFF"] by simp
  finally show ?thesis .
qed

lemma find_candidate_Some:
  assumes "find_candidate n m cand sz = Some a" "cand AND 0xFFF = 0"
  shows "\<not> overlap m a (a + sz) \<and> a + sz \<le> max_offset m \<and> a AND 0xFFF = 0 \<and> unat a \<le> unat cand + n * 0x100000"
  using assms
proof (induction n m cand sz rule: find_candidate.induct)
  case (2 n m cand sz)
  show ?case
  proof (cases "overlap m cand (cand + sz)")
    case True
    have "(cand + 0x100000) AND 0xFFF = 0" by (rule aligned_add [OF 2(3)]) simp
    then have "\<not> overlap m a (a + sz) \<and> a + sz \<le> max_offset m \<and> a AND 0xFFF = 0 \<and>
        unat a \<le> unat (cand + 0x100000) + n * 0x100000"
      using 2(1,2) True by (auto split: if_splits)
    moreover have "unat (cand + 0x100000) \<le> unat cand + 0x100000"
      using unat_word_ariths(1) [of cand "0x100000"] by simp
    ultimately show ?thesis by auto
  next
    case False
    then show ?thesis using 2(2,3) by (auto split: if_splits)
  qed
qed simp

text \<open>The code does not look whether the end of a range wraps; these requests cannot make it do so.\<close>

definition sane_request :: "u64 \<Rightarrow> u64 \<Rightarrow> bool" where
  "sane_request a sz \<longleftrightarrow> a \<le> 2 ^ 62 \<and> round_page sz \<le> 2 ^ 62"

lemma sane_bounds:
  assumes "sane_request a sz"
  shows "unat a \<le> 2 ^ 62" "unat (round_page sz) \<le> 2 ^ 62" "unat a + unat (round_page sz) < 2 ^ 64"
proof -
  show a: "unat a \<le> 2 ^ 62" and b: "unat (round_page sz) \<le> 2 ^ 62"
    using assms by (simp_all add: sane_request_def word_le_nat_alt)
  show "unat a + unat (round_page sz) < 2 ^ 64" using a b by simp
qed

text \<open>The search succeeds only through \<^verbatim>\<open>vm_map_fixed\<close>, at an address that does not wrap.\<close>

lemma vm_map_find_cases:
  assumes "vm_map_find m obj off hint sz prot flags k = (r, va, k')"
    "sane_request hint sz" "map_ok (vmaps k m)"
  obtains (none) "r = -1" "k' = k"
  | (tried) "vm_map_fixed m obj off va (round_page sz) prot flags k = (r, k')"
      "unat va + unat (round_page sz) < 2 ^ 64" "va + round_page sz \<le> max_offset (vmaps k m)"
      "unat va + unat (round_page sz) \<le> 2 ^ 63 + 2 ^ 62"
proof -
  define base where "base = (let c = (if hint \<noteq> 0 then hint else 0x70000000)
    in if c < min_offset (vmaps k m) then min_offset (vmaps k m) else c)"
  have "base \<le> 2 ^ 62" using assms(2,3) by (auto simp: base_def Let_def sane_request_def map_ok_def)
  then have b: "unat (round_page base) \<le> 2 ^ 62 + 4095"
    using round_page_bound [of base] by (simp add: word_le_nat_alt)
  have eq: "vm_map_find m obj off hint sz prot flags k =
      (if round_page sz = 0 then (-1, hint, k)
       else case find_candidate 100 (vmaps k m) (round_page base) (round_page sz) of
         None \<Rightarrow> (-1, hint, k)
       | Some a \<Rightarrow> (case vm_map_fixed m obj off a (round_page sz) prot flags k of (r, k) \<Rightarrow> (r, a, k)))"
    unfolding vm_map_find_def base_def Let_def by (rule refl)
  show thesis
  proof (cases "round_page sz = 0")
    case True
    then show thesis using assms(1) unfolding eq by (intro none) auto
  next
    case False
    show thesis
    proof (cases "find_candidate 100 (vmaps k m) (round_page base) (round_page sz)")
      case None
      then show thesis using assms(1) False unfolding eq by (intro none) auto
    next
      case (Some a)
      note c = find_candidate_Some [OF Some round_page_aligned]
      have "unat a + unat (round_page sz) < 2 ^ 64" "unat a + unat (round_page sz) \<le> 2 ^ 63 + 2 ^ 62"
        using c b sane_bounds(2) [OF assms(2)] by simp_all
      then show thesis using assms(1) Some False c unfolding eq
        by (intro tried) (auto split: prod.splits)
    qed
  qed
qed

lemma round_page_twice [simp]: "round_page (round_page x) = round_page x"
  by (rule round_page_id [OF round_page_aligned])

lemma vm_map_find_ok:
  assumes "maps_ok k" "vm_map_find m obj off hint sz prot flags k = (r, va, k')" "sane_request hint sz"
  shows "maps_ok k'"
proof -
  have "map_ok (vmaps k m)" using assms(1) by (simp add: maps_ok_def)
  from assms(2,3) this show ?thesis
  proof (cases rule: vm_map_find_cases)
    case none
    then show ?thesis using assms(1) by simp
  next
    case tried
    then show ?thesis using vm_map_fixed_ok [OF assms(1) tried(1)] by (simp only: round_page_twice)
  qed
qed

section \<open>Removal and protection\<close>

definition inside :: "u64 \<Rightarrow> u64 \<Rightarrow> vm_map_entry \<Rightarrow> bool" where
  "inside st en e \<longleftrightarrow> st \<le> e_start e \<and> e_end e \<le> en"

lemma remove_entries_filter:
  assumes "remove_entries st en es k = (es', k')"
  shows "es' = filter (\<lambda>e. \<not> inside st en e) es \<and> kept k' = kept k"
  using assms
proof (induction es arbitrary: k es' k')
  case (Cons e es)
  show ?case
  proof (cases "inside st en e")
    case True
    define k1 where "k1 = entry_free (e_node e) (if e_object e \<noteq> 0 then vm_object_destroy (e_object e) k else k)"
    have "remove_entries st en es k1 = (es', k')"
      using Cons.prems True by (simp add: inside_def Let_def k1_def)
    moreover have "kept k1 = kept k" by (simp add: k1_def)
    ultimately show ?thesis using Cons.IH [of k1 es' k'] True by simp
  next
    case False
    obtain fs k1 where r: "remove_entries st en es k = (fs, k1)" by fastforce
    then show ?thesis using Cons.prems Cons.IH [OF r] False by (auto simp: inside_def)
  qed
qed simp

lemma vm_map_remove_entries:
  assumes "vm_map_remove m st en k = (r, k')"
  shows "r = 0 \<and> outside k' = outside k \<and>
    vmaps k' = (vmaps k)(m := (vmaps k m)\<lparr>entries := filter (\<lambda>e. \<not> inside st en e) (entries (vmaps k m)),
      nentries := nentries (vmaps k m) -
        int (length (entries (vmaps k m)) - length (filter (\<lambda>e. \<not> inside st en e) (entries (vmaps k m))))\<rparr>)"
proof -
  obtain fs k1 where r: "remove_entries st en (entries (vmaps k m)) k = (fs, k1)" by fastforce
  note f = remove_entries_filter [OF r]
  show ?thesis using assms r f keptD [of k1 k] by (auto simp: vm_map_remove_def)
qed

lemma entries_ok_filter: "entries_ok es \<Longrightarrow> entries_ok (filter P es)"
  by (simp add: entries_ok_def list_all_iff sorted_wrt_filter)

lemma vm_map_remove_ok:
  assumes "maps_ok k" "vm_map_remove m st en k = (r, k')"
  shows "maps_ok k'"
proof -
  have "map_ok (vmaps k m)" using assms(1) by (simp add: maps_ok_def)
  then show ?thesis using vm_map_remove_entries [OF assms(2)]
    by (intro maps_ok_upd [OF assms(1)]) (auto simp: map_ok_def entries_ok_filter)
qed

lemma vm_map_protect_ok:
  assumes "maps_ok k" "vm_map_protect m st en prot k = (r, k')"
  shows "maps_ok k'" "outside k' = outside k"
proof -
  let ?f = "\<lambda>e. if e_start e < en \<and> st < e_end e then e\<lparr>e_prot := prot\<rparr> else e"
  have "entries_ok (map ?f es) = entries_ok es" for es by (rule entries_ok_map) auto
  moreover have "map_ok (vmaps k m)" using assms(1) by (simp add: maps_ok_def)
  ultimately show "maps_ok k'"
    using assms by (auto simp: maps_ok_def map_ok_def vm_map_protect_def)
  show "outside k' = outside k" using assms(2) by (auto simp: vm_map_protect_def)
qed

section \<open>The calls of a process\<close>

text \<open>\<open>k'\<close> is \<open>k\<close> with the entry \<open>e\<close> added to the map \<open>m\<close>, up to the object behind \<open>e\<close>.\<close>

definition entry_added :: "addr \<Rightarrow> vm_map_entry \<Rightarrow> kernel \<Rightarrow> kernel \<Rightarrow> bool" where
  "entry_added m e k k' \<longleftrightarrow> outside k' = outside k \<and> entry_ok e \<and>
    (\<forall>x\<in>set (entries (vmaps k m)). clear_of e x) \<and>
    same_shape ((vmaps k m)\<lparr>entries := insert_entry e (entries (vmaps k m)), nentries := nentries (vmaps k m) + 1\<rparr>)
      (vmaps k' m) \<and>
    list_all2 (touched (e_start e) (e_end e)) (insert_entry e (entries (vmaps k m))) (entries (vmaps k' m)) \<and>
    (\<forall>m'. m' \<noteq> m \<longrightarrow> vmaps k' m' = vmaps k m')"

lemma kept_added_left: "kept k1 = kept k \<Longrightarrow> entry_added m e k k' \<Longrightarrow> entry_added m e k1 k'"
  by (simp add: entry_added_def kept_def)

lemma same_off_added: "entry_added m e k k1 \<Longrightarrow> same_off m (e_start e) (e_end e) k1 k' \<Longrightarrow> entry_added m e k k'"
  unfolding entry_added_def same_off_def same_maps_def
  by (auto intro: same_shape_trans touched_all_trans)

lemma entry_added_ok:
  assumes "maps_ok k" "entry_added m e k k'"
  shows "maps_ok k'"
  unfolding maps_ok_def
proof
  fix m'
  let ?v = "(vmaps k m)\<lparr>entries := insert_entry e (entries (vmaps k m)), nentries := nentries (vmaps k m) + 1\<rparr>"
  have "map_ok (vmaps k m'')" for m'' using assms(1) by (simp add: maps_ok_def)
  moreover from this [of m] have "map_ok ?v"
    using assms(2) by (simp add: map_ok_def insert_sorted length_insert_entry entry_added_def)
  ultimately show "map_ok (vmaps k' m')"
    using assms(2) same_shape_ok unfolding entry_added_def by (cases "m' = m") (blast, simp)
qed

lemma vm_map_fixed_added:
  assumes "vm_map_fixed m obj off a sz prot flags k = (r, k')" "unat a + unat (round_page sz) < 2 ^ 64" "r \<ge> 0"
  obtains e where "e_start e = a" "e_end e = a + round_page sz" "e_prot e = prot" "e_flags e = flags"
    "entry_added m e k k'"
  using assms(1)
proof (cases rule: vm_map_fixed_cases)
  case refused
  then show thesis using assms(3) by simp
next
  case (inserted e)
  have "entry_ok e"
    using word_add_strict(1) [OF assms(2) inserted(10)] aligned_add [OF inserted(11) round_page_aligned] inserted(11)
    by (simp add: entry_ok_def inserted(2,3))
  moreover have "\<forall>x\<in>set (entries (vmaps k m)). clear_of e x"
    using not_overlap_clear [of "vmaps k m" e] inserted(2,3,9) by simp
  ultimately have "entry_added m e k k'" using inserted(8,12) by (simp add: entry_added_def list_all2_same)
  then show thesis by (rule that [OF inserted(2,3,6,7)])
qed

lemma vm_map_fixed_failed:
  assumes "vm_map_fixed m obj off a sz prot flags k = (r, k')" "r < 0"
  shows "same_maps k k'"
  using assms(1) by (cases rule: vm_map_fixed_cases) (use assms(2) keptD(3) in auto)

text \<open>Removing the range of an added entry takes out that entry and no other.\<close>

lemma filter_insert_entry:
  assumes "entries_ok es" "entry_ok e" "\<forall>x\<in>set es. clear_of e x"
  shows "filter (\<lambda>x. \<not> inside (e_start e) (e_end e) x) (insert_entry e es) = es"
proof -
  have "\<not> inside (e_start e) (e_end e) x" if "x \<in> set es" for x
  proof -
    have "e_start x < e_end x" using assms(1) that by (simp add: entries_ok_def list_all_iff entry_ok_def)
    moreover have "clear_of e x" using assms(3) that by blast
    ultimately show ?thesis by (auto simp: inside_def clear_of_def)
  qed
  then have "filter (\<lambda>x. \<not> inside (e_start e) (e_end e) x) xs = xs" if "set xs \<subseteq> set es" for xs
    using that by (auto intro: filter_True)
  moreover have "set (takeWhile P es) \<subseteq> set es" "set (dropWhile P es) \<subseteq> set es" for P
    by (auto dest: set_takeWhileD intro: set_dropWhileD)
  moreover have "inside (e_start e) (e_end e) e" by (simp add: inside_def)
  ultimately show ?thesis by (simp add: insert_entry_def)
qed

lemma touched_filter:
  assumes "list_all2 (touched st en) xs ys"
  shows "list_all2 (touched st en) (filter (\<lambda>x. \<not> inside st en x) xs) (filter (\<lambda>x. \<not> inside st en x) ys)"
  using assms by (induction rule: list_all2_induct) (auto simp: inside_def dest: touched_bounds)

lemma touched_clear:
  assumes "list_all2 (touched (e_start e) (e_end e)) xs ys" "entries_ok xs" "\<forall>x\<in>set xs. clear_of e x"
  shows "ys = xs"
proof (rule nth_equalityI)
  show "length ys = length xs" using assms(1) by (simp add: list_all2_lengthD)
  fix i assume i: "i < length ys"
  then have x: "xs ! i \<in> set xs" using list_all2_lengthD [OF assms(1)] by simp
  have "touched (e_start e) (e_end e) (xs ! i) (ys ! i)" using assms(1) i by (simp add: list_all2_conv_all_nth)
  moreover have "clear_of e (xs ! i)" using assms(3) x by blast
  ultimately show "ys ! i = xs ! i" by (auto simp: touched_def clear_of_def)
qed

lemma remove_added:
  assumes ok: "maps_ok k" and add: "entry_added m e k k1"
    and r: "vm_map_remove m (e_start e) (e_end e) k1 = (r, k2)"
  shows "vmaps k2 = vmaps k" "same_maps k k2"
proof -
  define es where "es = entries (vmaps k m)"
  define fs where "fs = entries (vmaps k1 m)"
  define gs where "gs = filter (\<lambda>x. \<not> inside (e_start e) (e_end e) x) fs"
  note r2 = vm_map_remove_entries [OF r, folded fs_def, folded gs_def]
  have es: "entries_ok es" using ok by (simp add: es_def maps_ok_def map_ok_def)
  have fs: "list_all2 (touched (e_start e) (e_end e)) (insert_entry e es) fs" and clr: "\<forall>x\<in>set es. clear_of e x"
    and e: "entry_ok e" using add by (simp_all add: entry_added_def es_def fs_def)
  have gs: "gs = es"
    using touched_filter [OF fs] unfolding filter_insert_entry [OF es e clr] gs_def [symmetric]
    by (rule touched_clear [OF _ es clr])
  have len: "length fs = Suc (length es)" using list_all2_lengthD [OF fs] by (simp add: length_insert_entry)
  have "vmaps k2 m' = vmaps k m'" for m'
    using add r2 gs len unfolding entry_added_def same_shape_def
    by (cases "m' = m") (auto simp: es_def)
  then show "vmaps k2 = vmaps k" by (rule ext)
  then show "same_maps k k2" using add r2 by (simp add: same_maps_def entry_added_def)
qed

lemma process_current_outside: "outside k' = outside k \<Longrightarrow> process_current k' = process_current k"
  by (simp add: outside_def process_current_def)

lemma map_of_current_outside: "outside k' = outside k \<Longrightarrow> vm_map_ptr (pcb_table k' c) = vm_map_ptr (pcb_table k c)"
  by (simp add: outside_def)

lemma mmap_object_kept:
  assumes "(if flags AND MAP_ANON \<noteq> 0 then
      case vm_object_create sz k of (obj, k) \<Rightarrow> (if obj = 0 then None else Some obj, k)
    else (Some 0, k)) = (obj, k')"
  shows "kept k' = kept k"
  using assms by (auto split: prod.splits if_splits dest!: kept_object_create)

text \<open>Placing the object of a mapping: either nothing is added to the map, or one entry over the range.\<close>

lemma mmap_place_cases:
  assumes "(if flags AND MAP_FIXED \<noteq> 0 then case vm_map_fixed m obj 0 a (round_page sz) prot flags k of (r, k) \<Rightarrow> (r, a, k)
      else vm_map_find m obj 0 a (round_page sz) prot flags k) = (r, va, k')"
    "maps_ok k" "sane_request a sz"
  obtains (refused) "r < 0" "same_maps k k'"
  | (placed) e where "r \<ge> 0" "e_start e = va" "e_end e = va + round_page sz" "e_prot e = prot" "e_flags e = flags"
      "entry_added m e k k'" "flags AND MAP_FIXED \<noteq> 0 \<longrightarrow> va = a"
      "flags AND MAP_FIXED = 0 \<longrightarrow> va + round_page sz \<le> max_offset (vmaps k m)"
      "unat va + unat (round_page sz) \<le> 2 ^ 63 + 2 ^ 62"
proof (cases "flags AND MAP_FIXED \<noteq> 0")
  case True
  then have f: "vm_map_fixed m obj 0 a (round_page sz) prot flags k = (r, k')" and [simp]: "va = a"
    using assms(1) by (auto split: prod.splits)
  show thesis
  proof (cases "r < 0")
    case True
    then show thesis using vm_map_fixed_failed [OF f] by (intro refused)
  next
    case False
    then have "r \<ge> 0" by simp
    with f sane_bounds(3) [OF assms(3)] obtain e where "e_start e = a" "e_end e = a + round_page sz"
      "e_prot e = prot" "e_flags e = flags" "entry_added m e k k'"
      by (elim vm_map_fixed_added) (simp_all only: round_page_twice)
    then show thesis using placed [of e] \<open>flags AND MAP_FIXED \<noteq> 0\<close> \<open>r \<ge> 0\<close> sane_bounds(1,2) [OF assms(3)] by simp
  qed
next
  case False
  then have f: "vm_map_find m obj 0 a (round_page sz) prot flags k = (r, va, k')" using assms(1) by simp
  have m: "map_ok (vmaps k m)" using assms(2) by (simp add: maps_ok_def)
  have "sane_request a (round_page sz)" using assms(3) by (simp only: sane_request_def round_page_twice)
  from f this m show thesis
  proof (cases rule: vm_map_find_cases)
    case none
    then show thesis by (intro refused) simp_all
  next
    case tried
    note t = tried [unfolded round_page_twice]
    show thesis
    proof (cases "r < 0")
      case True
      then show thesis using vm_map_fixed_failed [OF t(1)] by (intro refused)
    next
      case False
      then have "r \<ge> 0" by simp
      with t(1,2) obtain e where "e_start e = va" "e_end e = va + round_page sz"
        "e_prot e = prot" "e_flags e = flags" "entry_added m e k k'"
        by (elim vm_map_fixed_added) (simp_all only: round_page_twice)
      then show thesis using placed [of e] t(3,4) \<open>\<not> flags AND MAP_FIXED \<noteq> 0\<close> \<open>r \<ge> 0\<close> by simp
    qed
  qed
qed

lemma vm_mmap_eq:
  assumes "process_current k = Some cur" "z = round_page sz" "m = vm_map_ptr (pcb_table k cur)"
  shows "vm_mmap a sz prot flags k =
    (if m = 0 then (-1, a, k) else if z = 0 then (-1, a, k)
     else case (if flags AND MAP_ANON \<noteq> 0 then
            case vm_object_create z k of (obj, k) \<Rightarrow> (if obj = 0 then None else Some obj, k)
          else (Some 0, k)) of
       (None, k) \<Rightarrow> (-1, a, k)
     | (Some obj, k) \<Rightarrow>
         case (if flags AND MAP_FIXED \<noteq> 0 then case vm_map_fixed m obj 0 a z prot flags k of (r, k) \<Rightarrow> (r, a, k)
               else vm_map_find m obj 0 a z prot flags k) of (r, va, k) \<Rightarrow>
           if r < 0 then (-1, a, vm_object_destroy obj k)
           else case vm_map_wire m va z (pml4 (pcb_table k cur)) k of (r, k) \<Rightarrow>
             if r < 0 then (-1, a, snd (vm_map_remove m va (va + z) k)) else (0, va, k))"
  unfolding vm_mmap_def Let_def assms option.case by (rule refl)

lemma vm_mmap_cases:
  assumes r: "vm_mmap a sz prot flags k = (r, va, k')" and ok: "maps_ok k" and sane: "sane_request a sz"
  obtains (failed) "r = -1" "same_maps k k'"
  | (mapped) cur e where "r = 0" "process_current k = Some cur" "vm_map_ptr (pcb_table k cur) \<noteq> 0"
      "e_start e = va" "e_end e = va + round_page sz" "e_prot e = prot" "e_flags e = flags"
      "entry_added (vm_map_ptr (pcb_table k cur)) e k k'" "flags AND MAP_FIXED \<noteq> 0 \<longrightarrow> va = a"
      "flags AND MAP_FIXED = 0 \<longrightarrow> va + round_page sz \<le> max_offset (vmaps k (vm_map_ptr (pcb_table k cur)))"
      "unat va + unat (round_page sz) \<le> 2 ^ 63 + 2 ^ 62"
proof (cases "process_current k")
  case None
  then show thesis using r by (intro failed) (auto simp: vm_mmap_def)
next
  case (Some cur)
  define m z where "m = vm_map_ptr (pcb_table k cur)" and "z = round_page sz"
  note eq = vm_mmap_eq [OF Some z_def m_def]
  show thesis
  proof (cases "m = 0 \<or> z = 0")
    case True
    then have "vm_mmap a sz prot flags k = (-1, a, k)"
      unfolding eq by (cases "m = 0") (simp_all only: if_True if_False simp_thms)
    then show thesis using r by (intro failed) auto
  next
    case False
    obtain obj k1 where o: "(if flags AND MAP_ANON \<noteq> 0 then
        case vm_object_create z k of (obj, k) \<Rightarrow> (if obj = 0 then None else Some obj, k)
      else (Some 0, k)) = (obj, k1)" by fastforce
    note k1 = keptD [OF mmap_object_kept [OF o]]
    have ok1: "maps_ok k1" using ok same_maps_ok [OF k1(3)] by simp
    show thesis
    proof (cases obj)
      case None
      then show thesis using r False k1(3) unfolding eq o by (intro failed) auto
    next
      case (Some ob)
      obtain r2 v2 k2 where p: "(if flags AND MAP_FIXED \<noteq> 0 then
          case vm_map_fixed m ob 0 a z prot flags k1 of (r, k) \<Rightarrow> (r, a, k)
        else vm_map_find m ob 0 a z prot flags k1) = (r2, v2, k2)" by (metis prod_cases3)
      obtain r3 k3 where w: "vm_map_wire m v2 z (pml4 (pcb_table k2 cur)) k2 = (r3, k3)" by fastforce
      have e: "(if r2 < 0 then (-1, a, vm_object_destroy ob k2)
          else if r3 < 0 then (-1, a, snd (vm_map_remove m v2 (v2 + z) k3)) else (0, v2, k3)) = (r, va, k')"
        using r False unfolding eq o Some by (auto simp: p w split: if_splits)
      from p [unfolded z_def] ok1 sane show thesis
      proof (cases rule: mmap_place_cases)
        case refused
        have "same_maps k2 k'" using e refused(1) keptD(3) [of "vm_object_destroy ob k2" k2] by auto
        with refused k1(3) have "same_maps k k'" by (blast intro: same_maps_trans)
        then show thesis using e refused(1) by (intro failed) auto
      next
        case (placed en)
        have se: "e_start en = v2" "e_end en = v2 + z" using placed(2,3) by (simp_all add: z_def)
        have add: "entry_added m en k1 k3"
          by (rule same_off_added [OF placed(6)]) (use vm_map_wire_same [OF w] se in simp)
        show thesis
        proof (cases "r3 < 0")
          case True
          obtain r4 k4 where rem: "vm_map_remove m v2 (v2 + z) k3 = (r4, k4)" by fastforce
          have "same_maps k1 k4" by (rule remove_added(2) [OF ok1 add]) (use rem se in simp)
          then have "same_maps k k4" by (rule same_maps_trans [OF k1(3)])
          then show thesis using e placed(1) True rem by (intro failed) auto
        next
          case False
          then have "v2 = va" "k3 = k'" "r = 0" using e placed(1) by auto
          moreover have "entry_added m en k k3" by (rule kept_added_left [OF mmap_object_kept [OF o, symmetric] add])
          ultimately show thesis
            using mapped [of cur en] \<open>process_current k = Some cur\<close> \<open>\<not> (m = 0 \<or> z = 0)\<close> placed se k1(1)
            by (simp add: m_def z_def)
        qed
      qed
    qed
  qed
qed

text \<open>A walk leaves the maps alone, and it returns when its range ends before the last 2 MB.\<close>

lemma kept_walk_current: "walk_current fn p4 st en k = Some k' \<Longrightarrow> kept k' = kept k"
  by (auto simp: walk_current_def)

lemma walk_chunks_return:
  assumes "unat en + 0x200000 \<le> 2 ^ 64"
  shows "\<exists>r s'. walk_chunks fn p4 st en c s = Some (r, s')"
proof (induction "unat en - unat c" arbitrary: c s rule: less_induct)
  case less
  obtain r s1 where w: "walk_chunk fn p4 st en c s = (r, s1)" by fastforce
  show ?case
  proof (cases "c < en \<and> r \<ge> 0")
    case True
    then have "unat c + 0x200000 < 2 ^ 64" using assms by (simp add: word_less_nat_alt)
    then have "unat (c + 0x200000) = unat c + 0x200000" by (subst unat_add_lem [THEN iffD1]) simp_all
    then have "unat en - unat (c + 0x200000) < unat en - unat c"
      using True by (intro diff_less_mono2) (simp_all add: word_less_nat_alt)
    from less [OF this, of s1] show ?thesis using True w by (subst walk_chunks.simps) simp
  next
    case False
    then show ?thesis using w by (subst walk_chunks.simps) auto
  qed
qed

lemma walk_current_returns:
  assumes "unat en + 0x200000 \<le> 2 ^ 64"
  shows "\<exists>k'. walk_current fn p4 st en k = Some k'"
  using walk_chunks_return [OF assms, of fn p4 st "base2m st" "heap k"]
  by (auto simp: walk_current_def pml4_walk_ptes_def)

definition munmap_freed :: "addr \<Rightarrow> u64 \<Rightarrow> u64 \<Rightarrow> kernel \<Rightarrow> kernel" where
  "munmap_freed m a en k = fold (munmap_entry m a en) [0..<length (entries (vmaps k m))] k"

lemma vm_munmap_eq:
  assumes "process_current k = Some cur" "m = vm_map_ptr (pcb_table k cur)" "m \<noteq> 0" "z = round_page sz" "z \<noteq> 0"
  shows "vm_munmap a sz k = map_option (\<lambda>k. (0, snd (vm_map_remove m a (a + z) k)))
    (walk_current pte_clear (pml4 (pcb_table (munmap_freed m a (a + z) k) cur)) a (a + z) (munmap_freed m a (a + z) k))"
proof -
  have "vm_munmap a sz k = (if m = 0 then Some (-1, k) else if z = 0 then Some (0, k)
    else map_option (\<lambda>k. (0, snd (vm_map_remove m a (a + z) k)))
      (walk_current pte_clear (pml4 (pcb_table (munmap_freed m a (a + z) k) cur)) a (a + z) (munmap_freed m a (a + z) k)))"
    unfolding vm_munmap_def Let_def assms(1,2,4) option.case munmap_freed_def by (rule refl)
  then show ?thesis using assms(3,5) by simp
qed

lemma vm_munmap_current:
  assumes "process_current k = Some cur" "m = vm_map_ptr (pcb_table k cur)" "m \<noteq> 0" "round_page sz \<noteq> 0"
    "vm_munmap a sz k = Some (r, k')"
  obtains k1 where "same_off m a (a + round_page sz) k k1" "r = 0"
    "k' = snd (vm_map_remove m a (a + round_page sz) k1)"
proof -
  let ?z = "round_page sz"
  let ?k0 = "munmap_freed m a (a + ?z) k"
  obtain k1 where k1: "walk_current pte_clear (pml4 (pcb_table ?k0 cur)) a (a + ?z) ?k0 = Some k1"
      "r = 0" "k' = snd (vm_map_remove m a (a + ?z) k1)"
    using assms(5) unfolding vm_munmap_eq [OF assms(1-3) refl assms(4)] by auto
  have "same_off m a (a + ?z) k ?k0" unfolding munmap_freed_def by (rule munmap_entries_same) simp
  from same_off_trans [OF this same_off_kept [OF kept_walk_current [OF k1(1)]]] k1(2,3) show thesis by (rule that)
qed

lemma vm_munmap_returns:
  assumes "process_current k = Some cur" "vm_map_ptr (pcb_table k cur) \<noteq> 0" "round_page sz \<noteq> 0"
    "unat (a + round_page sz) + 0x200000 \<le> 2 ^ 64"
  shows "\<exists>k'. vm_munmap a sz k = Some (0, k')"
  unfolding vm_munmap_eq [OF assms(1) refl assms(2) refl assms(3)] using walk_current_returns [OF assms(4)] by fastforce

lemma vm_munmap_idle:
  assumes "process_current k = None \<or> vm_map_ptr (pcb_table k (the (process_current k))) = 0 \<or> round_page sz = 0"
    "vm_munmap a sz k = Some (r, k')"
  shows "k' = k"
  using assms unfolding vm_munmap_def by (cases "process_current k") (auto simp: Let_def split: if_splits)

lemma vm_munmap_ok:
  assumes "maps_ok k" "vm_munmap a sz k = Some (r, k')"
  shows "maps_ok k'"
proof (cases "process_current k = None \<or> vm_map_ptr (pcb_table k (the (process_current k))) = 0 \<or> round_page sz = 0")
  case True
  then show ?thesis using assms(1) vm_munmap_idle [OF True assms(2)] by simp
next
  case False
  then obtain cur where c: "process_current k = Some cur" by auto
  from False have "vm_map_ptr (pcb_table k cur) \<noteq> 0" "round_page sz \<noteq> 0" by (simp_all only: c option.sel) auto
  from vm_munmap_current [OF c refl this assms(2)] obtain k1 where
    k1: "same_maps k k1" "k' = snd (vm_map_remove (vm_map_ptr (pcb_table k cur)) a (a + round_page sz) k1)"
    using same_offD by metis
  have "maps_ok k1" using same_maps_ok [OF k1(1)] assms(1) by simp
  from vm_map_remove_ok [OF this surjective_pairing] show ?thesis unfolding k1(2) .
qed

lemma vm_mprotect_ok:
  assumes "maps_ok k" "vm_mprotect a sz prot k = Some (r, k')"
  shows "maps_ok k'"
proof -
  have p: "maps_ok (snd (vm_map_protect m st en prot k))" for m st en
    by (rule vm_map_protect_ok(1) [OF assms(1) surjective_pairing])
  have "maps_ok k2" if "walk_current fn p4 st' en' (snd (vm_map_protect m st en prot k)) = Some k2" for k2 m st en fn p4 st' en'
    using p same_maps_ok [OF keptD(3) [OF kept_walk_current [OF that]]] by blast
  then show ?thesis using assms p
    by (auto simp: vm_mprotect_def Let_def case_prod_beta split: option.splits if_splits)
qed

lemma aligned_diff:
  assumes "(x :: u64) AND 0xFFF = 0" "y AND 0xFFF = 0" "y < x"
  shows "(x - y) AND 0xFFF = 0"
proof -
  have "unat (x - y) = unat x - unat y" using assms(3) by (simp add: unat_sub word_less_nat_alt word_le_nat_alt)
  then show ?thesis using assms(1,2) by (simp add: aligned_mod mod_eq_0_iff_dvd)
qed

lemma entry_ok_range:
  assumes "entry_ok e"
  shows "round_page (e_end e - e_start e) = e_end e - e_start e"
    "unat (e_start e) + unat (e_end e - e_start e) < 2 ^ 64"
proof -
  show "round_page (e_end e - e_start e) = e_end e - e_start e"
    using assms by (intro round_page_id aligned_diff) (auto simp: entry_ok_def)
  have "unat (e_end e - e_start e) = unat (e_end e) - unat (e_start e)"
    using assms by (simp add: entry_ok_def unat_sub word_less_nat_alt word_le_nat_alt)
  then show "unat (e_start e) + unat (e_end e - e_start e) < 2 ^ 64"
    using assms unat_u64_less [of "e_end e"] by (simp add: entry_ok_def word_less_nat_alt)
qed

lemma vm_map_copy_ok:
  assumes "maps_ok k"
  shows "maps_ok (vm_map_copy_to dst src k)"
proof -
  have "maps_ok (vm_map_copy_entries es dst k)" if "list_all entry_ok es" "maps_ok k" for es k
    using that
  proof (induction es arbitrary: k)
    case (Cons e es)
    let ?k1 = "snd (vm_map_fixed dst 0 0 (e_start e) (e_end e - e_start e) (e_prot e) (e_flags e) k)"
    have e: "entry_ok e" "e_start e < e_end e" using Cons.prems(1) by (auto simp: entry_ok_def)
    have "maps_ok ?k1"
      by (rule vm_map_fixed_ok [OF Cons.prems(2) surjective_pairing]) (simp only: entry_ok_range [OF e(1)])
    then show ?case using Cons.IH [of ?k1] Cons.prems e(2) by (auto simp: Let_def)
  qed simp
  moreover have "list_all entry_ok (entries (vmaps k src))"
    using assms by (simp add: maps_ok_def map_ok_def entries_ok_def)
  ultimately show ?thesis using assms by (simp add: vm_map_copy_to_def)
qed

lemma vm_map_init_ok:
  assumes "maps_ok k" "mn \<le> 2 ^ 62"
  shows "maps_ok (vm_map_init m mn mx k)"
  using assms by (simp add: maps_ok_def map_ok_def vm_map_init_def entries_ok_def)

end
