(* ===== verification/PagingProps.thy ===== *)
theory PagingProps
  imports VmMapInv BuddyProps
begin

text \<open>
  Splitting a 2 MB mapping. \<open>translate\<close> is the hardware's walk of the four levels of tables; the split
  replaces one entry of a page directory by a table of 512 entries and must not change what the walk
  finds.
\<close>

section \<open>The walk\<close>

text \<open>Physical address and access bits behind a virtual address. The bits above the address that an entry
  carries (the no-execute bit) stay in the first component.\<close>

definition translate :: "kheap \<Rightarrow> addr \<Rightarrow> u64 \<Rightarrow> (u64 \<times> u64) option" where
  "translate s p4 va =
    (if \<not> present (rd s p4 (pml4_index va)) then None
     else let pdpt = base4k (rd s p4 (pml4_index va)) in
     if \<not> present (rd s pdpt (pdpt_index va)) then None
     else let pd = base4k (rd s pdpt (pdpt_index va)); pde = rd s pd (pd_index va) in
     if \<not> present pde then None
     else if huge pde then Some (base2m pde + (va AND 0x1FFFFF), pde AND 0x1FF AND NOT 0x80)
     else let pte = rd s (base4k pde) (pt_index va) in
     if \<not> present pte then None else Some (base4k pte + (va AND 0xFFF), pte AND 0x1FF AND NOT 0x80))"

section \<open>Bits\<close>

lemma split_low:
  assumes "(t :: u64) AND b = 0" "x AND NOT b = 0"
  shows "t + x = t OR x" "(t + x) AND NOT b = t" "(t + x) AND b = x"
proof -
  have "t AND x = 0" using assms by (auto simp: bit_eq_iff bit_simps)
  then show o: "t + x = t OR x" by (rule disjunctive_add_eq_or)
  show "(t + x) AND NOT b = t" "(t + x) AND b = x"
    unfolding o using assms by (auto simp: bit_eq_iff bit_simps)
qed

lemma mask_consts: "(0xFFF :: u64) = mask 12" "(0x1FF :: u64) = mask 9" "(0x1FFFFF :: u64) = mask 21"
  by (simp_all add: mask_eq_exp_minus_1)

definition index_ok :: "u64 \<Rightarrow> bool" where
  "index_ok i \<longleftrightarrow> i AND NOT 0x1FF = 0"

lemma index_ok_intros [simp]:
  "index_ok (pml4_index va)" "index_ok (pdpt_index va)" "index_ok (pd_index va)" "index_ok (pt_index va)"
  by (simp_all add: index_ok_def pml4_index_def pdpt_index_def pd_index_def pt_index_def and.assoc)

lemma index_ok_of_nat: "i < 512 \<Longrightarrow> index_ok (of_nat i)"
proof -
  assume "i < 512"
  then have "take_bit 9 (of_nat i :: u64) = of_nat i"
    by (simp add: take_bit_of_nat take_bit_nat_eq_self)
  then have "(of_nat i :: u64) AND mask 9 = of_nat i" by (simp add: take_bit_eq_mask)
  then have "(of_nat i :: u64) AND NOT (mask 9) = 0" by (metis and.assoc and.right_idem bit.conj_cancel_right and_zero_eq)
  then show "index_ok (of_nat i)" unfolding index_ok_def mask_consts .
qed

lemma index_low: "index_ok i \<Longrightarrow> 8 * i AND NOT 0xFFF = 0"
proof -
  assume "index_ok i"
  then have a: "i AND NOT (mask 9) = 0" by (simp only: index_ok_def mask_consts)
  have "push_bit 3 i AND NOT (mask 12) = 0"
  proof (rule bit_eqI)
    fix n
    have "\<not> bit i (n - 3)" if "\<not> n < 12" using arg_cong [OF a, of "\<lambda>x. bit x (n - 3)"] that
      by (auto simp: bit_simps dest: bit_imp_le_length)
    then show "bit (push_bit 3 i AND NOT (mask 12)) n = bit (0 :: u64) n" by (auto simp: bit_simps)
  qed
  moreover have "8 * i = push_bit 3 i" by (simp add: push_bit_eq_mult)
  ultimately show ?thesis by (simp only: mask_consts)
qed

lemma entry_page_at:
  assumes "t AND 0xFFF = 0" "index_ok i"
  shows "base4k (entry_at t i) = t" "entry_at t i AND 0xFFF = 8 * i"
  using split_low(2,3) [OF assms(1) index_low [OF assms(2)]] by (simp_all only: entry_at_def)

lemma page_words_apart:
  assumes "t AND 0xFFF = 0" "u AND 0xFFF = 0" "index_ok i" "index_ok j" "t \<noteq> u"
  shows "entry_at t i \<noteq> entry_at u j"
  using entry_page_at(1) [OF assms(1,3)] entry_page_at(1) [OF assms(2,4)] assms(5) by metis

lemma index_less:
  assumes "index_ok i"
  shows "unat i < 512"
proof -
  have "x AND b = x" if "(x :: u64) AND NOT b = 0" for x b using that by (auto simp: bit_eq_iff bit_simps)
  from this [of i "0x1FF"] have "i AND 0x1FF = i" using assms by (simp add: index_ok_def)
  then have "i \<le> 0x1FF" by (metis word_and_le1)
  then show ?thesis by (simp add: word_le_nat_alt)
qed

lemma entry_at_inj: "index_ok i \<Longrightarrow> index_ok j \<Longrightarrow> entry_at t i = entry_at t j \<longleftrightarrow> i = j"
proof
  assume "index_ok i" "index_ok j" "entry_at t i = entry_at t j"
  then have "8 * i = 8 * j" "unat i < 512" "unat j < 512" by (auto simp: entry_at_def index_less)
  moreover have "unat (8 * x) = 8 * unat x" if "unat x < 512" for x :: u64
    using that by (simp add: unat_word_ariths)
  ultimately have "unat i = unat j" by (metis mult_left_cancel zero_neq_numeral)
  then show "i = j" by (rule unsigned_word_eqI)
qed simp

lemma of_nat_index: "index_ok i \<Longrightarrow> of_nat (unat i) = i"
  by simp

section \<open>Writing a table\<close>

lemma mem_fold_wr_other:
  assumes "\<And>i. i < n \<Longrightarrow> a \<noteq> entry_at t (of_nat i)"
  shows "mem (fold (\<lambda>i. wr t (of_nat i) (f i)) [0..<n] s) a = mem s a"
  using assms by (induction n) (simp_all add: wr_def poke_def)

lemma mem_fold_wr_same:
  assumes "i < n" "n \<le> 512"
  shows "mem (fold (\<lambda>i. wr t (of_nat i) (f i)) [0..<n] s) (entry_at t (of_nat i)) = f i"
  using assms
proof (induction n)
  case (Suc n)
  have b: "i < 512" "n < 512" using Suc.prems by simp_all
  have "unat (of_nat i :: u64) = i" "unat (of_nat n :: u64) = n" by (rule unat_u64; use b in simp)+
  then have "(of_nat i :: u64) = of_nat n \<longleftrightarrow> i = n" by metis
  then have "entry_at t (of_nat i) = entry_at t (of_nat n) \<longleftrightarrow> i = n"
    using entry_at_inj [OF index_ok_of_nat [OF b(1)] index_ok_of_nat [OF b(2)], of t] by blast
  then show ?case using Suc by (auto simp: wr_def poke_def less_Suc_eq)
qed simp

lemma rd_fill_split: "i < 512 \<Longrightarrow>
    rd (fill_split t e s) t (of_nat i) = ((base2m e + of_nat i * 0x1000) OR (e AND 0x1FF AND NOT 0x80))"
  unfolding rd_def fill_split_def by (rule mem_fold_wr_same) simp_all

lemma rd_fill_split_other:
  assumes "t AND 0xFFF = 0" "u AND 0xFFF = 0" "index_ok j" "t \<noteq> u"
  shows "rd (fill_split t e s) u j = rd s u j"
  unfolding rd_def fill_split_def
  by (rule mem_fold_wr_other) (use page_words_apart [OF assms(1,2) index_ok_of_nat assms(3,4)] in metis)

lemma rd_wr:
  assumes "t AND 0xFFF = 0" "u AND 0xFFF = 0" "index_ok i" "index_ok j"
  shows "rd (wr t i v s) u j = (if t = u \<and> i = j then v else rd s u j)"
  using page_words_apart [OF assms] entry_at_inj [OF assms(3,4), of t]
  by (cases "t = u") (auto simp: rd_def wr_def poke_def)

section \<open>A fresh table\<close>

text \<open>A table the allocator may hand out again would be no table; \<open>live_table\<close> is one it may not.\<close>

definition live_table :: "kheap \<Rightarrow> addr \<Rightarrow> bool" where
  "live_table s t \<longleftrightarrow> t AND 0xFFF = 0 \<and> (\<forall>j\<in>unalloc s. t \<noteq> frame_to_addr j)"

lemma frame_aligned: "frame_to_addr i AND 0xFFF = 0"
  using frame_to_addr_aligned [of i] by (simp add: low_bits)

lemma in_page:
  assumes "(p :: u64) AND 0xFFF = 0" "unat p \<le> unat a" "unat a < unat p + 4096"
  shows "base4k a = p"
proof -
  define d where "d = a - p"
  have "unat d = unat a - unat p" unfolding d_def using assms(2) by (simp add: unat_sub word_le_nat_alt)
  then have "unat d < 2 ^ 12" using assms(2,3) by simp
  then have "take_bit 12 d = d" by (simp add: take_bit_eq_mod unat_mod word_unat_eq_iff)
  then have "d AND mask 12 = d" by (simp add: take_bit_eq_mask)
  then have "d AND NOT (mask 12) = 0" by (metis and.assoc bit.conj_cancel_right and_zero_eq)
  then have "d AND NOT 0xFFF = 0" by (simp only: mask_consts)
  from split_low(2) [OF assms(1) this] show ?thesis by (simp add: d_def)
qed

lemma mmap_page_order: "mmap_order 4096 = 0" "mmap_pages 4096 = 1"
  by (simp_all add: size_to_pages_alt order_for.simps)

lemma fresh_table:
  assumes inv: "buddy_inv s" and r: "mmap_user 4096 s = (p, s')"
  obtains (failed) "p = 0" "s' = s"
  | (fresh) "p \<noteq> 0" "p AND 0xFFF = 0" "buddy_inv s'" "\<And>t. live_table s t \<Longrightarrow> live_table s' t \<and> t \<noteq> p"
      "live_table s' p" "\<And>t i. live_table s t \<Longrightarrow> index_ok i \<Longrightarrow> rd s' t i = rd s t i"
  using inv r
proof (cases rule: mmap_user_cases)
  case failed
  then show thesis by (intro that(1))
next
  case (mapped b t0)
  note st = mapped(2) [unfolded alloc_step_def mmap_page_order(1)]
  have b: "b < FRAME_COUNT" "b \<in> unalloc s" using st by (auto simp: block_ok_def)
  have al: "alloc_blocks s' = insert (b, 0) (alloc_blocks s)" using mapped(6) by (simp only: mmap_page_order(1))
  then have un: "unalloc s' = unalloc s - {b}" by (auto simp: unalloc_def)
  have m: "mem s' a = mem s a" if "base4k a = t" "live_table s t" for a t
  proof -
    have "a \<noteq> frame_to_addr j" "a \<noteq> frame_to_addr j + 8" if j: "j \<in> unalloc s" for j
    proof -
      have "t \<noteq> frame_to_addr j" using \<open>live_table s t\<close> j by (simp add: live_table_def)
      moreover have "base4k (frame_to_addr j + 8) = frame_to_addr j"
        by (rule split_low(2) [OF frame_aligned]) simp
      moreover have "base4k (frame_to_addr j) = frame_to_addr j"
        using split_low(2) [OF frame_aligned, of 0 j] by simp
      ultimately show "a \<noteq> frame_to_addr j" "a \<noteq> frame_to_addr j + 8" using \<open>base4k a = t\<close> by metis+
    qed
    moreover have "\<not> (unat (frame_to_addr b) \<le> unat a \<and> unat a < unat (frame_to_addr b) + 4096)"
      using in_page [OF frame_aligned, of b a] that b(2) by (auto simp: live_table_def)
    ultimately show ?thesis using st mapped(4) by (auto simp: zero_bytes_def mmap_page_order(2))
  qed
  have "p \<noteq> 0" using mapped(1) b(1) by simp
  then show thesis
  proof (rule that(2))
    show "p AND 0xFFF = 0" unfolding mapped(1) by (rule frame_aligned)
    show "live_table s' t \<and> t \<noteq> p" if "live_table s t" for t
      using that b(2) un mapped(1) by (auto simp: live_table_def)
    show "live_table s' p"
      unfolding live_table_def mapped(1)
      using frame_aligned un b(1) frame_to_addr_inj by (auto simp: unalloc_def)
    show "rd s' t i = rd s t i" if "live_table s t" "index_ok i" for t i
      unfolding rd_def using m [OF entry_page_at(1) that(1)] that by (simp add: live_table_def)
  qed (rule mapped(5))
qed

section \<open>Splitting keeps the translation\<close>

lemma small_address:
  fixes pde va g :: u64
  defines "b \<equiv> pde AND NOT (mask 21)" and "i \<equiv> push_bit 12 (drop_bit 12 va AND mask 9)"
    and "f \<equiv> pde AND mask 9 AND g"
  shows "((b + i) OR f) AND NOT (mask 12) = b OR i"
    "(((b + i) OR f) AND NOT (mask 12)) + (va AND mask 12) = b + (va AND mask 21)"
    "((b + i) OR f) AND mask 9 AND g = f"
proof -
  have b21: "b AND mask 21 = 0" by (auto simp: b_def bit_eq_iff bit_simps)
  have i21: "i AND NOT (mask 21) = 0" by (auto simp: i_def bit_eq_iff bit_simps)
  have bi: "b + i = b OR i" by (rule split_low(1) [OF b21 i21])
  show e: "((b + i) OR f) AND NOT (mask 12) = b OR i"
    unfolding bi by (auto simp: b_def i_def f_def bit_eq_iff bit_simps)
  have "(b OR i) AND mask 12 = 0" by (auto simp: b_def i_def bit_eq_iff bit_simps)
  moreover have "(va AND mask 12) AND NOT (mask 12) = 0" by (auto simp: bit_eq_iff bit_simps)
  ultimately have l: "(b OR i) + (va AND mask 12) = (b OR i) OR (va AND mask 12)" by (rule split_low(1))
  have "(va AND mask 21) AND NOT (mask 21) = 0" by (auto simp: bit_eq_iff bit_simps)
  with b21 have r: "b + (va AND mask 21) = b OR (va AND mask 21)" by (rule split_low(1))
  have "i OR (va AND mask 12) = va AND mask 21"
  proof (rule bit_eqI)
    fix n
    show "bit (i OR (va AND mask 12)) n = bit (va AND mask 21) n"
      by (cases "n < 12") (auto simp: i_def bit_simps)
  qed
  then show "(((b + i) OR f) AND NOT (mask 12)) + (va AND mask 12) = b + (va AND mask 21)"
    unfolding e l r by (simp add: or.assoc)
  show "((b + i) OR f) AND mask 9 AND g = f"
    unfolding bi by (auto simp: b_def i_def f_def bit_eq_iff bit_simps)
qed

lemma split_entry:
  assumes "e = (base2m pde + pt_index va * 0x1000) OR (pde AND 0x1FF AND NOT 0x80)"
  shows "base4k e + (va AND 0xFFF) = base2m pde + (va AND 0x1FFFFF)"
    "e AND 0x1FF AND NOT 0x80 = pde AND 0x1FF AND NOT 0x80" "present e = present pde"
proof -
  have i: "pt_index va * 0x1000 = push_bit 12 (drop_bit 12 va AND mask 9)"
    by (simp add: pt_index_def push_bit_eq_mult mask_eq_exp_minus_1)
  note s = small_address [of pde va "NOT 0x80"]
  show "base4k e + (va AND 0xFFF) = base2m pde + (va AND 0x1FFFFF)"
    unfolding assms i using s(2) by (simp only: mask_consts)
  show f: "e AND 0x1FF AND NOT 0x80 = pde AND 0x1FF AND NOT 0x80"
    unfolding assms i using s(3) by (simp only: mask_consts)
  have "x AND 1 = (x AND 0x1FF AND NOT 0x80) AND 1" for x :: u64
    by (simp add: and.assoc)
  from this [of e] this [of pde] show "present e = present pde" unfolding f by simp
qed

text \<open>The tables on the way to the directory entry of \<open>va\<close>.\<close>

definition path_live :: "kheap \<Rightarrow> addr \<Rightarrow> u64 \<Rightarrow> bool" where
  "path_live s p4 va \<longleftrightarrow>
    (let pdpt = base4k (rd s p4 (pml4_index va)); pd = base4k (rd s pdpt (pdpt_index va))
     in live_table s p4 \<and> live_table s pdpt \<and> live_table s pd \<and> p4 \<noteq> pd \<and> pdpt \<noteq> pd)"

lemma same_2mb_index:
  assumes "base2m va' = base2m va"
  shows "pml4_index va' = pml4_index va" "pdpt_index va' = pdpt_index va" "pd_index va' = pd_index va"
proof -
  have "drop_bit n x = drop_bit n (x AND NOT (mask 21))" if "21 \<le> n" for n and x :: u64
    using that by (auto simp: bit_eq_iff bit_simps dest: bit_imp_le_length)
  then have "drop_bit n va' = drop_bit n va" if "21 \<le> n" for n
    using that assms unfolding mask_consts by metis
  then show "pml4_index va' = pml4_index va" "pdpt_index va' = pdpt_index va" "pd_index va' = pd_index va"
    by (simp_all add: pml4_index_def pdpt_index_def pd_index_def)
qed

lemma table_entry:
  assumes "p AND 0xFFF = 0"
  shows "base4k (p OR 0x07) = p" "present (p OR 0x07)" "\<not> huge (p OR 0x07)"
proof -
  have e: "p OR 0x07 = p + 0x07" by (rule split_low(1) [OF assms, symmetric]) simp
  show "base4k (p OR 0x07) = p" unfolding e by (rule split_low(2) [OF assms]) simp
  have "(p OR 0x07) AND 0xFFF = 0x07" unfolding e by (rule split_low(3) [OF assms]) simp
  then have "((p OR 0x07) AND 0xFFF) AND 1 = 1" "((p OR 0x07) AND 0xFFF) AND 0x80 = 0" by simp_all
  then show "present (p OR 0x07)" "\<not> huge (p OR 0x07)" by (simp_all add: and.assoc)
qed

lemma split_writes:
  assumes p: "p AND 0xFFF = 0" and live: "live_table s pd" "index_ok i"
    and old: "\<And>t j. live_table s t \<Longrightarrow> index_ok j \<Longrightarrow> rd s1 t j = rd s t j" "\<And>t. live_table s t \<Longrightarrow> t \<noteq> p"
    and s': "s' = wr pd i (p OR 0x07) (fill_split p pde s1)"
  shows "live_table s t \<Longrightarrow> t \<noteq> pd \<Longrightarrow> index_ok j \<Longrightarrow> rd s' t j = rd s t j"
    "rd s' pd i = p OR 0x07"
    "index_ok j \<Longrightarrow> rd s' p j = (base2m pde + j * 0x1000) OR (pde AND 0x1FF AND NOT 0x80)"
proof -
  have al: "t AND 0xFFF = 0" if "live_table s t" for t using that by (simp add: live_table_def)
  note w = rd_wr [OF al [OF live(1)] _ live(2)]
  show "rd s' t j = rd s t j" if t: "live_table s t" "t \<noteq> pd" "index_ok j"
    using w [OF al [OF t(1)] t(3)] t(2) old(1) [OF t(1,3)]
      rd_fill_split_other [OF p al [OF t(1)] t(3) old(2) [OF t(1), symmetric]] by (auto simp: s')
  show "rd s' pd i = p OR 0x07" using w [OF al [OF live(1)] live(2)] by (simp add: s')
  show "rd s' p j = (base2m pde + j * 0x1000) OR (pde AND 0x1FF AND NOT 0x80)" if j: "index_ok j"
    using w [OF p j] old(2) [OF live(1)] rd_fill_split [OF index_less [OF j], of p pde s1] by (simp add: s')
qed

text \<open>C8: \<^verbatim>\<open>split_2mb_pde\<close> does not change what any address means: whether it finds a huge mapping and
  replaces it by a table of 512 small pages, finds one already split, or fails, every address of that
  2 MB region has the same physical address and the same access bits afterwards as before. On success
  the region is mapped by small pages, and the frame allocator is consistent.\<close>

theorem split_2mb_translation:
  assumes inv: "buddy_inv s" and live: "path_live s p4 va" and r: "split_2mb_pde p4 va s = (r, s')"
    and va': "base2m va' = base2m va"
  shows "translate s' p4 va' = translate s p4 va' \<and> (r = 0 \<or> r = -1 \<and> s' = s) \<and>
    (r = 0 \<longrightarrow> \<not> huge (rd s' (base4k (rd s' (base4k (rd s' p4 (pml4_index va))) (pdpt_index va))) (pd_index va)))"
proof -
  define pdpt where "pdpt = base4k (rd s p4 (pml4_index va))"
  define pd where "pd = base4k (rd s pdpt (pdpt_index va))"
  define pde where "pde = rd s pd (pd_index va)"
  note ix = same_2mb_index [OF va']
  have lt: "live_table s p4" "live_table s pdpt" "live_table s pd" "p4 \<noteq> pd" "pdpt \<noteq> pd"
    using live by (auto simp: path_live_def Let_def pdpt_def pd_def)
  show ?thesis
  proof (cases "present (rd s p4 (pml4_index va)) \<and> present (rd s pdpt (pdpt_index va)) \<and> present pde \<and> huge pde")
    case False
    then show ?thesis using r by (auto simp: split_2mb_pde_def Let_def pdpt_def pd_def pde_def split: if_splits)
  next
    case True
    obtain p s1 where m: "mmap_user 4096 s = (p, s1)" by fastforce
    have e: "(if p = 0 then (-1, s1) else (0, wr pd (pd_index va) (p OR 0x07) (fill_split p pde s1))) = (r, s')"
      using r True m by (simp add: split_2mb_pde_def Let_def pdpt_def pd_def pde_def split: if_splits)
    from inv m show ?thesis
    proof (cases rule: fresh_table)
      case failed
      then show ?thesis using e by auto
    next
      case fresh
      have s': "s' = wr pd (pd_index va) (p OR 0x07) (fill_split p pde s1)" "r = 0" using e fresh(1) by auto
      note w = split_writes [OF fresh(2) lt(3) index_ok_intros(3) fresh(6) _ s'(1)]
      have up: "rd s' p4 (pml4_index va) = rd s p4 (pml4_index va)" "rd s' pdpt (pdpt_index va) = rd s pdpt (pdpt_index va)"
        and d: "rd s' pd (pd_index va) = p OR 0x07"
        and small: "rd s' p (pt_index va') = (base2m pde + pt_index va' * 0x1000) OR (pde AND 0x1FF AND NOT 0x80)"
        using w fresh(4) lt by auto
      note sm = split_entry [OF small]
      have "translate s' p4 va' = Some (base2m pde + (va' AND 0x1FFFFF), pde AND 0x1FF AND NOT 0x80)"
        using True unfolding translate_def Let_def ix up(1) pdpt_def [symmetric] up(2) pd_def [symmetric] d
          table_entry(1) [OF fresh(2)]
        by (simp only: table_entry [OF fresh(2)] sm if_True if_False simp_thms)
      moreover have "translate s p4 va' = Some (base2m pde + (va' AND 0x1FFFFF), pde AND 0x1FF AND NOT 0x80)"
        using True unfolding translate_def Let_def ix pdpt_def [symmetric] pd_def [symmetric] pde_def [symmetric]
        by (simp only: if_True if_False simp_thms)
      moreover have "\<not> huge (rd s' (base4k (rd s' (base4k (rd s' p4 (pml4_index va))) (pdpt_index va))) (pd_index va))"
        unfolding up(1) pdpt_def [symmetric] up(2) pd_def [symmetric] d by (rule table_entry(3) [OF fresh(2)])
      ultimately show ?thesis using s'(2) by simp
    qed
  qed
qed


text \<open>Tables below the heap, as the boot code leaves them: one huge page maps the first 2 MB.\<close>

definition split_heap :: kheap where
  "split_heap = memory_init
     \<lparr>mem = (\<lambda>_. 0)(0x1000 := 0x2007, 0x2000 := 0x3007, 0x3000 := 0x87), frames = \<lambda>_. 0, free_area = \<lambda>_. 0,
      kmalloc_caches = [], pcpu_pages = [], pcpu_objects = \<lambda>_. [], cr3 = 0x1000, user_va_next = 0x70000000\<rparr>"

lemma split_heap_mem: "mem split_heap = (\<lambda>_. 0)(0x1000 := 0x2007, 0x2000 := 0x3007, 0x3000 := 0x87, 0xA00000 := 0, 0xA00008 := 0)"
  by (simp add: split_heap_def memory_init_def Let_def poke_def set_area_def set_frame_def)

lemma split_heap_path:
  "rd split_heap 0x1000 (pml4_index 0x5000) = 0x2007" "rd split_heap 0x2000 (pdpt_index 0x5000) = 0x3007"
  "rd split_heap 0x1000 (pml4_index 0x7123) = 0x2007" "rd split_heap 0x2000 (pdpt_index 0x7123) = 0x3007"
  "rd split_heap 0x3000 (pd_index 0x7123) = 0x87"
  by (simp_all add: rd_def entry_at_def split_heap_mem pml4_index_def pdpt_index_def pd_index_def)

theorem split_2mb_translation_witness:
  "translate (snd (split_2mb_pde 0x1000 0x5000 split_heap)) 0x1000 0x7123 = Some (0x7123, 0x07)"
proof -
  have "buddy_inv split_heap" by (simp add: split_heap_def memory_init_free)
  moreover have "live_table split_heap t" if "t AND 0xFFF = 0" "t < HEAP_PHYS" for t
    using that frame_to_addr_range(1) unfolding live_table_def unalloc_def by fastforce
  then have "path_live split_heap 0x1000 0x5000"
    using split_heap_path by (simp add: path_live_def)
  moreover have "translate split_heap 0x1000 0x7123 = Some (0x7123, 0x07)"
    using split_heap_path by (simp add: translate_def)
  ultimately show ?thesis
    using split_2mb_translation [of split_heap "0x1000" "0x5000" _ _ "0x7123",
        OF _ _ surjective_pairing [of "split_2mb_pde 0x1000 0x5000 split_heap"]] by simp
qed

end
