(* ===== verification/VmMapProps.thy ===== *)
theory VmMapProps
  imports VmMapInv
begin

text \<open>
  The properties of the address-space maps, with a concrete kernel on which they are exercised.
\<close>

section \<open>Reachable maps\<close>

text \<open>Everything that touches a map: the operations of \<^verbatim>\<open>vm_map.c\<close>, the calls of the running process, the
  copy \<^verbatim>\<open>fork\<close> makes; and anything else the kernel does, which leaves the maps as they are.\<close>

inductive vm_step :: "kernel \<Rightarrow> kernel \<Rightarrow> bool" where
  init: "mn \<le> 2 ^ 62 \<Longrightarrow> vm_step k (vm_map_init m mn mx k)"
| fixed: "unat a + unat (round_page sz) < 2 ^ 64 \<Longrightarrow> vm_step k (snd (vm_map_fixed m obj off a sz prot flags k))"
| search: "sane_request a sz \<Longrightarrow> vm_step k (snd (snd (vm_map_find m obj off a sz prot flags k)))"
| remove: "vm_step k (snd (vm_map_remove m st en k))"
| protect: "vm_step k (snd (vm_map_protect m st en prot k))"
| wire: "vm_step k (snd (vm_map_wire m st sz p4 k))"
| mmap: "sane_request a sz \<Longrightarrow> vm_step k (snd (snd (vm_mmap a sz prot flags k)))"
| munmap: "vm_munmap a sz k = Some (r, k') \<Longrightarrow> vm_step k k'"
| mprotect: "vm_mprotect a sz prot k = Some (r, k') \<Longrightarrow> vm_step k k'"
| copy: "vm_step k (vm_map_copy_to dst src k)"
| elsewhere: "vmaps k' = vmaps k \<Longrightarrow> vm_step k k'"

lemma vm_step_ok:
  assumes "vm_step k k'" "maps_ok k"
  shows "maps_ok k'"
  using assms
proof (induction rule: vm_step.induct)
  case (fixed a sz k m obj off prot flags)
  then show ?case using vm_map_fixed_ok [OF fixed(2) surjective_pairing fixed(1)] by blast
next
  case (search a sz k m obj off prot flags)
  have "vm_map_find m obj off a sz prot flags k = (fst (vm_map_find m obj off a sz prot flags k),
    fst (snd (vm_map_find m obj off a sz prot flags k)), snd (snd (vm_map_find m obj off a sz prot flags k)))"
    by simp
  then show ?case by (rule vm_map_find_ok [OF search(2) _ search(1)])
next
  case (mmap a sz k prot flags)
  have "vm_mmap a sz prot flags k = (fst (vm_mmap a sz prot flags k), fst (snd (vm_mmap a sz prot flags k)),
    snd (snd (vm_mmap a sz prot flags k)))" by simp
  from this mmap(2,1) show ?case
    by (cases rule: vm_mmap_cases) (use mmap(2) same_maps_ok entry_added_ok in blast)+
next
  case (wire k m st sz p4)
  then show ?case using same_maps_ok [OF same_offD [OF vm_map_wire_same [OF surjective_pairing]]] by blast
next
  case (elsewhere k' k)
  then show ?case by (simp add: maps_ok_def)
qed (auto intro: vm_map_init_ok vm_map_remove_ok [OF _ surjective_pairing] vm_map_protect_ok(1) [OF _ surjective_pairing]
    vm_munmap_ok vm_mprotect_ok vm_map_copy_ok)

lemma vm_steps_ok: "vm_step\<^sup>*\<^sup>* k k' \<Longrightarrow> maps_ok k \<Longrightarrow> maps_ok k'"
  by (induction rule: rtranclp_induct) (auto intro: vm_step_ok)

text \<open>A kernel whose running process has an empty map and whose object pool holds nodes for entries.\<close>

definition map_kernel :: kernel where
  "map_kernel =
    \<lparr>heap = \<lparr>mem = \<lambda>_. 0, frames = \<lambda>_. 0, free_area = \<lambda>_. 0,
       kmalloc_caches = map (\<lambda>i. \<lparr>obj_size = of_nat (2 ^ (i + 4)), slabs = 0, obj_per_slab = 0, cache_id = i\<rparr>) [0..<8],
       pcpu_pages = [], pcpu_objects = \<lambda>_. [0xB00100, 0xB00200], cr3 = 0, user_va_next = 0\<rparr>,
     vobjs = \<lambda>_. \<lparr>refcnt = 0, obj_bytes = 0, pages_arr = 0, page_count = 0\<rparr>,
     vmaps = \<lambda>_. \<lparr>entries = [], nentries = 0, min_offset = 0x10000, max_offset = 0x7FFFF000\<rparr>,
     pcb_table = (\<lambda>_. zero_pcb\<lparr>pid := -1\<rparr>)(1 := zero_pcb\<lparr>pid := 1, state := PROC_RUNNING, vm_map_ptr := 0xB00000\<rparr>),
     current_pid = 1, pcb_count = 2, next_pid = 2, tss_rsp0 = 0, cpu_slot = 1, cpu_rsp = 0, fs_msr = 0,
     g_in_syscall = False,
     fd_tables = \<lambda>_ _. \<lparr>f_used = False, f_type = FD_FILE, f_flags = 0, f_pipe = 0, f_sock = 0, f_name = [],
       f_pos = 0, f_wend = False, f_counter = 0\<rparr>,
     fdtab = MAX_PROC, pipes = \<lambda>_. \<lparr>p_used = False, p_ring = \<lparr>rbuf = \<lambda>_. 0, rpos = 0, wpos = 0\<rparr>\<rparr>,
     socks = \<lambda>_. \<lparr>s_used = False, s_path = [], s_listening = False, s_peer = 0, s_nonblock = False,
       s_pending = [], s_ring = \<lparr>rbuf = \<lambda>_. 0, rpos = 0, wpos = 0\<rparr>\<rparr>\<rparr>"

lemma map_kernel_ok: "maps_ok map_kernel"
  by (simp add: maps_ok_def map_ok_def map_kernel_def entries_ok_def)

lemma map_kernel_current: "process_current map_kernel = Some 1" "vm_map_ptr (pcb_table map_kernel 1) = 0xB00000"
  by code_simp+

lemma map_kernel_mmap: "map_prod id fst (vm_mmap 0 5000 3 0 map_kernel) = (0, 0x70000000)"
  by code_simp

lemma one_cover:
  assumes "entries_ok es" "e \<in> set es" "f \<in> set es" "e_start e \<le> x" "x < e_end e" "e_start f \<le> x" "x < e_end f"
  shows "e = f"
  using assms
proof (induction es)
  case (Cons y es)
  have "e_end y \<le> e_start z" if "z \<in> set es" for z using Cons.prems(1) that by (simp add: entries_ok_def)
  moreover have "entries_ok es" using Cons.prems(1) by (simp add: entries_ok_def)
  ultimately show ?case using Cons by fastforce
qed simp

text \<open>C6: In every state the kernel reaches from empty address-space maps, by requests whose ranges do
  not wrap around \<open>2 ^ 64\<close>, every map is sound: each entry is a non-empty range of whole pages, the entries
  stand in ascending order without overlap, \<^verbatim>\<open>nentries\<close> counts them, and the address of a fault has at
  most one entry. Failed calls are among the steps.\<close>

theorem maps_sound:
  assumes "\<forall>m. entries (vmaps k0 m) = [] \<and> nentries (vmaps k0 m) = 0 \<and> min_offset (vmaps k0 m) \<le> 2 ^ 62"
    and "vm_step\<^sup>*\<^sup>* k0 k"
  shows "list_all entry_ok (entries (vmaps k m)) \<and>
    sorted_wrt (\<lambda>a b. e_end a \<le> e_start b) (entries (vmaps k m)) \<and>
    nentries (vmaps k m) = int (length (entries (vmaps k m))) \<and>
    (\<forall>e f x. e \<in> set (entries (vmaps k m)) \<and> f \<in> set (entries (vmaps k m)) \<and>
       e_start e \<le> x \<and> x < e_end e \<and> e_start f \<le> x \<and> x < e_end f \<longrightarrow> e = f)"
proof -
  have "maps_ok k0" using assms(1) by (simp add: maps_ok_def map_ok_def entries_ok_def)
  with assms(2) have "map_ok (vmaps k m)" using vm_steps_ok by (simp add: maps_ok_def)
  then have e: "entries_ok (entries (vmaps k m))" "nentries (vmaps k m) = int (length (entries (vmaps k m)))"
    by (auto simp: map_ok_def)
  then show ?thesis using one_cover [OF e(1)] unfolding entries_ok_def by blast
qed

theorem maps_sound_witness:
  "nentries (vmaps (snd (snd (vm_mmap 0 5000 3 0 map_kernel))) 0xB00000) =
     int (length (entries (vmaps (snd (snd (vm_mmap 0 5000 3 0 map_kernel))) 0xB00000))) \<and>
   length (entries (vmaps (snd (snd (vm_mmap 0 5000 3 0 map_kernel))) 0xB00000)) = 1"
proof -
  have "vm_step\<^sup>*\<^sup>* map_kernel (snd (snd (vm_mmap 0 5000 3 0 map_kernel)))"
    by (intro r_into_rtranclp vm_step.mmap) (simp add: sane_request_def)
  moreover have "\<forall>m. entries (vmaps map_kernel m) = [] \<and> nentries (vmaps map_kernel m) = 0 \<and>
      min_offset (vmaps map_kernel m) \<le> 2 ^ 62" by (simp add: map_kernel_def)
  ultimately have "nentries (vmaps (snd (snd (vm_mmap 0 5000 3 0 map_kernel))) 0xB00000) =
      int (length (entries (vmaps (snd (snd (vm_mmap 0 5000 3 0 map_kernel))) 0xB00000)))"
    using maps_sound [of map_kernel "snd (snd (vm_mmap 0 5000 3 0 map_kernel))" "0xB00000"] by blast
  moreover have "length (entries (vmaps (snd (snd (vm_mmap 0 5000 3 0 map_kernel))) 0xB00000)) = 1" by code_simp
  ultimately show ?thesis by (rule conjI)
qed

section \<open>What a process sees of a call\<close>

lemma covers_shape:
  assumes "same_shape v v'"
  shows "list_ex (\<lambda>e. x \<ge> e_start e \<and> x < e_end e) (entries v') =
    list_ex (\<lambda>e. x \<ge> e_start e \<and> x < e_end e) (entries v)"
proof -
  have "list_ex (\<lambda>e. x \<ge> e_start e \<and> x < e_end e) (shape es) = list_ex (\<lambda>e. x \<ge> e_start e \<and> x < e_end e) es" for es
    by (simp add: shape_def list_ex_iff)
  from this [of "entries v'"] this [of "entries v"] show ?thesis using assms by (simp add: same_shape_def)
qed

lemma covers_same: "same_maps k k' \<Longrightarrow> vm_map_covers m x k' = vm_map_covers m x k"
  unfolding vm_map_covers_def same_maps_def using covers_shape by blast

lemma covers_added:
  assumes "entry_added m e k k'" "m \<noteq> 0"
  shows "vm_map_covers m x k' \<longleftrightarrow> vm_map_covers m x k \<or> e_start e \<le> x \<and> x < e_end e"
    "e_start e \<le> x \<and> x < e_end e \<Longrightarrow> \<not> vm_map_covers m x k"
    "m' \<noteq> m \<Longrightarrow> vm_map_covers m' x k' = vm_map_covers m' x k"
proof -
  let ?v = "(vmaps k m)\<lparr>entries := insert_entry e (entries (vmaps k m)), nentries := nentries (vmaps k m) + 1\<rparr>"
  have "same_shape ?v (vmaps k' m)" using assms(1) by (simp add: entry_added_def)
  from covers_shape [OF this, of x] show "vm_map_covers m x k' \<longleftrightarrow> vm_map_covers m x k \<or> e_start e \<le> x \<and> x < e_end e"
    using assms(2) by (auto simp: vm_map_covers_def list_ex_iff set_insert_entry)
  show "e_start e \<le> x \<and> x < e_end e \<Longrightarrow> \<not> vm_map_covers m x k"
    using assms(1) by (fastforce simp: entry_added_def clear_of_def vm_map_covers_def list_ex_iff)
  show "m' \<noteq> m \<Longrightarrow> vm_map_covers m' x k' = vm_map_covers m' x k"
    using assms(1) covers_shape [of "vmaps k m'" "vmaps k' m'" x] by (simp add: entry_added_def vm_map_covers_def)
qed

text \<open>C7: For an address of at most \<open>2 ^ 62\<close> and a size whose whole pages come to at most \<open>2 ^ 62\<close> bytes,
  which is what \<open>sane_request\<close> says, and maps in order, a successful \<^verbatim>\<open>vm_mmap\<close> adds exactly the pages it returns to the address space of the calling
  process: they were not covered before, they are covered now, no other address and no other map
  changes, the range does not wrap, and without \<^verbatim>\<open>MAP_FIXED\<close> it ends below the map's limit. A call that
  fails at any point, even after the entry was made, leaves the coverage of every map as it was.\<close>

theorem vm_mmap_exact:
  assumes "maps_ok k" "sane_request a sz" "vm_mmap a sz prot flags k = (r, va, k')"
  shows "if r = 0 then
      \<exists>cur m. process_current k = Some cur \<and> m = vm_map_ptr (pcb_table k cur) \<and> m \<noteq> 0 \<and>
        va < va + round_page sz \<and>
        (\<forall>x. vm_map_covers m x k' \<longleftrightarrow> vm_map_covers m x k \<or> va \<le> x \<and> x < va + round_page sz) \<and>
        (\<forall>x. va \<le> x \<and> x < va + round_page sz \<longrightarrow> \<not> vm_map_covers m x k) \<and>
        (\<forall>m' x. m' \<noteq> m \<longrightarrow> vm_map_covers m' x k' = vm_map_covers m' x k) \<and>
        (flags AND MAP_FIXED = 0 \<longrightarrow> va + round_page sz \<le> max_offset (vmaps k m)) \<and>
        (flags AND MAP_FIXED \<noteq> 0 \<longrightarrow> va = a)
    else r = -1 \<and> (\<forall>m x. vm_map_covers m x k' = vm_map_covers m x k)"
  using assms(3,1,2)
proof (cases rule: vm_mmap_cases)
  case failed
  then show ?thesis using covers_same by simp
next
  case (mapped cur e)
  let ?m = "vm_map_ptr (pcb_table k cur)"
  note c = covers_added [OF mapped(8,3), unfolded mapped(4,5)]
  have "va < va + round_page sz" using mapped(4,5,8) by (simp add: entry_added_def entry_ok_def)
  moreover have "\<forall>x. vm_map_covers ?m x k' \<longleftrightarrow> vm_map_covers ?m x k \<or> va \<le> x \<and> x < va + round_page sz"
    using c(1) by blast
  moreover have "\<forall>x. va \<le> x \<and> x < va + round_page sz \<longrightarrow> \<not> vm_map_covers ?m x k" using c(2) by blast
  moreover have "\<forall>m' x. m' \<noteq> ?m \<longrightarrow> vm_map_covers m' x k' = vm_map_covers m' x k" using c(3) by blast
  ultimately show ?thesis unfolding if_P [OF mapped(1)] using mapped(2,3,9,10) by blast
qed

theorem vm_mmap_exact_witness:
  "vm_map_covers 0xB00000 0x70001FFF (snd (snd (vm_mmap 0 5000 3 0 map_kernel))) \<and>
   \<not> vm_map_covers 0xB00000 0x70002000 (snd (snd (vm_mmap 0 5000 3 0 map_kernel)))"
proof -
  have "vm_mmap 0 5000 3 0 map_kernel = (0, 0x70000000, snd (snd (vm_mmap 0 5000 3 0 map_kernel)))"
    using map_kernel_mmap by (cases "vm_mmap 0 5000 3 0 map_kernel") auto
  moreover have "sane_request 0 5000" by (simp add: sane_request_def)
  moreover have "\<not> vm_map_covers 0xB00000 0x70002000 map_kernel" by code_simp
  ultimately show ?thesis
    using vm_mmap_exact [OF map_kernel_ok, of 0 5000 3 0 0 "0x70000000"] map_kernel_current by auto
qed

text \<open>C13: Unmapping what a call mapped restores the address space: for an address of at most \<open>2 ^ 62\<close> and
  a size whose whole pages come to at most \<open>2 ^ 62\<close> bytes, after a successful \<^verbatim>\<open>vm_mmap\<close> the \<^verbatim>\<open>vm_munmap\<close> of
  the returned range returns 0, and every map is the one it was before: the same entries in the same
  order with the same bounds, protection and objects, and the same count and limits.\<close>

theorem mmap_munmap_roundtrip:
  assumes "maps_ok k" "sane_request a sz" "vm_mmap a sz prot flags k = (0, va, k')"
  shows "\<exists>k''. vm_munmap va sz k' = Some (0, k'') \<and> vmaps k'' = vmaps k"
  using assms(3,1,2)
proof (cases rule: vm_mmap_cases)
  case (mapped cur e)
  define m where "m = vm_map_ptr (pcb_table k cur)"
  have o: "outside k' = outside k" using mapped(8) by (simp add: entry_added_def)
  have c: "process_current k' = Some cur" "m = vm_map_ptr (pcb_table k' cur)" "m \<noteq> 0"
    using process_current_outside [OF o] map_of_current_outside [OF o, of cur] mapped(2,3) by (simp_all add: m_def)
  have "e_start e < e_end e" using mapped(8) by (simp add: entry_added_def entry_ok_def)
  then have z: "round_page sz \<noteq> 0" unfolding mapped(4,5) by (metis add.right_neutral less_irrefl)
  have "unat (va + round_page sz) = unat va + unat (round_page sz)"
    using mapped(11) by (subst unat_add_lem [THEN iffD1]) simp_all
  then obtain k'' where r: "vm_munmap va sz k' = Some (0, k'')"
    using vm_munmap_returns [OF c(1), of sz va] c(2,3) z mapped(11) by auto
  obtain k1 where k1: "same_off m va (va + round_page sz) k' k1" "k'' = snd (vm_map_remove m va (va + round_page sz) k1)"
    by (rule vm_munmap_current [OF c z r])
  have "entry_added m e k k1" using same_off_added [OF mapped(8)] k1(1) mapped(4,5) by (simp add: m_def)
  from remove_added(1) [OF assms(1) this surjective_pairing] have "vmaps k'' = vmaps k"
    unfolding mapped(4,5) k1(2) .
  then show ?thesis using r by blast
qed simp

theorem mmap_munmap_roundtrip_witness:
  "\<exists>k''. vm_munmap 0x70000000 5000 (snd (snd (vm_mmap 0 5000 3 0 map_kernel))) = Some (0, k'') \<and>
    entries (vmaps k'' 0xB00000) = []"
proof -
  let ?k = "snd (snd (vm_mmap 0 5000 3 0 map_kernel))"
  have "vm_mmap 0 5000 3 0 map_kernel = (0, 0x70000000, ?k)"
    using map_kernel_mmap by (cases "vm_mmap 0 5000 3 0 map_kernel") auto
  moreover have "sane_request 0 5000" by (simp add: sane_request_def)
  moreover have "entries (vmaps map_kernel 0xB00000) = []" by (simp add: map_kernel_def)
  ultimately show ?thesis
    using mmap_munmap_roundtrip [OF map_kernel_ok, of 0 5000 3 0 "0x70000000" ?k] by auto
qed

text \<open>Nothing checks that the end of a range wraps. A request for \<open>2 ^ 64 - 0x60000000\<close> bytes in an
  empty address space succeeds: the code sees the range end below its limit, records an entry whose
  end lies before its start, and returns an address that the map does not cover.\<close>

theorem vm_mmap_wraps:
  assumes "process_current k = Some cur" "m = vm_map_ptr (pcb_table k cur)" "m \<noteq> 0"
    "entries (vmaps k m) = []" "min_offset (vmaps k m) \<le> 0x70000000" "0x10000000 \<le> max_offset (vmaps k m)"
    "fst (entry_alloc k) \<noteq> 0"
  shows "\<exists>k' e. vm_mmap 0 0xFFFFFFFFA0000000 prot 0 k = (0, 0x70000000, k') \<and> entries (vmaps k' m) = [e] \<and>
    e_end e < e_start e \<and> (\<forall>x. \<not> vm_map_covers m x k')"
proof -
  let ?z = "0xFFFFFFFFA0000000 :: u64"
  have w: "(0x10000000010000000 :: u64) = 0x10000000" by simp
  obtain node k1 where n: "entry_alloc k = (node, k1)" "node \<noteq> 0" using assms(7) by (cases "entry_alloc k") auto
  note v = keptD(1) [OF kept_entry_alloc [OF n(1)]]
  define e where "e = \<lparr>e_node = node, e_start = 0x70000000, e_end = 0x10000000, e_object = 0, e_offset = 0,
    e_prot = prot, e_flags = 0\<rparr>"
  define k2 where "k2 = set_vmap m ((vmaps k m)\<lparr>entries := [e], nentries := nentries (vmaps k m) + 1\<rparr>) k1"
  have f: "vm_map_fixed m 0 0 0x70000000 ?z prot 0 k = (0, k2)"
    using n v assms(4) by (simp add: vm_map_fixed_def overlap_iff vm_object_share_def k2_def e_def w)
  have "find_candidate 100 (vmaps k m) 0x70000000 ?z = Some 0x70000000"
    using assms(4,6) by (simp add: numeral_eq_Suc overlap_iff w)
  then have "vm_map_find m 0 0 0 ?z prot 0 k = (0, 0x70000000, k2)"
    using f assms(5) by (simp add: vm_map_find_def linorder_not_less [symmetric])
  moreover have "vm_map_wire m 0x70000000 ?z p4 k2 = (0, upd_heap (\<lambda>h. h\<lparr>cr3 := p4\<rparr>) k2)" for p4
    by (simp add: vm_map_wire_def k2_def wire_entry_def e_def)
  ultimately have "vm_mmap 0 ?z prot 0 k = (0, 0x70000000, upd_heap (\<lambda>h. h\<lparr>cr3 := pml4 (pcb_table k2 cur)\<rparr>) k2)"
    using vm_mmap_eq [OF assms(1), of ?z ?z m 0 prot 0] assms(2,3) by simp
  moreover have "vmaps (upd_heap (\<lambda>h. h\<lparr>cr3 := pml4 (pcb_table k2 cur)\<rparr>) k2) = vmaps k2"
    by (simp add: upd_heap_def set_heap_def)
  moreover have "entries (vmaps k2 m) = [e]" by (simp add: k2_def)
  moreover have "\<not> (0x70000000 \<le> x \<and> x < 0x10000000)" for x :: u64
    using le_less_trans [of "0x70000000 :: u64" x "0x10000000"] by auto
  ultimately show ?thesis by (auto simp: e_def vm_map_covers_def)
qed

theorem vm_mmap_wraps_witness:
  "\<exists>k' e. vm_mmap 0 0xFFFFFFFFA0000000 3 0 map_kernel = (0, 0x70000000, k') \<and> entries (vmaps k' 0xB00000) = [e] \<and>
    e_end e < e_start e \<and> (\<forall>x. \<not> vm_map_covers 0xB00000 x k')"
proof -
  have "fst (entry_alloc map_kernel) \<noteq> 0" by code_simp
  then show ?thesis
    using vm_mmap_wraps [OF map_kernel_current(1), of "0xB00000" 3] map_kernel_current(2) by (simp add: map_kernel_def)
qed

end
