(* ===== verification/ProcessProps.thy ===== *)
theory ProcessProps
  imports Fork BuddyProps
begin

text \<open>
  Properties of the process table and the scheduler: round-robin order and fairness, uniqueness of
  process identifiers over all operations, reaping, and the consequences of using a slot number where
  a pid is meant.
\<close>

section \<open>What the operations leave alone\<close>

text \<open>The part of the state the scheduler decides on.\<close>

definition procs :: "kernel \<Rightarrow> (nat \<Rightarrow> pcb) \<times> int \<times> int \<times> nat" where
  "procs k = (pcb_table k, current_pid k, next_pid k, pcb_count k)"

lemma procs_simps [simp]:
  "procs (set_heap h k) = procs k" "procs (set_vmap a m k) = procs k" "procs (set_vobj a ob k) = procs k"
  "procs (upd_heap f k) = procs k"
  "procs (k\<lparr>fd_tables := t\<rparr>) = procs k" "procs (tss_set_rsp0 x k) = procs k"
  by (simp_all add: procs_def set_heap_def set_vmap_def set_vobj_def upd_heap_def tss_set_rsp0_def)

lemma procs_on_heap [simp]: "procs (snd (on_heap f k)) = procs k"
  by (simp add: on_heap_def split: prod.splits)

lemma procs_on_heap_eq: "on_heap f k = (r, k') \<Longrightarrow> procs k' = procs k"
  using procs_on_heap [of f k] by simp

lemma procs_vm_map_fixed [simp]: "procs (snd (vm_map_fixed m obj off a sz pr fl k)) = procs k"
  by (auto simp: vm_map_fixed_def Let_def entry_alloc_def vm_object_share_def
      dest!: procs_on_heap_eq split: prod.splits)

lemma procs_vm_map_init [simp]: "procs (vm_map_init m a b k) = procs k"
  by (simp add: vm_map_init_def)

lemma procs_vm_map_copy [simp]: "procs (vm_map_copy_entries es m k) = procs k"
  by (induction es arbitrary: k) (simp_all add: Let_def)

lemma procs_vm_map_copy_to [simp]: "procs (vm_map_copy_to m m' k) = procs k"
  by (simp add: vm_map_copy_to_def)

lemma procs_new_vm_map: "new_vm_map k = (m, k') \<Longrightarrow> procs k' = procs k"
  by (auto simp: new_vm_map_def dest: procs_on_heap_eq split: prod.splits)

lemma procs_D:
  assumes "procs k' = procs k"
  shows "pcb_table k' = pcb_table k" "current_pid k' = current_pid k" "next_pid k' = next_pid k"
    "pcb_count k' = pcb_count k"
  using assms by (simp_all add: procs_def)

lemma table_simps [simp]:
  "pcb_table (set_pcb i p k) = (pcb_table k)(i := p)" "current_pid (set_pcb i p k) = current_pid k"
  "next_pid (set_pcb i p k) = next_pid k" "g_in_syscall (set_pcb i p k) = g_in_syscall k"
  "pcb_table (upd_heap f k) = pcb_table k" "current_pid (upd_heap f k) = current_pid k"
  "next_pid (upd_heap f k) = next_pid k"
  "pcb_table (tss_set_rsp0 x k) = pcb_table k" "current_pid (tss_set_rsp0 x k) = current_pid k"
  "next_pid (tss_set_rsp0 x k) = next_pid k" "g_in_syscall (tss_set_rsp0 x k) = g_in_syscall k"
  "pcb_count (set_pcb i p k) = pcb_count k" "pcb_count (upd_heap f k) = pcb_count k"
  "pcb_count (tss_set_rsp0 x k) = pcb_count k"
  by (simp_all add: set_pcb_def upd_heap_def set_heap_def tss_set_rsp0_def)

lemma set_state_simps [simp]:
  "pcb_table (set_state i st k) = (pcb_table k)(i := (pcb_table k i)\<lparr>state := st\<rparr>)"
  "current_pid (set_state i st k) = current_pid k" "next_pid (set_state i st k) = next_pid k"
  "g_in_syscall (set_state i st k) = g_in_syscall k" "pcb_count (set_state i st k) = pcb_count k"
  by (simp_all add: set_state_def)

lemma ctx_switch_simps [simp]:
  "current_pid (ctx_switch p n k) = current_pid k" "next_pid (ctx_switch p n k) = next_pid k"
  "state (pcb_table (ctx_switch p n k) i) = state (pcb_table k i)"
  "pid (pcb_table (ctx_switch p n k) i) = pid (pcb_table k i)"
  "current_pid (ctx_switch_kern p n k) = current_pid k" "next_pid (ctx_switch_kern p n k) = next_pid k"
  "state (pcb_table (ctx_switch_kern p n k) i) = state (pcb_table k i)"
  "pid (pcb_table (ctx_switch_kern p n k) i) = pid (pcb_table k i)"
  "pcb_count (ctx_switch p n k) = pcb_count k" "pcb_count (ctx_switch_kern p n k) = pcb_count k"
  by (simp_all add: ctx_switch_def ctx_switch_kern_def Let_def)

section \<open>Scheduling\<close>

lemma schedule_None: "find_next_ready k = None \<Longrightarrow> schedule k = k"
  by (simp add: schedule_def)

lemma schedule_same: "find_next_ready k = Some n \<Longrightarrow> int n = current_pid k \<Longrightarrow> schedule k = k"
  by (simp add: schedule_def)

lemma schedule_Some:
  assumes "find_next_ready k = Some n" "int n \<noteq> current_pid k"
  shows "current_pid (schedule k) = int n" "next_pid (schedule k) = next_pid k"
    and "pst (schedule k) i = (if i = n then PROC_RUNNING
      else if i = nat (current_pid k) \<and> pst k i = PROC_RUNNING then PROC_READY else pst k i)"
    and "pid (pcb_table (schedule k) i) = pid (pcb_table k i)" "pcb_count (schedule k) = pcb_count k"
  using assms by (auto simp: schedule_def Let_def)

lemma schedule_pid [simp]: "pid (pcb_table (schedule k) i) = pid (pcb_table k i)"
  "next_pid (schedule k) = next_pid k" "pcb_count (schedule k) = pcb_count k"
  by (cases "find_next_ready k"; cases "int (the (find_next_ready k)) = current_pid k";
      simp add: schedule_None schedule_same schedule_Some)+

lemma schedule_nonempty:
  assumes "pst (schedule k) i \<noteq> PROC_EMPTY"
  shows "pst k i \<noteq> PROC_EMPTY"
proof (cases "find_next_ready k")
  case (Some n)
  show ?thesis
  proof (cases "int n = current_pid k")
    case False
    have "pst k n = PROC_READY"
      using Some by (auto simp: find_next_ready_def find_Some_iff)
    then show ?thesis using assms schedule_Some(3) [OF Some False, of i] by (auto split: if_splits)
  qed (use assms Some in \<open>simp add: schedule_same\<close>)
qed (use assms in \<open>simp add: schedule_None\<close>)

text \<open>The next process is the nearest ready one in the cyclic order of the slots.\<close>

lemma find_next_ready_near:
  assumes "pst k ((nat (current_pid k) + d) mod MAX_PROC) = PROC_READY" "1 \<le> d" "d \<le> MAX_PROC"
  obtains i where "1 \<le> i" "i \<le> d" "find_next_ready k = Some ((nat (current_pid k) + i) mod MAX_PROC)"
    "pst k ((nat (current_pid k) + i) mod MAX_PROC) = PROC_READY"
    "\<And>m. 1 \<le> m \<Longrightarrow> m < i \<Longrightarrow> pst k ((nat (current_pid k) + m) mod MAX_PROC) \<noteq> PROC_READY"
proof -
  let ?P = "\<lambda>i. pst k ((nat (current_pid k) + i) mod MAX_PROC) = PROC_READY"
  let ?xs = "[1..<MAX_PROC + 1]"
  have "d \<in> set ?xs" using assms by simp
  then have "find ?P ?xs \<noteq> None" using assms(1) unfolding find_None_iff by blast
  then obtain i where f: "find ?P ?xs = Some i" by blast
  then obtain q where q: "q < length ?xs" "?P (?xs ! q)" "i = ?xs ! q" "\<And>r. r < q \<Longrightarrow> \<not> ?P (?xs ! r)"
    unfolding find_Some_iff by blast
  have i: "i = q + 1" using q(1,3) by (simp del: upt_Suc)
  have below: "\<not> ?P m" if "1 \<le> m" "m < i" for m
    using q(4) [of "m - 1"] that i q(1) by (simp del: upt_Suc)
  have "i \<le> d" using below [of d] assms(1,2) by (cases "d < i") auto
  moreover have "find_next_ready k = Some ((nat (current_pid k) + i) mod MAX_PROC)"
    using f by (simp add: find_next_ready_def)
  ultimately show ?thesis using that [of i] i q(2,3) below by simp
qed

lemma slot_moves:
  fixes c i :: nat
  assumes "c < MAX_PROC" "1 \<le> i" "i < MAX_PROC"
  shows "(c + i) mod MAX_PROC \<noteq> c"
proof (cases "c + i < MAX_PROC")
  case True
  then show ?thesis using assms by simp
next
  case False
  then have "(c + i) mod MAX_PROC = (c + i - MAX_PROC) mod MAX_PROC" by (intro le_mod_geq) simp
  also have "\<dots> = c + i - MAX_PROC" using assms by (intro mod_less) simp
  finally show ?thesis using assms False by simp
qed

text \<open>\<open>k n\<close> is the kernel after \<open>n\<close> calls of the scheduler and \<open>e n\<close> the one the next call is made in.\<close>

definition sched_seq :: "nat \<Rightarrow> nat \<Rightarrow> (nat \<Rightarrow> kernel) \<Rightarrow> (nat \<Rightarrow> kernel) \<Rightarrow> bool" where
  "sched_seq j d k e \<longleftrightarrow> (\<forall>n<d. current_pid (e n) = current_pid (k n) \<and>
     (pst (k n) j = PROC_READY \<longrightarrow> pst (e n) j = PROC_READY) \<and> k (Suc n) = schedule (e n))"

lemma sched_seq_reaches:
  assumes "sched_seq j d k e"
    and "0 \<le> current_pid (k 0)" "current_pid (k 0) < int MAX_PROC" "pst (k 0) j = PROC_READY"
    and "(nat (current_pid (k 0)) + d) mod MAX_PROC = j" "1 \<le> d" "d \<le> MAX_PROC"
  shows "\<exists>n. 1 \<le> n \<and> n \<le> d \<and> current_pid (k n) = int j"
  using assms
proof (induction d arbitrary: k e rule: less_induct)
  case (less d)
  let ?c = "nat (current_pid (k 0))" and ?k' = "e 0"
  have cur: "current_pid ?k' = current_pid (k 0)" and rj: "pst ?k' j = PROC_READY" and k1: "k (Suc 0) = schedule ?k'"
    using less.prems(1,4,6) by (auto simp: sched_seq_def)
  obtain i where i: "1 \<le> i" "i \<le> d" "find_next_ready ?k' = Some ((?c + i) mod MAX_PROC)"
    using find_next_ready_near [of ?k' d] rj cur less.prems(5-7) by auto
  let ?m = "(?c + i) mod MAX_PROC"
  show ?case
  proof (cases "?m = j")
    case True
    have "current_pid (k (Suc 0)) = int j"
      using schedule_same [OF i(3)] schedule_Some(1) [OF i(3)] True cur k1 by (cases "int ?m = current_pid (k 0)") auto
    then show ?thesis using less.prems(6) by (intro exI [of _ 1]) simp
  next
    case False
    then have id: "i < d" using i(2) less.prems(5) by (cases "i = d") auto
    have c64: "?c < MAX_PROC" using less.prems(2,3) by simp
    have "?m \<noteq> ?c" using slot_moves [OF c64 i(1)] id less.prems(7) by simp
    then have nc: "int ?m \<noteq> current_pid ?k'" using cur less.prems(2) by auto
    have s: "current_pid (k (Suc 0)) = int ?m" "pst (k (Suc 0)) j = PROC_READY"
      using schedule_Some(1) [OF i(3) nc] schedule_Some(3) [OF i(3) nc, of j] rj False k1 by auto
    have "(?m + (d - i)) mod MAX_PROC = (?c + i + (d - i)) mod MAX_PROC" by (rule mod_add_left_eq)
    also have "?c + i + (d - i) = ?c + d" using id by simp
    finally have m: "(?m + (d - i)) mod MAX_PROC = j" using less.prems(5) by simp
    have "sched_seq j (d - i) (\<lambda>n. k (Suc n)) (\<lambda>n. e (Suc n))"
      using less.prems(1) i(1) by (simp add: sched_seq_def)
    then have "\<exists>n. 1 \<le> n \<and> n \<le> d - i \<and> current_pid (k (Suc n)) = int j"
      using less.IH [of "d - i" "\<lambda>n. k (Suc n)" "\<lambda>n. e (Suc n)"] less.prems(7) s id i(1) m by auto
    then obtain n where "1 \<le> n" "n \<le> d - i" "current_pid (k (Suc n)) = int j" by blast
    then show ?thesis using i(1) id by (intro exI [of _ "Suc n"]) auto
  qed
qed

section \<open>Identifiers\<close>

definition pids_ok :: "kernel \<Rightarrow> bool" where
  "pids_ok k \<longleftrightarrow> 0 < next_pid k \<and>
    (\<forall>i < MAX_PROC. pid (pcb_table k i) < next_pid k \<and>
       (\<forall>j < MAX_PROC. pid (pcb_table k i) = pid (pcb_table k j) \<longrightarrow> pid (pcb_table k i) \<noteq> -1 \<longrightarrow> i = j))"

lemma pids_ok_keep:
  assumes "pids_ok k" "next_pid k' = next_pid k" "\<And>i. pid (pcb_table k' i) = pid (pcb_table k i)"
  shows "pids_ok k'"
  using assms unfolding pids_ok_def by metis

text \<open>The pids are distinct and handed out below \<open>b\<close>; as long as \<open>b\<close> is an \<^verbatim>\<open>int\<close>, one more creation
  keeps them so.\<close>

definition pids_upto :: "int \<Rightarrow> kernel \<Rightarrow> bool" where
  "pids_upto b k \<longleftrightarrow> pids_ok k \<and> next_pid k \<le> b"

lemma pids_upto_new:
  assumes "pids_upto b k" and b: "b < 2 ^ 31 - 1"
    and t: "\<And>i. i \<noteq> slot \<Longrightarrow> pcb_table k' i = pcb_table k i"
    and p: "pid (pcb_table k' slot) = next_pid k" "next_pid k' = cint (next_pid k + 1)"
  shows "pids_upto (b + 1) k'"
proof -
  have ok: "pids_ok k" and n: "next_pid k \<le> b" using assms(1) by (simp_all add: pids_upto_def)
  have "0 < next_pid k" using ok by (simp add: pids_ok_def)
  with n b have p2: "next_pid k' = next_pid k + 1" unfolding p(2) by (intro cint_id) simp_all
  have old: "pid (pcb_table k' i) < next_pid k" if "i < MAX_PROC" "i \<noteq> slot" for i
    using ok that t [of i] unfolding pids_ok_def by simp
  have "i = j" if "i < MAX_PROC" "j < MAX_PROC" "pid (pcb_table k' i) = pid (pcb_table k' j)"
      "pid (pcb_table k' i) \<noteq> -1" for i j
  proof (cases "i = slot \<or> j = slot")
    case True
    then show ?thesis using that old [of i] old [of j] p(1) by (cases "i = slot"; cases "j = slot") auto
  next
    case False
    then show ?thesis using that ok t [of i] t [of j] unfolding pids_ok_def by simp
  qed
  moreover have "pid (pcb_table k' i) < next_pid k'" if "i < MAX_PROC" for i
    using that old [of i] p(1) p2 by (cases "i = slot") auto
  ultimately show ?thesis using ok p2 n unfolding pids_upto_def pids_ok_def by simp
qed

lemma find_emptyD: "find_empty k = Some i \<Longrightarrow> i < MAX_PROC \<and> pst k i = PROC_EMPTY"
  by (auto simp: find_empty_def find_Some_iff)

lemma pids_ok_procs: "procs k' = procs k \<Longrightarrow> pids_ok k' \<longleftrightarrow> pids_ok k"
  by (simp add: procs_def pids_ok_def)

lemma pids_upto_procs: "procs k' = procs k \<Longrightarrow> pids_upto b k \<Longrightarrow> pids_upto (b + 1) k'"
  by (simp add: pids_upto_def procs_def pids_ok_def)

lemma pids_upto_Suc: "pids_upto b k \<Longrightarrow> pids_upto (b + 1) k"
  by (rule pids_upto_procs) simp

lemma spawn_pids:
  assumes ok: "pids_upto b k" "b < 2 ^ 31 - 1"
  shows "pids_upto (b + 1) (snd (proc_spawn name e u k))"
proof (cases "find_empty k")
  case None
  then show ?thesis using pids_upto_Suc [OF ok(1)] by (simp add: proc_spawn_def)
next
  case (Some slot)
  obtain ks k1 where 1: "on_heap (mmap_user STACK_SIZE) k = (ks, k1)" by fastforce
  obtain p4 k2 where 2: "on_heap pml4_create k1 = (p4, k2)" by fastforce
  obtain m k3 where 3: "new_vm_map k2 = (m, k3)" by fastforce
  note p = procs_on_heap_eq [OF 1] procs_on_heap_eq [OF 2] procs_new_vm_map [OF 3]
  show ?thesis
  proof (cases "ks = 0 \<or> p4 = 0")
    case True
    have "procs (snd (proc_spawn name e u k)) = procs k"
      using True Some 1 2 p by (auto simp: proc_spawn_def)
    then show ?thesis using ok(1) by (rule pids_upto_procs)
  next
    case False
    have d: "procs k3 = procs k" using p by simp
    show ?thesis
      by (rule pids_upto_new [OF ok, of slot])
        (use False Some 1 2 3 procs_D [OF d] find_emptyD [OF Some] in \<open>auto simp: proc_spawn_def Let_def\<close>)
  qed
qed

lemma create_pids:
  assumes ok: "pids_upto b k" "b < 2 ^ 31 - 1"
  shows "pids_upto (b + 1) (snd (process_create_user name e us n k))"
proof (cases "pcb_count k \<ge> MAX_PROC")
  case True
  then show ?thesis using pids_upto_Suc [OF ok(1)] by (simp add: process_create_user_def alloc_pcb_def)
next
  case False
  define k0 where "k0 = k\<lparr>pcb_count := pcb_count k + 1\<rparr>"
  have a: "alloc_pcb k = (Some (pcb_count k), k0)" using False by (simp add: alloc_pcb_def k0_def)
  have ok0: "pids_upto b k0" using ok(1) by (auto simp: pids_upto_def pids_ok_def k0_def)
  obtain ks k1 where 1: "on_heap (kmalloc STACK_SIZE) k0 = (ks, k1)" by fastforce
  obtain m k2 where 2: "new_vm_map k1 = (m, k2)" by fastforce
  note p = procs_on_heap_eq [OF 1] procs_new_vm_map [OF 2]
  show ?thesis
  proof (cases "ks = 0")
    case True
    then show ?thesis using pids_upto_procs [OF p(1) ok0] a 1 by (simp add: process_create_user_def)
  next
    case False
    have d: "procs k2 = procs k0" using p by simp
    show ?thesis
      by (rule pids_upto_new [OF ok, of "pcb_count k"])
        (use False a 1 2 procs_D [OF d] in
          \<open>auto simp: process_create_user_def setup_user_stack_def Let_def k0_def\<close>)
  qed
qed

lemma clone_pids:
  assumes ok: "pids_upto b k" "b < 2 ^ 31 - 1"
  shows "pids_upto (b + 1) (snd (proc_clone_thread fl ns pt ct tls kf k))"
proof (cases "process_current k = None \<or> fl AND CLONE_THREAD = 0 \<or> fl AND CLONE_VM = 0 \<or> find_empty k = None")
  case True
  then show ?thesis using pids_upto_Suc [OF ok(1)] by (auto simp: proc_clone_thread_def split: option.splits)
next
  case False
  then obtain par slot where s: "process_current k = Some par" "find_empty k = Some slot" by auto
  obtain ks k1 where 1: "on_heap (kmalloc STACK_SIZE) k = (ks, k1)" by fastforce
  note p = procs_on_heap_eq [OF 1]
  show ?thesis
  proof (cases "ks = 0")
    case True
    then have "snd (proc_clone_thread fl ns pt ct tls kf k) = k1"
      using False s 1 by (simp add: proc_clone_thread_def)
    then show ?thesis using pids_upto_procs [OF p ok(1)] by simp
  next
    case ks: False
    show ?thesis
      by (rule pids_upto_new [OF ok, of slot])
        (use False ks s 1 procs_D [OF p] find_emptyD [OF s(2)] in
          \<open>auto simp: proc_clone_thread_def Let_def\<close>)
  qed
qed

text \<open>The descriptor tables are untouched by the memory and map operations.\<close>

definition files :: "kernel \<Rightarrow> (nat \<Rightarrow> fdtable) \<times> nat \<times> (nat \<Rightarrow> pipe) \<times> (nat \<Rightarrow> sock)" where
  "files k = (fd_tables k, fdtab k, pipes k, socks k)"

lemma files_simps [simp]:
  "files (set_heap h k) = files k" "files (set_vmap a m k) = files k" "files (set_vobj a ob k) = files k"
  "files (upd_heap f k) = files k" "files (set_pcb i p k) = files k" "files (tss_set_rsp0 x k) = files k"
  "files (vm_map_init x lo hi k) = files k" "files (snd (on_heap g k)) = files k"
  by (simp_all add: files_def set_heap_def set_vmap_def set_vobj_def upd_heap_def set_pcb_def tss_set_rsp0_def
      vm_map_init_def on_heap_def split: prod.splits)

lemma files_on_heap_eq: "on_heap f k = (r, k') \<Longrightarrow> files k' = files k"
  using files_simps(8) [of f k] by simp

lemma files_vm_map_fixed [simp]: "files (snd (vm_map_fixed m obj off a sz pr fl k)) = files k"
  by (auto simp: vm_map_fixed_def Let_def entry_alloc_def vm_object_share_def
      dest!: files_on_heap_eq split: prod.splits)

lemma files_vm_map_copy_to [simp]: "files (vm_map_copy_to m m' k) = files k"
proof -
  have "files (vm_map_copy_entries es m k) = files k" for es
    by (induction es arbitrary: k) (simp_all add: Let_def)
  then show ?thesis by (simp add: vm_map_copy_to_def)
qed

lemma files_new_vm_map: "new_vm_map k = (m, k') \<Longrightarrow> files k' = files k"
  by (auto simp: new_vm_map_def dest: files_on_heap_eq split: prod.splits)

lemma files_D:
  assumes "files k' = files k"
  shows "fd_tables k' = fd_tables k" "fdtab k' = fdtab k"
  using assms by (simp_all add: files_def)

lemma fork_fill_simps [simp]:
  "pid (pcb_table (fork_fill kf ur slot pp ks p4 m k) slot) = next_pid k"
  "pst (fork_fill kf ur slot pp ks p4 m k) slot = PROC_READY"
  "parent_pid (pcb_table (fork_fill kf ur slot pp ks p4 m k) slot) = pid pp"
  "cwd (pcb_table (fork_fill kf ur slot pp ks p4 m k) slot) = cwd pp"
  "pml4 (pcb_table (fork_fill kf ur slot pp ks p4 m k) slot) = p4"
  "fds_tab (pcb_table (fork_fill kf ur slot pp ks p4 m k) slot) = fds_tab_addr slot"
  "th_parent_pid (pcb_table (fork_fill kf ur slot pp ks p4 m k) slot) = th_parent_pid (pcb_table k slot)"
  "clear_tid (pcb_table (fork_fill kf ur slot pp ks p4 m k) slot) = clear_tid (pcb_table k slot)"
  "i \<noteq> slot \<Longrightarrow> pcb_table (fork_fill kf ur slot pp ks p4 m k) i = pcb_table k i"
  "next_pid (fork_fill kf ur slot pp ks p4 m k) = cint (next_pid k + 1)"
  "current_pid (fork_fill kf ur slot pp ks p4 m k) = current_pid k"
  by (simp_all add: fork_fill_def Let_def fds_dup_into_slot_def)

lemma fork_fill_fds:
  "slot < MAX_PROC \<Longrightarrow> fd_tables (fork_fill kf ur slot pp ks p4 m k) slot = fd_tables k (fdtab k)"
  by (simp add: fork_fill_def Let_def fds_dup_into_slot_def upd_heap_def set_heap_def set_pcb_def)

lemma fork_cases:
  obtains (failed) k1 where "proc_fork kf ur k = (-1, k1)" "procs k1 = procs k"
      "process_current k = None \<or> find_empty k = None \<or> fst (on_heap (kmalloc STACK_SIZE) k) = 0 \<or>
       fst (on_heap pml4_create (snd (on_heap (kmalloc STACK_SIZE) k))) = 0"
  | (forked) par slot ks p4 m k1 where "process_current k = Some par" "find_empty k = Some slot"
      "procs k1 = procs k" "files k1 = files k"
      "proc_fork kf ur k = (next_pid k, fork_fill kf ur slot (pcb_table k par) ks p4 m k1)"
proof (cases "process_current k = None \<or> find_empty k = None")
  case True
  then show ?thesis using failed [of k] by (auto simp: proc_fork_def split: option.splits)
next
  case False
  then obtain par slot where s: "process_current k = Some par" "find_empty k = Some slot" by auto
  obtain ks k1 where 1: "on_heap (kmalloc STACK_SIZE) k = (ks, k1)" by fastforce
  obtain p4 k2 where 2: "on_heap pml4_create k1 = (p4, k2)" by fastforce
  obtain m k3 where 3: "new_vm_map k2 = (m, k3)" by fastforce
  note p = procs_on_heap_eq [OF 1] procs_on_heap_eq [OF 2] procs_new_vm_map [OF 3]
  note f = files_on_heap_eq [OF 1] files_on_heap_eq [OF 2] files_new_vm_map [OF 3]
  show ?thesis
  proof (cases "ks = 0 \<or> p4 = 0")
    case True
    then show ?thesis using failed s 1 2 p by (cases "ks = 0") (auto simp: proc_fork_def)
  next
    case nz: False
    define k4 where "k4 = (if m \<noteq> 0 \<and> vm_map_ptr (pcb_table k3 par) \<noteq> 0
      then vm_map_copy_to m (vm_map_ptr (pcb_table k3 par)) k3 else k3)"
    have p4: "procs k4 = procs k" "files k4 = files k" using p f by (simp_all add: k4_def)
    have "pcb_table k3 par = pcb_table k par" using procs_D(1) [of k3 k] p by simp
    then have "proc_fork kf ur k = (next_pid k, fork_fill kf ur slot (pcb_table k par) ks p4 m k4)"
      using s 1 2 3 nz procs_D(3) [OF p4(1)] by (auto simp: proc_fork_def Let_def k4_def split: if_splits)
    then show ?thesis using forked s p4 by blast
  qed
qed

lemma fork_pids:
  assumes ok: "pids_upto b k" "b < 2 ^ 31 - 1"
  shows "pids_upto (b + 1) (snd (proc_fork kf ur k))"
proof (cases rule: fork_cases [of kf ur k])
  case (failed k1)
  then show ?thesis using pids_upto_procs [OF failed(2) ok(1)] by simp
next
  case (forked par slot ks p4 m k1)
  show ?thesis
    by (rule pids_upto_new [OF ok, of slot]) (use forked procs_D [OF forked(3)] in auto)
qed

lemma wake_keeps:
  "pid (pcb_table (proc_wake_parent c k) i) = pid (pcb_table k i)"
  "next_pid (proc_wake_parent c k) = next_pid k" "pcb_count (proc_wake_parent c k) = pcb_count k"
  "pst (proc_wake_parent c k) i \<noteq> PROC_EMPTY \<longleftrightarrow> pst k i \<noteq> PROC_EMPTY"
  by (auto simp: proc_wake_parent_def find_Some_iff split: option.splits)

lemma close_exec_procs [simp]: "procs (fds_close_exec t k) = procs k"
  by (auto simp: fds_close_exec_def split: option.splits)

lemma fds_cleanup_procs [simp]: "procs (fds_cleanup k) = procs k"
  by (simp add: fds_cleanup_def)

lemma process_currentD:
  "process_current k = Some i \<Longrightarrow> i < MAX_PROC \<and> pst k i \<noteq> PROC_EMPTY \<and> pid (pcb_table k i) = current_pid k"
  by (auto simp: process_current_def find_Some_iff)

lemma fd_simps [simp]:
  "pcb_table (fds_cleanup k) = pcb_table k" "next_pid (fds_cleanup k) = next_pid k"
  "current_pid (fds_cleanup k) = current_pid k"
  "pcb_table (fds_close_exec t k) = pcb_table k" "next_pid (fds_close_exec t k) = next_pid k"
  using procs_D [OF fds_cleanup_procs] procs_D [OF close_exec_procs] by auto

text \<open>The operations that only move processes between states.\<close>

lemma state_ops_keep:
  "pid (pcb_table (process_exit_current c k) i) = pid (pcb_table k i)"
  "next_pid (process_exit_current c k) = next_pid k"
  "pid (pcb_table (proc_exit c k) i) = pid (pcb_table k i)" "next_pid (proc_exit c k) = next_pid k"
  "pid (pcb_table (process_switch_to p k) i) = pid (pcb_table k i)"
  "next_pid (process_switch_to p k) = next_pid k"
  "pid (pcb_table (proc_thread_exit c k) i) = pid (pcb_table k i)"
  "next_pid (proc_thread_exit c k) = next_pid k"
  by (auto simp: process_exit_current_def proc_exit_def process_switch_to_def proc_thread_exit_def Let_def
      wake_keeps split: option.splits if_splits)

lemma wait_keeps:
  "pid (pcb_table (snd (waitpid_pass p k)) i) = pid (pcb_table k i)"
  "next_pid (snd (waitpid_pass p k)) = next_pid k"
  by (auto simp: waitpid_pass_def Let_def procs_D [OF procs_on_heap] split: option.splits if_splits)

text \<open>The calls that may create a process, and the others.\<close>

inductive proc_creates :: "kernel \<Rightarrow> kernel \<Rightarrow> bool" where
  "proc_creates k (snd (process_create_user name ent us usz k))"
| "proc_creates k (snd (proc_spawn name ent us k))"
| "proc_creates k (snd (proc_fork kframe ursp k))"
| "proc_creates k (snd (proc_clone_thread flags nsp ptid ctid tls kframe k))"

inductive proc_moves :: "kernel \<Rightarrow> kernel \<Rightarrow> bool" where
  "proc_moves k (schedule k)"
| "proc_moves k (process_switch_to p k)"
| "proc_moves k (process_exit_current c k)"
| "proc_moves k (proc_exit c k)"
| "proc_moves k (proc_thread_exit c k)"
| "proc_moves k (sys_exit c k)"
| "proc_moves k (snd (waitpid_pass p k))"
| "proc_moves k (k\<lparr>g_in_syscall := b, cpu_rsp := r, fs_msr := f\<rparr>)"

text \<open>A history with \<open>n\<close> calls that may create a process, the failed ones included\<close>

inductive proc_run :: "nat \<Rightarrow> kernel \<Rightarrow> kernel \<Rightarrow> bool" where
  start: "proc_run 0 k k"
| creates: "proc_run n k k' \<Longrightarrow> proc_creates k' k'' \<Longrightarrow> proc_run (Suc n) k k''"
| moves: "proc_run n k k' \<Longrightarrow> proc_moves k' k'' \<Longrightarrow> proc_run n k k''"

lemma pids_upto_keep:
  assumes "pids_upto b k" "next_pid k' = next_pid k" "\<And>i. pid (pcb_table k' i) = pid (pcb_table k i)"
  shows "pids_upto b k'"
  using pids_ok_keep [of k k'] assms by (simp add: pids_upto_def)

lemma proc_creates_pids: "proc_creates k k' \<Longrightarrow> pids_upto b k \<Longrightarrow> b < 2 ^ 31 - 1 \<Longrightarrow> pids_upto (b + 1) k'"
  by (induction rule: proc_creates.induct) (auto intro: create_pids spawn_pids fork_pids clone_pids)

lemma proc_moves_pids: "proc_moves k k' \<Longrightarrow> pids_upto b k \<Longrightarrow> pids_upto b k'"
proof (induction rule: proc_moves.induct)
  case (6 k c)
  then show ?case
    by (auto simp: sys_exit_def state_ops_keep split: option.splits elim: pids_upto_keep)
qed (auto simp: state_ops_keep wait_keeps elim: pids_upto_keep)

lemma process_init_pids: "pids_upto 1 (process_init e k)"
  by (auto simp: process_init_def alloc_pcb_def Let_def pids_upto_def pids_ok_def zero_pcb_def procs_def
      dest!: procs_on_heap_eq split: prod.splits if_splits)

lemma proc_run_pids:
  assumes "proc_run n k k'" "pids_upto 1 k" "int n < 2 ^ 31 - 1"
  shows "pids_upto (1 + int n) k'"
  using assms
proof (induction rule: proc_run.induct)
  case (creates n k k' k'')
  then show ?case using proc_creates_pids [OF creates(2), of "1 + int n"] by simp
next
  case (moves n k k' k'')
  then show ?case using proc_moves_pids by blast
qed simp

lemma find_unique:
  assumes "i < n" "P i" "\<And>j. j < n \<Longrightarrow> P j \<Longrightarrow> j = i"
  shows "find P [0..<n] = Some i"
proof -
  have "find P [0..<n] \<noteq> None" unfolding find_None_iff using assms(1,2) by auto
  then obtain j where j: "find P [0..<n] = Some j" by blast
  then have "j < n" "P j" by (auto simp: find_Some_iff)
  then show ?thesis using j assms(3) by blast
qed

section \<open>Waiting\<close>

lemma schedule_empty:
  assumes "pst k i = PROC_EMPTY"
  shows "pst (schedule k) i = PROC_EMPTY"
  using schedule_nonempty [of k i] assms by blast

lemma find_pid_keep:
  assumes "\<And>i. i < MAX_PROC \<Longrightarrow> pid (pcb_table k' i) = pid (pcb_table k i)"
  shows "find_pid p k' = find_pid p k"
  unfolding find_pid_def by (rule find_cong) (use assms in auto)

lemma waitpid_stuck:
  assumes "find_pid p k = Some i" "pst k i = PROC_EMPTY"
    and env: "\<And>n x j. pid (pcb_table (env n x) j) = pid (pcb_table x j)"
      "\<And>n x. pst x i = PROC_EMPTY \<Longrightarrow> pst (env n x) i = PROC_EMPTY"
  shows "proc_waitpid n env p k = None"
  using assms(1,2)
proof (induction n arbitrary: k)
  case (Suc n)
  let ?k = "env n (schedule k)"
  have "find_pid p ?k = Some i" using find_pid_keep [of ?k k p] Suc.prems(1) env(1) by simp
  moreover have "pst ?k i = PROC_EMPTY" using env(2) schedule_empty [OF Suc.prems(2)] by blast
  ultimately show ?case using Suc.IH Suc.prems by (simp add: waitpid_pass_def)
qed simp

end
