(* ===== verification/ProcessThms.thy ===== *)
theory ProcessThms
  imports ProcessProps
begin

text \<open>
  The properties of the process table, with a concrete kernel on which they are exercised.
\<close>

definition demo_pcb :: "int \<Rightarrow> proc_state \<Rightarrow> int \<Rightarrow> pcb" where
  "demo_pcb p st th = zero_pcb\<lparr>pid := p, state := st, th_parent_pid := th, pml4 := 0x5000, rsp0 := 0x1000\<rparr>"

text \<open>Slot 1 runs, slot 3 holds the ready process 7, slot 2 was last used by a thread of process 1 and
  slot 4 holds a zombie.\<close>

definition demo_kernel :: kernel where
  "demo_kernel =
    \<lparr>heap = boot_heap\<lparr>pcpu_pages := [0xA05000]\<rparr>, vobjs = \<lambda>_. \<lparr>refcnt = 0, obj_bytes = 0, pages_arr = 0, page_count = 0\<rparr>,
     vmaps = \<lambda>_. \<lparr>entries = [], nentries = 0, min_offset = 0, max_offset = 0\<rparr>,
     pcb_table = (\<lambda>_. demo_pcb (-1) PROC_EMPTY (-1))(0 := demo_pcb 0 PROC_BLOCKED (-1),
       1 := demo_pcb 1 PROC_RUNNING (-1), 2 := demo_pcb 5 PROC_EMPTY 1, 3 := demo_pcb 7 PROC_READY (-1),
       4 := (demo_pcb 6 PROC_ZOMBIE (-1))\<lparr>exit_code := 9\<rparr>),
     current_pid = 1, pcb_count = 5, next_pid = 8, tss_rsp0 = 0, cpu_slot = 1, cpu_rsp = 0, fs_msr = 0,
     g_in_syscall = False,
     fd_tables = \<lambda>_ _. \<lparr>f_used = False, f_type = FD_FILE, f_flags = 0, f_pipe = -1, f_sock = -1, f_name = [],
       f_pos = 0, f_wend = False, f_counter = 0\<rparr>,
     fdtab = MAX_PROC, pipes = \<lambda>_. \<lparr>p_used = False, p_ring = \<lparr>rbuf = \<lambda>_. 0, rpos = 0, wpos = 0\<rparr>\<rparr>,
     socks = \<lambda>_. \<lparr>s_used = False, s_path = [], s_listening = False, s_peer = -1, s_nonblock = False,
       s_pending = [], s_ring = \<lparr>rbuf = \<lambda>_. 0, rpos = 0, wpos = 0\<rparr>\<rparr>\<rparr>"

lemma demo_simps [simp]:
  "current_pid demo_kernel = 1" "next_pid demo_kernel = 8" "fdtab demo_kernel = MAX_PROC"
  "pcb_table demo_kernel = (\<lambda>_. demo_pcb (-1) PROC_EMPTY (-1))(0 := demo_pcb 0 PROC_BLOCKED (-1),
     1 := demo_pcb 1 PROC_RUNNING (-1), 2 := demo_pcb 5 PROC_EMPTY 1, 3 := demo_pcb 7 PROC_READY (-1),
     4 := (demo_pcb 6 PROC_ZOMBIE (-1))\<lparr>exit_code := 9\<rparr>)"
  by (simp_all add: demo_kernel_def)

lemma demo_finds:
  "process_current demo_kernel = Some 1" "find_empty demo_kernel = Some 2"
  "find_next_ready demo_kernel = Some 3" "find_pid 6 demo_kernel = Some 4"
  by (simp_all add: process_current_def find_empty_def find_next_ready_def find_pid_def upt_rec demo_pcb_def
      del: upt_Suc)

lemma demo_pids: "pids_ok demo_kernel"
  by (simp add: pids_ok_def demo_pcb_def)

text \<open>An 8 KB kernel stack can be had, and the page in the per-CPU pool is still there afterwards.\<close>

lemma demo_kmalloc:
  obtains ks h where "kmalloc STACK_SIZE (heap demo_kernel) = (ks, h)" "ks \<noteq> 0" "pcpu_pages h = [0xA05000]"
proof -
  define s where "s = heap demo_kernel"
  have s: "s = boot_heap\<lparr>pcpu_pages := [0xA05000]\<rparr>" by (simp add: s_def demo_kernel_def)
  have f: "free_list s = free_list boot_heap" by (simp add: s free_list_def fun_eq_iff)
  have inv: "buddy_inv s"
    using boot_heap_inv unfolding buddy_inv_def f by (simp add: s binv_def alloc_blocks_def is_alloc_def frame_order_def)
  have "order_for 2 0 = 1" by (simp add: order_for.simps)
  then have k: "kmalloc STACK_SIZE s = buddy_alloc 1 False s"
    by (simp add: kmalloc_def size_to_pages_alt Let_def)
  show ?thesis using inv surjective_pairing [of "buddy_alloc 1 False s"]
  proof (cases rule: buddy_alloc_cases)
    case exhausted
    have "(0, 14) \<in> free_set s" using boot_heap_free(1) f by simp
    then show ?thesis using exhausted(5) by fastforce
  next
    case (allocated b k)
    then have "fst (buddy_alloc 1 False s) \<noteq> 0" by (simp add: alloc_step_def block_ok_def)
    moreover have "pcpu_pages (snd (buddy_alloc 1 False s)) = [0xA05000]"
      using allocated(4) by (simp add: alloc_step_def caches_def s)
    ultimately show ?thesis using that k s_def by (metis prod.collapse)
  qed simp
qed

lemma exit_current_zombie:
  assumes "process_current k = Some me"
  shows "pst (process_exit_current c k) me = PROC_ZOMBIE \<and>
    exit_code (pcb_table (process_exit_current c k) me) = c"
proof -
  define k1 where "k1 = fds_close_exec (fds_tab (pcb_table k me)) k"
  define k2 where "k2 = set_pcb me ((pcb_table k1 me)\<lparr>exit_code := c, state := PROC_ZOMBIE\<rparr>) k1"
  have z: "pst k2 me = PROC_ZOMBIE" "exit_code (pcb_table k2 me) = c" by (simp_all add: k2_def)
  have w: "pcb_table (proc_wake_parent x k2) me = pcb_table k2 me" for x
    using z by (auto simp: proc_wake_parent_def find_Some_iff split: option.splits)
  show ?thesis using assms z w
    by (auto simp: process_exit_current_def Let_def k1_def [symmetric] k2_def [symmetric] ctx_switch_def)
qed

section \<open>Identifiers\<close>

text \<open>C9: After \<^verbatim>\<open>process_init\<close> and any history of creating, spawning, forking and cloning processes,
  scheduling, switching, exiting and waiting with fewer than \<open>2 ^ 31 - 1\<close> calls that may create a process,
  no two slots of the table carry the same pid, other than the \<open>-1\<close> the unused slots share: looking a
  process up by its pid is unambiguous. The pid counter is an \<^verbatim>\<open>int\<close>, and its wrap-around is what the bound
  excludes.\<close>

theorem pids_unique:
  assumes "proc_run n (process_init e k0) k" "int n < 2 ^ 31 - 1"
    "find_pid p k = Some i" "p \<noteq> -1" "j < MAX_PROC" "pid (pcb_table k j) = p"
  shows "j = i \<and> p < next_pid k"
  using proc_run_pids [OF assms(1) process_init_pids assms(2)] assms(3-6)
  by (auto simp: pids_upto_def pids_ok_def find_pid_def find_Some_iff)

theorem pids_unique_witness:
  "find_pid 0 (process_init 0 demo_kernel) = Some 0 \<and> 0 < next_pid (process_init 0 demo_kernel)"
proof -
  obtain ks h where "kmalloc STACK_SIZE (heap demo_kernel) = (ks, h)" "ks \<noteq> 0"
    using demo_kmalloc by metis
  then have p: "pid (pcb_table (process_init 0 demo_kernel) i) = (if i = 0 then 0 else -1)" for i
    by (simp add: process_init_def alloc_pcb_def Let_def on_heap_def fds_cleanup_def set_heap_def zero_pcb_def)
  then have "find_pid 0 (process_init 0 demo_kernel) = Some 0"
    by (simp add: find_pid_def upt_rec del: upt_Suc)
  then show ?thesis using pids_unique [OF proc_run.start, of 0 0 demo_kernel 0 0] p by simp
qed

section \<open>Scheduling\<close>

text \<open>Creating processes and threads and reaping them leaves the CPU with the process that has it
  and takes no process out of the ready state, so any number of these calls may stand between two calls
  of the scheduler in the property below.\<close>

lemma creates_quiet:
  "proc_creates k k' \<Longrightarrow> current_pid k' = current_pid k \<and> (pst k j = PROC_READY \<longrightarrow> pst k' j = PROC_READY)"
proof (induction rule: proc_creates.induct)
  case (1 k name ent us usz)
  show ?case
    by (auto simp: process_create_user_def alloc_pcb_def setup_user_stack_def Let_def procs_def
        dest!: procs_on_heap_eq procs_new_vm_map split: prod.splits)
next
  case (2 k name ent us)
  show ?case
    by (auto simp: proc_spawn_def Let_def procs_D [OF procs_on_heap] procs_def
        dest!: procs_on_heap_eq procs_new_vm_map split: prod.splits option.splits)
next
  case (3 k kframe ursp)
  show ?case
  proof (cases rule: fork_cases [of kframe ursp k])
    case (failed k1)
    then show ?thesis using procs_D [OF failed(2)] by simp
  next
    case (forked par slot ks p4 m k1)
    then show ?thesis using procs_D [OF forked(3)] by (cases "j = slot") simp_all
  qed
next
  case (4 k flags nsp ptid ctid tls kframe)
  show ?case
    by (auto simp: proc_clone_thread_def Let_def procs_def dest!: procs_on_heap_eq split: prod.splits option.splits)
qed

lemma waitpid_quiet:
  "waitpid_pass p k = (Reaped q c, k') \<Longrightarrow>
   current_pid k' = current_pid k \<and> (pst k j = PROC_READY \<longrightarrow> pst k' j = PROC_READY)"
  by (auto simp: waitpid_pass_def Let_def procs_D [OF procs_on_heap] split: option.splits if_splits)

text \<open>C11: Among processes that only call the scheduler, \<^verbatim>\<open>schedule\<close> is fair: in any 64 consecutive calls
  of it between which nothing else sets \<^verbatim>\<open>current_pid\<close> and nothing stops the ready process in slot \<open>j\<close>,
  slot \<open>j\<close> is given the CPU. \<^verbatim>\<open>process_exit_current\<close> and \<^verbatim>\<open>process_switch_to\<close> do set \<^verbatim>\<open>current_pid\<close>, to a
  slot of their own choice, so a history in which they come between the calls is not covered.\<close>

theorem schedule_fair:
  assumes "\<forall>n<MAX_PROC. current_pid (e n) = current_pid (k n) \<and>
      (pst (k n) j = PROC_READY \<longrightarrow> pst (e n) j = PROC_READY) \<and> k (Suc n) = schedule (e n)"
    and "0 \<le> current_pid (k 0)" "current_pid (k 0) < int MAX_PROC" "pst (k 0) j = PROC_READY" "j < MAX_PROC"
  shows "\<exists>n. 1 \<le> n \<and> n \<le> MAX_PROC \<and> current_pid (k n) = int j"
proof -
  define c where "c = nat (current_pid (k 0))"
  define d where "d = (if c < j then j - c else MAX_PROC + j - c)"
  have c: "c < MAX_PROC" using assms(2,3) by (simp add: c_def)
  have d: "1 \<le> d" "d \<le> MAX_PROC" using c assms(5) by (auto simp: d_def)
  have "c + d = j \<or> c + d = j + MAX_PROC" using c by (auto simp: d_def)
  then have m: "(c + d) mod MAX_PROC = j" using assms(5) by (elim disjE) simp_all
  have "sched_seq j d k e" using assms(1) d(2) by (simp add: sched_seq_def)
  from sched_seq_reaches [OF this assms(2-4) _ d] m
  obtain n where "1 \<le> n" "n \<le> d" "current_pid (k n) = int j" by (auto simp: c_def)
  then show ?thesis using d by (intro exI [of _ n]) simp
qed

theorem schedule_fair_witness:
  "\<exists>n. 1 \<le> n \<and> n \<le> MAX_PROC \<and> current_pid ((schedule ^^ n) demo_kernel) = 3"
  using schedule_fair [of "\<lambda>n. (schedule ^^ n) demo_kernel" "\<lambda>n. (schedule ^^ n) demo_kernel" 3]
  by (simp add: demo_pcb_def)

text \<open>\<^verbatim>\<open>schedule\<close> records the slot of the process it switches to in \<^verbatim>\<open>current_pid\<close>, while
  \<^verbatim>\<open>process_current\<close> looks that number up as a pid: after a switch the kernel recognises the process
  that runs exactly when its pid happens to equal its slot.\<close>

theorem schedule_current:
  assumes "pids_ok k" "find_next_ready k = Some n" "int n \<noteq> current_pid k"
  shows "process_current (schedule k) = Some n \<longleftrightarrow> pid (pcb_table k n) = int n"
proof
  note s = schedule_Some [OF assms(2,3)]
  assume "process_current (schedule k) = Some n"
  then show "pid (pcb_table k n) = int n" using process_currentD [of "schedule k" n] s by simp
next
  note s = schedule_Some [OF assms(2,3)]
  assume p: "pid (pcb_table k n) = int n"
  have n: "n < MAX_PROC" using assms(2) by (auto simp: find_next_ready_def)
  show "process_current (schedule k) = Some n"
    unfolding process_current_def
    by (rule find_unique [OF n]) (use s n p assms(1) in \<open>auto simp: pids_ok_def\<close>)
qed

theorem schedule_current_witness: "process_current (schedule demo_kernel) \<noteq> Some 3"
  using schedule_current [OF demo_pids demo_finds(3)] by (simp add: demo_pcb_def)

section \<open>Forking, exiting, waiting\<close>

text \<open>C20: A successful \<^verbatim>\<open>proc_fork\<close> makes a ready child of the caller in the first empty slot, with a new
  pid, the caller's working directory and a copy of the caller's descriptor table, and leaves every
  other process alone. It also leaves in place the thread mark \<^verbatim>\<open>th_parent_pid\<close> and the \<^verbatim>\<open>clear_tid\<close>
  address of the slot's previous user.\<close>

theorem fork_child:
  assumes "proc_fork kf ur k = (r, k')" "r \<noteq> -1"
  shows "\<exists>par slot. process_current k = Some par \<and> find_empty k = Some slot \<and> r = next_pid k \<and>
    pid (pcb_table k' slot) = r \<and> pst k' slot = PROC_READY \<and>
    parent_pid (pcb_table k' slot) = pid (pcb_table k par) \<and> cwd (pcb_table k' slot) = cwd (pcb_table k par) \<and>
    fds_tab (pcb_table k' slot) = Some slot \<and> fd_tables k' slot = fd_tables k (fdtab k) \<and>
    th_parent_pid (pcb_table k' slot) = th_parent_pid (pcb_table k slot) \<and>
    clear_tid (pcb_table k' slot) = clear_tid (pcb_table k slot) \<and>
    current_pid k' = current_pid k \<and> (\<forall>i. i \<noteq> slot \<longrightarrow> pcb_table k' i = pcb_table k i)"
proof (cases rule: fork_cases [of kf ur k])
  case (failed k1)
  then show ?thesis using assms by simp
next
  case (forked par slot ks p4 m k1)
  have s: "slot < MAX_PROC" using find_emptyD [OF forked(2)] by simp
  show ?thesis
    by (intro exI [of _ par] exI [of _ slot])
      (use forked assms(1) s procs_D [OF forked(3)] files_D [OF forked(4)] fork_fill_fds [OF s] in
        \<open>auto simp: fds_tab_addr_def\<close>)
qed

theorem fork_child_witness:
  "fst (proc_fork (replicate 20 0) 0 demo_kernel) = 8 \<and>
   th_parent_pid (pcb_table (snd (proc_fork (replicate 20 0) 0 demo_kernel)) 2) = 1"
proof -
  obtain ks h where "kmalloc STACK_SIZE (heap demo_kernel) = (ks, h)" "ks \<noteq> 0" "pcpu_pages h = [0xA05000]"
    by (rule demo_kmalloc)
  then have "on_heap (kmalloc STACK_SIZE) demo_kernel = (ks, set_heap h demo_kernel)" "ks \<noteq> 0"
    "fst (on_heap pml4_create (set_heap h demo_kernel)) \<noteq> 0"
    by (simp_all add: on_heap_def set_heap_def pml4_create_def page_alloc_def pcpu_page_alloc_def)
  then have r: "fst (proc_fork (replicate 20 0) 0 demo_kernel) = 8"
    by (cases rule: fork_cases [of "replicate 20 0" 0 demo_kernel]) (use demo_finds in auto)
  show ?thesis
    using fork_child [OF surjective_pairing, of "replicate 20 0" 0 demo_kernel] r demo_finds
    by (auto simp: demo_pcb_def)
qed

text \<open>\<^verbatim>\<open>SYS_exit\<close> ends a process as a zombie that keeps its exit code for the parent, and a thread,
  recognised by a non-negative \<^verbatim>\<open>th_parent_pid\<close>, by giving its slot up at once.\<close>

theorem sys_exit_outcome:
  assumes "process_current k = Some me"
  shows "(th_parent_pid (pcb_table k me) \<ge> 0 \<longrightarrow> pst (sys_exit c k) me = PROC_EMPTY) \<and>
    (th_parent_pid (pcb_table k me) < 0 \<longrightarrow>
       pst (sys_exit c k) me = PROC_ZOMBIE \<and> exit_code (pcb_table (sys_exit c k) me) = c)"
proof (cases "th_parent_pid (pcb_table k me) \<ge> 0")
  case True
  then show ?thesis using assms
    by (auto simp: sys_exit_def proc_thread_exit_def Let_def intro!: schedule_empty)
next
  case False
  then show ?thesis using assms by (simp add: sys_exit_def exit_current_zombie)
qed

theorem sys_exit_outcome_witness:
  "pst (sys_exit 3 demo_kernel) 1 = PROC_ZOMBIE \<and> exit_code (pcb_table (sys_exit 3 demo_kernel) 1) = 3"
  using sys_exit_outcome [OF demo_finds(1), of 3] by (simp add: demo_pcb_def)

text \<open>\<^verbatim>\<open>proc_waitpid\<close> on a zombie returns at once with its pid and exit code, empties its slot and no
  other.\<close>

theorem waitpid_reaps:
  assumes "find_pid p k = Some i" "pst k i = PROC_ZOMBIE"
  shows "\<exists>k'. proc_waitpid (Suc n) env p k = Some (Reaped p (exit_code (pcb_table k i)), k') \<and>
    pcb_table k' = (pcb_table k)(i := (pcb_table k i)\<lparr>state := PROC_EMPTY\<rparr>)"
  using assms by (simp add: waitpid_pass_def Let_def procs_D [OF procs_on_heap])

theorem waitpid_reaps_witness:
  "\<exists>k'. proc_waitpid 1 (\<lambda>_ x. x) 6 demo_kernel = Some (Reaped 6 9, k') \<and> pst k' 4 = PROC_EMPTY"
  using waitpid_reaps [OF demo_finds(4), of 0 "\<lambda>_ x. x"] by (auto simp: demo_pcb_def)

text \<open>The slot of a reaped process keeps its pid, so a second \<^verbatim>\<open>proc_waitpid\<close> on it does not fail: it
  finds the pid in an empty slot and polls, and as long as the slot is not reused it never returns,
  however many passes it makes.\<close>

theorem waitpid_twice_stuck:
  assumes "find_pid p k = Some i" "waitpid_pass p k = (Reaped p c, k')"
    and "\<And>n x j. pid (pcb_table (env n x) j) = pid (pcb_table x j)"
    and "\<And>n x. pst x i = PROC_EMPTY \<Longrightarrow> pst (env n x) i = PROC_EMPTY"
  shows "proc_waitpid n env p k' = None"
proof -
  have "find_pid p k' = Some i" using find_pid_keep [of k' k p] wait_keeps [of p k] assms(1,2) by simp
  moreover have "pst k' i = PROC_EMPTY"
    using assms(1,2) by (auto simp: waitpid_pass_def Let_def split: if_splits)
  ultimately show ?thesis using waitpid_stuck assms(3,4) by blast
qed

theorem waitpid_twice_stuck_witness:
  "proc_waitpid 1000 (\<lambda>_ x. x) 6 (snd (waitpid_pass 6 demo_kernel)) = None"
proof -
  have "waitpid_pass 6 demo_kernel = (Reaped 6 9, snd (waitpid_pass 6 demo_kernel))"
    by (simp add: waitpid_pass_def demo_finds Let_def demo_pcb_def)
  then show ?thesis using waitpid_twice_stuck [OF demo_finds(4), of 9 _ "\<lambda>_ x. x"] by blast
qed

end
