(* ===== verification/Fat32.thy ===== *)
theory Fat32
  imports Prelude
begin

text \<open>
  The FAT32 driver of \<^verbatim>\<open>OvsbMk/fs/fat32.c\<close>. The disk is a store of 512-byte sectors; the driver's calls of
  \<^verbatim>\<open>ata_read_sector\<close> and \<^verbatim>\<open>ata_write_sector\<close> read and replace one sector, or fail, for the sectors the
  drive cannot read or write. The driver's static variables are the other fields of the state.

  All directory operations walk the sectors of a cluster chain in the same three nested loops and stop
  at the first slot they are interested in; \<open>scan_dir\<close> is this walk, with the body of the innermost loop
  as a parameter. A chain on a damaged disk may be circular and the C loops then run forever: the walks
  are bounded by a number of clusters, and \<open>None\<close> is the walk that has not ended within it. A name is a
  string without its terminator.
\<close>

section \<open>Disk and state\<close>

type_synonym sector = "nat \<Rightarrow> u8"

record fat_fs =
  disk :: "u32 \<Rightarrow> sector"
  rd_fails :: "u32 \<Rightarrow> bool"
  wr_fails :: "u32 \<Rightarrow> bool"
  total_sectors_32 :: u32
  root_cluster :: u32
  first_data_sector :: u32
  sectors_per_cluster :: u32
  current_dir_cluster :: u32
  fat_start_sector :: u32

definition ata_write_sector :: "u32 \<Rightarrow> sector \<Rightarrow> fat_fs \<Rightarrow> int \<times> fat_fs" where
  "ata_write_sector lba b f =
    (if wr_fails f lba then (-1, f) else (0, f\<lparr>disk := (disk f)(lba := b)\<rparr>))"

definition le16 :: "sector \<Rightarrow> nat \<Rightarrow> u16" where
  "le16 b i = ucast (b i) OR push_bit 8 (ucast (b (i + 1)))"

definition le32 :: "sector \<Rightarrow> nat \<Rightarrow> u32" where
  "le32 b i = ucast (b i) OR push_bit 8 (ucast (b (i + 1))) OR push_bit 16 (ucast (b (i + 2))) OR
     push_bit 24 (ucast (b (i + 3)))"

definition put16 :: "nat \<Rightarrow> u16 \<Rightarrow> sector \<Rightarrow> sector" where
  "put16 i v b = b(i := ucast v, i + 1 := ucast (drop_bit 8 v))"

definition put32 :: "nat \<Rightarrow> u32 \<Rightarrow> sector \<Rightarrow> sector" where
  "put32 i v b = b(i := ucast v, i + 1 := ucast (drop_bit 8 v), i + 2 := ucast (drop_bit 16 v),
     i + 3 := ucast (drop_bit 24 v))"

text \<open>\<^verbatim>\<open>fat32_init\<close> reads the boot sector; the offsets are those of the packed structure \<^verbatim>\<open>fat32_boot_t\<close>.\<close>

definition fat32_init :: "fat_fs \<Rightarrow> int \<times> fat_fs" where
  "fat32_init f =
    (if rd_fails f 0 then (-1, f)
     else
       let b = disk f 0;
           f = f\<lparr>total_sectors_32 := le32 b 32, root_cluster := le32 b 44\<rparr>
       in if le16 b 510 \<noteq> 0xAA55 then (-1, f)
          else (0, f\<lparr>sectors_per_cluster := ucast (b 13),
                     first_data_sector := ucast (le16 b 14) + ucast (b 16) * le32 b 36,
                     fat_start_sector := ucast (le16 b 14), current_dir_cluster := le32 b 44\<rparr>))"

section \<open>Names\<close>

abbreviation byte_of :: "char \<Rightarrow> u8" where "byte_of c \<equiv> of_char c"

definition upcase :: "u8 \<Rightarrow> u8" where
  "upcase c = (if 0x61 \<le> c \<and> c \<le> 0x7A then c - 0x20 else c)"

definition pad :: "nat \<Rightarrow> u8 list \<Rightarrow> u8 list" where
  "pad n xs = take n xs @ replicate (n - length xs) 0x20"

definition name_to_83 :: "string \<Rightarrow> u8 list" where
  "name_to_83 name =
    (if name = ''.'' \<or> name = ''..'' then pad 11 (map byte_of name)
     else
       let base = takeWhile (\<lambda>c. c \<noteq> CHR ''.'') name;
           ext = drop (length base + 1) name
       in pad 8 (map (upcase \<circ> byte_of) base) @ pad 3 (map (upcase \<circ> byte_of) ext))"

section \<open>The allocation table\<close>

definition cluster_to_sector :: "fat_fs \<Rightarrow> u32 \<Rightarrow> u32" where
  "cluster_to_sector f c = first_data_sector f + (c - 2) * sectors_per_cluster f"

abbreviation fat_sector :: "fat_fs \<Rightarrow> u32 \<Rightarrow> u32" where
  "fat_sector f c \<equiv> fat_start_sector f + c * 4 div 512"

abbreviation ent_offset :: "u32 \<Rightarrow> nat" where
  "ent_offset c \<equiv> unat (c * 4 mod 512)"

definition fat_read_entry :: "fat_fs \<Rightarrow> u32 \<Rightarrow> u32" where
  "fat_read_entry f c =
    (if rd_fails f (fat_sector f c) then 0
     else le32 (disk f (fat_sector f c)) (ent_offset c) AND 0x0FFFFFFF)"

definition fat_write_entry :: "u32 \<Rightarrow> u32 \<Rightarrow> fat_fs \<Rightarrow> int \<times> fat_fs" where
  "fat_write_entry c v f =
    (if rd_fails f (fat_sector f c) then (-1, f)
     else
       let b = disk f (fat_sector f c);
           w = (le32 b (ent_offset c) AND 0xF0000000) OR (v AND 0x0FFFFFFF)
       in ata_write_sector (fat_sector f c) (put32 (ent_offset c) w b) f)"

definition total_clusters :: "fat_fs \<Rightarrow> u32" where
  "total_clusters f = (total_sectors_32 f - first_data_sector f) div sectors_per_cluster f"

definition fat_find_free :: "fat_fs \<Rightarrow> u32" where
  "fat_find_free f =
    (case find (\<lambda>c. fat_read_entry f (of_nat c) = 0) [2..<unat (total_clusters f + 2)] of
       Some c \<Rightarrow> of_nat c
     | None \<Rightarrow> 0)"

abbreviation in_chain :: "u32 \<Rightarrow> bool" where
  "in_chain c \<equiv> 2 \<le> c \<and> c < 0x0FFFFFF8"

fun fat_chain_last :: "nat \<Rightarrow> u32 \<Rightarrow> fat_fs \<Rightarrow> u32 option" where
  "fat_chain_last 0 c f = None"
| "fat_chain_last (Suc n) c f =
    (let nx = fat_read_entry f c in
     if nx \<ge> 0x0FFFFFF8 \<or> nx = 0 then Some c else fat_chain_last n nx f)"

text \<open>Marking \<open>free\<close> as the new last cluster of the chain that ends in \<open>prev\<close>.\<close>

definition fat_extend :: "u32 \<Rightarrow> fat_fs \<Rightarrow> u32 option \<times> fat_fs" where
  "fat_extend prev f =
    (let free = fat_find_free f in
     if free = 0 then (None, f)
     else case fat_write_entry prev free f of (r, f) \<Rightarrow>
       if r \<noteq> 0 then (None, f)
       else case fat_write_entry free 0x0FFFFFFF f of (r, f) \<Rightarrow>
         if r \<noteq> 0 then (None, f) else (Some free, f))"

fun alloc_clusters :: "nat \<Rightarrow> u32 \<Rightarrow> fat_fs \<Rightarrow> int \<times> fat_fs" where
  "alloc_clusters 0 prev f = (0, f)"
| "alloc_clusters (Suc n) prev f =
    (case fat_extend prev f of
       (None, f) \<Rightarrow> (-1, f)
     | (Some free, f) \<Rightarrow> alloc_clusters n free f)"

section \<open>File contents\<close>

text \<open>The bytes of \<open>n\<close> consecutive positions from the start of sector \<open>sec\<close>; every sector they touch is read.\<close>

definition get_bytes :: "u32 \<Rightarrow> nat \<Rightarrow> fat_fs \<Rightarrow> u8 list option" where
  "get_bytes sec n f =
    (if list_ex (\<lambda>s. rd_fails f (sec + of_nat s)) [0..<(n + 511) div 512] then None
     else Some (map (\<lambda>b. disk f (sec + of_nat (b div 512)) (b mod 512)) [0..<n]))"

text \<open>A read that fails on the way returns -1. The code then leaves the bytes of the clusters before in
  the caller's buffer; here a failed call gives no bytes.\<close>

fun read_chain :: "nat \<Rightarrow> u32 \<Rightarrow> nat \<Rightarrow> fat_fs \<Rightarrow> (int \<times> u8 list) option" where
  "read_chain 0 c n f = None"
| "read_chain (Suc k) c n f =
    (if in_chain c \<and> 0 < n then
       let to_read = min n (unat (sectors_per_cluster f * 512)) in
       case get_bytes (cluster_to_sector f c) to_read f of
         None \<Rightarrow> Some (-1, [])
       | Some d \<Rightarrow>
           (case read_chain k (fat_read_entry f c) (n - to_read) f of
              None \<Rightarrow> None
            | Some (r, ds) \<Rightarrow> Some (if r < 0 then (-1, []) else (r + int to_read, d @ ds)))
     else Some (0, []))"

text \<open>Writing bytes from the start of sector \<open>sec\<close>: whole sectors are replaced, a partial last one is
  read, changed and written back.\<close>

definition overlay :: "u8 list \<Rightarrow> sector \<Rightarrow> sector" where
  "overlay bs b = (\<lambda>i. if i < length bs then bs ! i else b i)"

function put_bytes :: "u32 \<Rightarrow> u8 list \<Rightarrow> fat_fs \<Rightarrow> int \<times> fat_fs" where
  "put_bytes sec bs f =
    (if bs = [] then (0, f)
     else if length bs < 512 \<and> rd_fails f sec then (-1, f)
     else case ata_write_sector sec (overlay (take 512 bs) (disk f sec)) f of (r, f) \<Rightarrow>
       if r \<noteq> 0 then (-1, f) else put_bytes (sec + 1) (drop 512 bs) f)"
  by pat_completeness auto
termination by (relation "measure (\<lambda>(_, bs, _). length bs)") auto

declare put_bytes.simps [simp del]

fun write_chain :: "nat \<Rightarrow> u32 \<Rightarrow> u8 list \<Rightarrow> fat_fs \<Rightarrow> (int \<times> fat_fs) option" where
  "write_chain 0 c bs f = None"
| "write_chain (Suc k) c bs f =
    (if bs = [] then Some (0, f)
     else
       let to_write = min (length bs) (unat (sectors_per_cluster f * 512)) in
       case put_bytes (cluster_to_sector f c) (take to_write bs) f of (r, f) \<Rightarrow>
         if r \<noteq> 0 then Some (-1, f)
         else
           let rest = drop to_write bs in
           if rest = [] then Some (int to_write, f)
           else
             let nx = fat_read_entry f c in
             case (if nx = 0 \<or> nx \<ge> 0x0FFFFFF8 then fat_extend c f else (Some nx, f)) of
               (None, f) \<Rightarrow> Some (-1, f)
             | (Some nx, f) \<Rightarrow>
                 (case write_chain k nx rest f of
                    None \<Rightarrow> None
                  | Some (r, f) \<Rightarrow> Some (if r < 0 then -1 else r + int to_write, f)))"

section \<open>Directory entries\<close>

record dir_entry =
  de_name :: "u8 list"
  de_attr :: u8
  de_cluster :: u32
  de_mtime :: u16
  de_mdate :: u16
  de_size :: u32

text \<open>Slot \<open>i\<close> of a directory sector, at the offsets of \<^verbatim>\<open>fat32_dir_entry_t\<close>.\<close>

abbreviation slot_name :: "sector \<Rightarrow> nat \<Rightarrow> u8 list" where
  "slot_name b i \<equiv> map (\<lambda>j. b (32 * i + j)) [0..<11]"

abbreviation slot_first :: "sector \<Rightarrow> nat \<Rightarrow> u8" where "slot_first b i \<equiv> b (32 * i)"

abbreviation slot_attr :: "sector \<Rightarrow> nat \<Rightarrow> u8" where "slot_attr b i \<equiv> b (32 * i + 11)"

definition first_cluster_of :: "sector \<Rightarrow> nat \<Rightarrow> u32" where
  "first_cluster_of b i = push_bit 16 (ucast (le16 b (32 * i + 20))) OR ucast (le16 b (32 * i + 26))"

definition entry_of :: "sector \<Rightarrow> nat \<Rightarrow> dir_entry" where
  "entry_of b i =
    \<lparr>de_name = slot_name b i, de_attr = slot_attr b i, de_cluster = first_cluster_of b i,
     de_mtime = le16 b (32 * i + 22), de_mdate = le16 b (32 * i + 24), de_size = le32 b (32 * i + 28)\<rparr>"

definition put_name :: "nat \<Rightarrow> u8 list \<Rightarrow> sector \<Rightarrow> sector" where
  "put_name i nm b = (\<lambda>x. if 32 * i \<le> x \<and> x < 32 * i + 11 then nm ! (x - 32 * i) else b x)"

definition put_cluster :: "nat \<Rightarrow> u32 \<Rightarrow> sector \<Rightarrow> sector" where
  "put_cluster i c b = put16 (32 * i + 20) (ucast (drop_bit 16 c)) (put16 (32 * i + 26) (ucast c) b)"

datatype ('r, 's) outcome = Return 'r | Next 's

fun scan_list :: "('a \<Rightarrow> 's \<Rightarrow> ('r, 's) outcome) \<Rightarrow> 'a list \<Rightarrow> 's \<Rightarrow> ('r, 's) outcome" where
  "scan_list g [] st = Next st"
| "scan_list g (x # xs) st = (case g x st of Return r \<Rightarrow> Return r | Next st \<Rightarrow> scan_list g xs st)"

text \<open>The sectors of one cluster; \<open>io\<close> gives the result when one of them cannot be read.\<close>

definition scan_cluster ::
    "(u32 \<Rightarrow> sector \<Rightarrow> nat \<Rightarrow> 's \<Rightarrow> ('r, 's) outcome) \<Rightarrow> ('s \<Rightarrow> 'r) \<Rightarrow> u32 \<Rightarrow> fat_fs \<Rightarrow> 's \<Rightarrow>
     ('r, 's) outcome" where
  "scan_cluster g io c f =
    scan_list (\<lambda>s st.
      let sec = cluster_to_sector f c + of_nat s in
      if rd_fails f sec then Return (io st)
      else scan_list (g sec (disk f sec)) [0..<16] st) [0..<unat (sectors_per_cluster f)]"

fun scan_dir ::
    "nat \<Rightarrow> (u32 \<Rightarrow> sector \<Rightarrow> nat \<Rightarrow> 's \<Rightarrow> ('r, 's) outcome) \<Rightarrow> ('s \<Rightarrow> 'r) \<Rightarrow> u32 \<Rightarrow> fat_fs \<Rightarrow> 's \<Rightarrow>
     ('r, 's) outcome option" where
  "scan_dir 0 g io c f st = None"
| "scan_dir (Suc n) g io c f st =
    (if in_chain c then
       case scan_cluster g io c f st of
         Return r \<Rightarrow> Some (Return r)
       | Next st \<Rightarrow> scan_dir n g io (fat_read_entry f c) f st
     else Some (Next st))"

section \<open>Finding an entry\<close>

text \<open>A long name is spread over entries with attribute \<open>0x0F\<close> before the short entry, thirteen UTF-16
  characters each, the last part first. The buffer of the C code is not initialised; it starts out as
  zeroes here.\<close>

record lfn_state =
  lfn_buf :: "nat \<Rightarrow> u8"
  lfn_len :: nat
  expect_seq :: nat

definition lofs :: "nat list" where
  "lofs = [1, 3, 5, 7, 9, 14, 16, 18, 20, 22, 24, 28, 30]"

definition lfn_add :: "sector \<Rightarrow> nat \<Rightarrow> lfn_state \<Rightarrow> lfn_state" where
  "lfn_add b i st =
    (let sq = slot_first b i;
         st = (if sq AND 0x40 \<noteq> 0 then st\<lparr>lfn_len := 0, expect_seq := unat (sq AND 0x3F)\<rparr> else st);
         e = expect_seq st
     in if 1 \<le> e \<and> unat (sq AND 0x3F) = e \<and> (e - 1) * 13 + 13 < 264 then
          let p = (e - 1) * 13;
              us = takeWhile (\<lambda>u. u \<noteq> 0 \<and> u \<noteq> 0xFFFF) (map (\<lambda>k. le16 b (32 * i + k)) lofs)
          in st\<lparr>lfn_buf := (\<lambda>x. if p \<le> x \<and> x < p + length us then ucast (us ! (x - p)) else lfn_buf st x),
                lfn_len := (if us = [] then lfn_len st else max (lfn_len st) (p + length us)),
                expect_seq := e - 1\<rparr>
        else st\<lparr>lfn_len := 0, expect_seq := 0\<rparr>)"

definition lfn_match :: "(nat \<Rightarrow> u8) \<Rightarrow> nat \<Rightarrow> string \<Rightarrow> bool" where
  "lfn_match buf n name \<longleftrightarrow>
    length name = n \<and> list_all (\<lambda>i. upcase (buf i) = upcase (byte_of (name ! i))) [0..<n]"

definition find_step ::
    "string \<Rightarrow> u32 \<Rightarrow> sector \<Rightarrow> nat \<Rightarrow> lfn_state \<Rightarrow> ((u32 \<times> dir_entry) option, lfn_state) outcome" where
  "find_step name sec b i st =
    (if slot_first b i = 0 then Return None
     else if slot_first b i = 0xE5 then Next (st\<lparr>lfn_len := 0\<rparr>)
     else if slot_attr b i = 0x0F then Next (lfn_add b i st)
     else if lfn_len st > 0 \<and> lfn_match (lfn_buf st) (lfn_len st) name then Return (Some (sec, entry_of b i))
     else if slot_name b i = name_to_83 name then Return (Some (sec, entry_of b i))
     else Next (st\<lparr>lfn_len := 0\<rparr>))"

text \<open>The C function returns the sector of the entry as an \<^verbatim>\<open>int\<close>, and its callers take a negative number as
  not found.\<close>

definition find_entry :: "nat \<Rightarrow> u32 \<Rightarrow> string \<Rightarrow> fat_fs \<Rightarrow> dir_entry option option" where
  "find_entry n c name f =
    (case scan_dir n (find_step name) (\<lambda>_. None) c f \<lparr>lfn_buf = \<lambda>_. 0, lfn_len = 0, expect_seq = 0\<rparr> of
       None \<Rightarrow> None
     | Some (Return (Some (sec, e))) \<Rightarrow> Some (if sint sec < 0 then None else Some e)
     | Some _ \<Rightarrow> Some None)"

section \<open>Listing\<close>

text \<open>A short name without its padding, with the extension after a dot.\<close>

definition show_83 :: "u8 list \<Rightarrow> u8 list" where
  "show_83 nm =
    (let base = takeWhile (\<lambda>c. c \<noteq> 0x20) (take 8 nm);
         has_ext = list_ex (\<lambda>c. c \<noteq> 0x20) (drop 8 nm)
     in if has_ext \<and> base \<noteq> [] then base @ [0x2E] @ takeWhile (\<lambda>c. c \<noteq> 0x20) (drop 8 nm) else base)"

definition prefix_step ::
    "string \<Rightarrow> nat \<Rightarrow> u32 \<Rightarrow> sector \<Rightarrow> nat \<Rightarrow> (u8 list \<times> u8) list \<Rightarrow>
     ((u8 list \<times> u8) list, (u8 list \<times> u8) list) outcome" where
  "prefix_step pre mx sec b i acc =
    (if length acc \<ge> mx then Return acc
     else if slot_first b i = 0 then Return acc
     else if slot_first b i = 0xE5 \<or> slot_attr b i = 0x0F then Next acc
     else
       let nm = show_83 (slot_name b i) in
       if take (length pre) nm = map byte_of pre then Next (acc @ [(nm, slot_attr b i)]) else Next acc)"

definition fat32_match_prefix :: "nat \<Rightarrow> string \<Rightarrow> u32 \<Rightarrow> nat \<Rightarrow> fat_fs \<Rightarrow> (u8 list \<times> u8) list option" where
  "fat32_match_prefix n pre c mx f =
    (case scan_dir n (prefix_step pre mx) (\<lambda>acc. acc) c f [] of
       None \<Rightarrow> None
     | Some (Return acc) \<Rightarrow> Some acc
     | Some (Next acc) \<Rightarrow> Some acc)"

definition two_digits :: "u16 \<Rightarrow> u8 list" where
  "two_digits v = [0x30 + ucast (v div 10), 0x30 + ucast (v mod 10)]"

text \<open>A line of \<^verbatim>\<open>list_dir_at\<close>: name, a slash for directories, and the modification time if there is one.\<close>

definition list_line :: "sector \<Rightarrow> nat \<Rightarrow> u8 list" where
  "list_line b i =
    (let mt = le16 b (32 * i + 22); md = le16 b (32 * i + 24) in
     filter (\<lambda>c. c \<noteq> 0x20) (slot_name b i) @
     (if slot_attr b i AND 0x10 \<noteq> 0 then [0x2F] else []) @
     (if md \<noteq> 0 then
        [0x20] @ two_digits (drop_bit 5 md AND 0x0F) @ [0x2D] @ two_digits (md AND 0x1F) @ [0x20] @
        two_digits (drop_bit 11 mt AND 0x1F) @ [0x3A] @ two_digits (drop_bit 5 mt AND 0x3F)
      else []) @ [0x0A])"

definition list_step ::
    "u32 \<Rightarrow> sector \<Rightarrow> nat \<Rightarrow> int \<times> u8 list \<Rightarrow> (int \<times> u8 list, int \<times> u8 list) outcome" where
  "list_step sec b i st =
    (if slot_first b i = 0 then Return st
     else if slot_first b i = 0xE5 \<or> slot_attr b i = 0x0F then Next st
     else Next (fst st + 1, snd st @ list_line b i))"

text \<open>The count the function returns and the text it prints.\<close>

definition list_dir_at :: "nat \<Rightarrow> u32 \<Rightarrow> fat_fs \<Rightarrow> (int \<times> u8 list) option" where
  "list_dir_at n c f =
    (case scan_dir n list_step (\<lambda>st. (-1, snd st)) c f (0, []) of
       None \<Rightarrow> None
     | Some (Return st) \<Rightarrow> Some st
     | Some (Next st) \<Rightarrow> Some st)"

definition fat32_list_dir :: "nat \<Rightarrow> fat_fs \<Rightarrow> (int \<times> u8 list) option" where
  "fat32_list_dir n f = list_dir_at n (current_dir_cluster f) f"

end
