(* ===== verification/Fat32Ops.thy ===== *)
theory Fat32Ops
  imports Fat32
begin

text \<open>
  The file and directory operations of \<^verbatim>\<open>OvsbMk/fs/fat32.c\<close>. The first argument of an operation that walks
  a directory is the number of clusters it may visit; \<open>None\<close> is a walk that has not ended by then. Error
  codes are those of \<^verbatim>\<open>fat32.h\<close>. Data are lists of bytes, and a file is shorter than \<open>2 ^ 31\<close> bytes, so a
  length is a non-negative \<^verbatim>\<open>int\<close>.
\<close>

abbreviation FAT_ERR_NOTFOUND :: int where "FAT_ERR_NOTFOUND \<equiv> -1"
abbreviation FAT_ERR_EXISTS :: int where "FAT_ERR_EXISTS \<equiv> -2"
abbreviation FAT_ERR_IO :: int where "FAT_ERR_IO \<equiv> -3"
abbreviation FAT_ERR_NOSPACE :: int where "FAT_ERR_NOSPACE \<equiv> -4"
abbreviation FAT_ERR_NOTDIR :: int where "FAT_ERR_NOTDIR \<equiv> -5"
abbreviation FAT_ERR_NOTEMPTY :: int where "FAT_ERR_NOTEMPTY \<equiv> -6"

section \<open>Locating a slot\<close>

text \<open>The loops that change a directory look for the first slot of some kind: each slot is passed over,
  taken, or ends the search. \<open>At\<close> carries the sector, its contents and the slot.\<close>

datatype verdict = Pass | Take | Halt

datatype location = At u32 sector nat | Missing | IoError

definition locate_step ::
    "(sector \<Rightarrow> nat \<Rightarrow> verdict) \<Rightarrow> u32 \<Rightarrow> sector \<Rightarrow> nat \<Rightarrow> unit \<Rightarrow> (location, unit) outcome" where
  "locate_step v sec b i st =
    (case v b i of Pass \<Rightarrow> Next () | Take \<Rightarrow> Return (At sec b i) | Halt \<Rightarrow> Return Missing)"

definition locate :: "nat \<Rightarrow> (sector \<Rightarrow> nat \<Rightarrow> verdict) \<Rightarrow> u32 \<Rightarrow> fat_fs \<Rightarrow> location option" where
  "locate n v c f =
    (case scan_dir n (locate_step v) (\<lambda>_. IoError) c f () of
       None \<Rightarrow> None
     | Some (Return r) \<Rightarrow> Some r
     | Some (Next _) \<Rightarrow> Some Missing)"

definition free_slot :: "sector \<Rightarrow> nat \<Rightarrow> verdict" where
  "free_slot b i = (if slot_first b i = 0 \<or> slot_first b i = 0xE5 then Take else Pass)"

text \<open>A live entry with the given short name. The searches differ in whether the end mark \<open>0\<close> ends them
  (\<^verbatim>\<open>delete_entry_at\<close>), is skipped (\<^verbatim>\<open>fat32_rename\<close>, \<^verbatim>\<open>fat32_rmdir\<close>) or is not looked at (\<^verbatim>\<open>fat32_write_file\<close>).\<close>

definition named_slot :: "u8 list \<Rightarrow> sector \<Rightarrow> nat \<Rightarrow> verdict" where
  "named_slot nm b i =
    (if slot_first b i = 0xE5 \<or> slot_attr b i = 0x0F then Pass
     else if slot_name b i = nm then Take else Pass)"

definition live_slot :: "u8 list \<Rightarrow> sector \<Rightarrow> nat \<Rightarrow> verdict" where
  "live_slot nm b i = (if slot_first b i = 0 then Pass else named_slot nm b i)"

definition delete_slot :: "u8 list \<Rightarrow> sector \<Rightarrow> nat \<Rightarrow> verdict" where
  "delete_slot nm b i = (if slot_first b i = 0 then Halt else named_slot nm b i)"

definition dir_slot :: "u8 list \<Rightarrow> sector \<Rightarrow> nat \<Rightarrow> verdict" where
  "dir_slot nm b i = (if slot_attr b i AND 0x10 \<noteq> 0 then named_slot nm b i else Pass)"

section \<open>Entries\<close>

definition new_entry :: "u8 list \<Rightarrow> u8 \<Rightarrow> nat \<Rightarrow> sector \<Rightarrow> sector" where
  "new_entry nm attr i b =
    put_cluster i 0 (put32 (32 * i + 28) 0 ((put_name i nm b)(32 * i + 11 := attr)))"

definition create_entry_at :: "nat \<Rightarrow> u32 \<Rightarrow> string \<Rightarrow> u8 \<Rightarrow> fat_fs \<Rightarrow> (int \<times> fat_fs) option" where
  "create_entry_at n c name attr f =
    (case locate n free_slot c f of
       None \<Rightarrow> None
     | Some Missing \<Rightarrow> Some (FAT_ERR_NOSPACE, f)
     | Some IoError \<Rightarrow> Some (FAT_ERR_IO, f)
     | Some (At sec b i) \<Rightarrow>
         (case ata_write_sector sec (new_entry (name_to_83 name) attr i b) f of (r, f) \<Rightarrow>
            Some (if r \<noteq> 0 then FAT_ERR_IO else 0, f)))"

definition delete_entry_at :: "nat \<Rightarrow> u32 \<Rightarrow> string \<Rightarrow> fat_fs \<Rightarrow> (int \<times> fat_fs) option" where
  "delete_entry_at n c name f =
    (case locate n (delete_slot (name_to_83 name)) c f of
       None \<Rightarrow> None
     | Some (At sec b i) \<Rightarrow>
         (case ata_write_sector sec (b(32 * i := 0xE5)) f of (r, f) \<Rightarrow> Some (if r \<noteq> 0 then -1 else 0, f))
     | Some _ \<Rightarrow> Some (-1, f))"

definition fat32_create_file :: "nat \<Rightarrow> string \<Rightarrow> fat_fs \<Rightarrow> (int \<times> fat_fs) option" where
  "fat32_create_file n name f = create_entry_at n (current_dir_cluster f) name 0x20 f"

definition fat32_delete_file :: "nat \<Rightarrow> string \<Rightarrow> fat_fs \<Rightarrow> (int \<times> fat_fs) option" where
  "fat32_delete_file n name f = delete_entry_at n (current_dir_cluster f) name f"

definition fat32_get_cwd :: "fat_fs \<Rightarrow> u32" where
  "fat32_get_cwd f = current_dir_cluster f"

definition fat32_set_cwd :: "u32 \<Rightarrow> fat_fs \<Rightarrow> fat_fs" where
  "fat32_set_cwd c f = f\<lparr>current_dir_cluster := c\<rparr>"

definition fat32_change_dir :: "nat \<Rightarrow> string \<Rightarrow> fat_fs \<Rightarrow> (int \<times> fat_fs) option" where
  "fat32_change_dir n name f =
    (if name = [] \<or> name = ''/'' then Some (0, fat32_set_cwd (root_cluster f) f)
     else
       let f = (if hd name = CHR ''/'' then fat32_set_cwd (root_cluster f) f else f);
           name = (if hd name = CHR ''/'' then tl name else name)
       in case find_entry n (current_dir_cluster f) name f of
            None \<Rightarrow> None
          | Some None \<Rightarrow> Some (FAT_ERR_NOTFOUND, f)
          | Some (Some e) \<Rightarrow>
              if de_attr e AND 0x10 = 0 then Some (FAT_ERR_NOTDIR, f)
              else Some (0, fat32_set_cwd (if de_cluster e = 0 then root_cluster f else de_cluster e) f))"

section \<open>Paths\<close>

text \<open>The components of a path between its slashes.\<close>

fun split_path :: "string \<Rightarrow> string list" where
  "split_path [] = [[]]"
| "split_path (c # cs) =
    (if c = CHR ''/'' then [] # split_path cs
     else (c # hd (split_path cs)) # tl (split_path cs))"

fun walk_dirs :: "nat \<Rightarrow> string list \<Rightarrow> fat_fs \<Rightarrow> (int \<times> fat_fs) option" where
  "walk_dirs n [] f = Some (0, f)"
| "walk_dirs n (w # ws) f =
    (if w = [] \<or> w = ''.'' then walk_dirs n ws f
     else case fat32_change_dir n w f of
            None \<Rightarrow> None
          | Some (r, f) \<Rightarrow> if r < 0 then Some (-1, f) else walk_dirs n ws f)"

text \<open>\<^verbatim>\<open>fat32_walk\<close> changes into the directory of the file and yields the file's name, \<open>[]\<close> for failure.\<close>

definition fat32_walk :: "nat \<Rightarrow> string \<Rightarrow> nat \<Rightarrow> fat_fs \<Rightarrow> (string \<times> fat_fs) option" where
  "fat32_walk n path outlen f =
    (if path = [] then Some ([], f)
     else
       let tmp = take 511 path;
           f = (if hd tmp = CHR ''/'' then fat32_set_cwd (root_cluster f) f else f);
           comps = split_path (if hd tmp = CHR ''/'' then tl tmp else tmp)
       in case walk_dirs n (butlast comps) f of
            None \<Rightarrow> None
          | Some (r, f) \<Rightarrow> Some (if r < 0 then [] else take (outlen - 1) (last comps), f))"

text \<open>The entry a path leads to, with the working directory left as it was.\<close>

definition lookup :: "nat \<Rightarrow> string \<Rightarrow> fat_fs \<Rightarrow> dir_entry option option" where
  "lookup n path f =
    (case fat32_walk n path 256 f of
       None \<Rightarrow> None
     | Some (base, f') \<Rightarrow>
         if base = [] then Some None else find_entry n (current_dir_cluster f') base f')"

definition fat32_read_file :: "nat \<Rightarrow> string \<Rightarrow> nat \<Rightarrow> fat_fs \<Rightarrow> (int \<times> u8 list) option" where
  "fat32_read_file n path len f =
    (case lookup n path f of
       None \<Rightarrow> None
     | Some None \<Rightarrow> Some (-1, [])
     | Some (Some e) \<Rightarrow>
         if de_cluster e = 0 then Some (0, [])
         else let to_read = min len (unat (de_size e))
              in read_chain (Suc to_read) (de_cluster e) to_read f)"

definition fat32_stat :: "nat \<Rightarrow> string \<Rightarrow> fat_fs \<Rightarrow> dir_entry option option" where
  "fat32_stat n path f = lookup n path f"

section \<open>Changing files and directories\<close>

definition first_cluster_for :: "dir_entry \<Rightarrow> fat_fs \<Rightarrow> u32 option \<times> fat_fs" where
  "first_cluster_for e f =
    (if de_cluster e \<noteq> 0 then (Some (de_cluster e), f)
     else
       let c = fat_find_free f in
       if c = 0 then (None, f)
       else case fat_write_entry c 0x0FFFFFFF f of (r, f) \<Rightarrow> (if r \<noteq> 0 then None else Some c, f))"

definition fat32_write_file :: "nat \<Rightarrow> string \<Rightarrow> u8 list \<Rightarrow> fat_fs \<Rightarrow> (int \<times> fat_fs) option" where
  "fat32_write_file n name bs f =
    (case find_entry n (current_dir_cluster f) name f of
       None \<Rightarrow> None
     | Some None \<Rightarrow> Some (-1, f)
     | Some (Some e) \<Rightarrow>
         (case first_cluster_for e f of
            (None, f) \<Rightarrow> Some (-1, f)
          | (Some c, f) \<Rightarrow>
              (case write_chain (Suc (length bs)) c bs f of
                 None \<Rightarrow> None
               | Some (r, f) \<Rightarrow>
                   if r < 0 then Some (r, f)
                   else case locate n (named_slot (name_to_83 name)) (current_dir_cluster f) f of
                     None \<Rightarrow> None
                   | Some (At sec b i) \<Rightarrow>
                       (case ata_write_sector sec (put_cluster i c (put32 (32 * i + 28) (of_int r) b)) f of
                          (w, f) \<Rightarrow> Some (if w \<noteq> 0 then -1 else r, f))
                   | Some _ \<Rightarrow> Some (r, f))))"

text \<open>The first sector of a new directory: the entries \<^verbatim>\<open>.\<close> and \<^verbatim>\<open>..\<close> and the end mark.\<close>

definition dot_sector :: "u32 \<Rightarrow> u32 \<Rightarrow> sector" where
  "dot_sector self parent =
    put_cluster 1 parent ((put_name 1 (pad 11 [0x2E, 0x2E])
      (put_cluster 0 self ((put_name 0 (pad 11 [0x2E]) (\<lambda>_. 0))(11 := 0x10))))(43 := 0x10))"

definition fat32_mkdir :: "nat \<Rightarrow> string \<Rightarrow> fat_fs \<Rightarrow> (int \<times> fat_fs) option" where
  "fat32_mkdir n name f =
    (let nc = fat_find_free f; cwd = current_dir_cluster f in
     if nc = 0 then Some (FAT_ERR_NOSPACE, f)
     else case find_entry n cwd name f of
       None \<Rightarrow> None
     | Some (Some _) \<Rightarrow> Some (FAT_ERR_EXISTS, f)
     | Some None \<Rightarrow>
         (case create_entry_at n cwd name 0x10 f of
            None \<Rightarrow> None
          | Some (r, f) \<Rightarrow>
              if r \<noteq> 0 then Some (r, f)
              else case locate n (dir_slot (name_to_83 name)) cwd f of
                None \<Rightarrow> None
              | Some Missing \<Rightarrow> Some (-1, f)
              | Some IoError \<Rightarrow> Some (FAT_ERR_IO, f)
              | Some (At sec b i) \<Rightarrow>
                  (case ata_write_sector sec (put_cluster i nc b) f of (r, f) \<Rightarrow>
                   if r \<noteq> 0 then Some (FAT_ERR_IO, f)
                   else case fat_write_entry nc 0x0FFFFFFF f of (r, f) \<Rightarrow>
                   if r \<noteq> 0 then Some (FAT_ERR_IO, f)
                   else case ata_write_sector (cluster_to_sector f nc) (dot_sector nc cwd) f of (r, f) \<Rightarrow>
                     Some (if r \<noteq> 0 then FAT_ERR_IO else 0, f))))"

definition fat32_rename :: "nat \<Rightarrow> string \<Rightarrow> string \<Rightarrow> fat_fs \<Rightarrow> (int \<times> fat_fs) option" where
  "fat32_rename n old new f =
    (case locate n (live_slot (name_to_83 old)) (current_dir_cluster f) f of
       None \<Rightarrow> None
     | Some Missing \<Rightarrow> Some (FAT_ERR_NOTFOUND, f)
     | Some IoError \<Rightarrow> Some (FAT_ERR_IO, f)
     | Some (At sec b i) \<Rightarrow>
         (case ata_write_sector sec (put_name i (name_to_83 new) b) f of (r, f) \<Rightarrow>
            Some (if r \<noteq> 0 then FAT_ERR_IO else 0, f)))"

fun free_chain :: "nat \<Rightarrow> u32 \<Rightarrow> fat_fs \<Rightarrow> fat_fs option" where
  "free_chain 0 c f = None"
| "free_chain (Suc n) c f =
    (let nx = fat_read_entry f c; f = snd (fat_write_entry c 0 f)
     in if in_chain nx then free_chain n nx f else Some f)"

text \<open>A directory counts as empty when slots 2 to 15 of its first sector are free.\<close>

definition dir_empty :: "sector \<Rightarrow> bool" where
  "dir_empty b = list_all (\<lambda>i. slot_first b i = 0 \<or> slot_first b i = 0xE5) [2..<16]"

definition fat32_rmdir :: "nat \<Rightarrow> string \<Rightarrow> fat_fs \<Rightarrow> (int \<times> fat_fs) option" where
  "fat32_rmdir n name f =
    (case locate n (live_slot (name_to_83 name)) (current_dir_cluster f) f of
       None \<Rightarrow> None
     | Some Missing \<Rightarrow> Some (FAT_ERR_NOTFOUND, f)
     | Some IoError \<Rightarrow> Some (FAT_ERR_IO, f)
     | Some (At sec b i) \<Rightarrow>
         if slot_attr b i AND 0x10 = 0 then Some (FAT_ERR_NOTDIR, f)
         else
           let cl = first_cluster_of b i; ds = cluster_to_sector f cl in
           if cl \<noteq> 0 \<and> \<not> rd_fails f ds \<and> \<not> dir_empty (disk f ds) then Some (FAT_ERR_NOTEMPTY, f)
           else case (if cl \<noteq> 0 then free_chain n cl f else Some f) of
             None \<Rightarrow> None
           | Some f \<Rightarrow>
               (case ata_write_sector sec (b(32 * i := 0xE5)) f of (r, f) \<Rightarrow>
                  Some (if r \<noteq> 0 then FAT_ERR_IO else 0, f)))"

section \<open>The name of the working directory\<close>

definition parent_cluster :: "fat_fs \<Rightarrow> u32 \<Rightarrow> u32" where
  "parent_cluster f c =
    (let sec = cluster_to_sector f c; b = disk f sec in
     if rd_fails f sec then root_cluster f
     else case find (\<lambda>i. slot_first b i \<noteq> 0xE5 \<and> slot_attr b i \<noteq> 0x0F \<and> slot_first b i = 0x2E \<and>
                        b (32 * i + 1) = 0x2E \<and> b (32 * i + 2) = 0x20) [0..<16] of
            None \<Rightarrow> root_cluster f
          | Some i \<Rightarrow> if first_cluster_of b i = 0 then root_cluster f else first_cluster_of b i)"

text \<open>The slots of a cluster up to its first unreadable sector.\<close>

definition cluster_slots :: "fat_fs \<Rightarrow> u32 \<Rightarrow> (sector \<times> nat) list" where
  "cluster_slots f c =
    concat (map (\<lambda>s. map (\<lambda>i. (disk f (cluster_to_sector f c + of_nat s), i)) [0..<16])
      (takeWhile (\<lambda>s. \<not> rd_fails f (cluster_to_sector f c + of_nat s)) [0..<unat (sectors_per_cluster f)]))"

fun child_name :: "nat \<Rightarrow> u32 \<Rightarrow> u32 \<Rightarrow> fat_fs \<Rightarrow> u8 list option option" where
  "child_name 0 pc c f = None"
| "child_name (Suc n) pc c f =
    (if in_chain pc then
       case find (\<lambda>(b, i). slot_first b i \<noteq> 0 \<and> slot_first b i \<noteq> 0xE5 \<and> slot_attr b i \<noteq> 0x0F \<and>
                          first_cluster_of b i = c) (cluster_slots f pc) of
         Some (b, i) \<Rightarrow> Some (Some (slot_name b i))
       | None \<Rightarrow> child_name n (fat_read_entry f pc) c f
     else Some None)"

text \<open>The names from \<open>c\<close> up to the root. The C array has room for sixteen of them and is not checked.\<close>

fun cwd_stack :: "nat \<Rightarrow> nat \<Rightarrow> u32 \<Rightarrow> fat_fs \<Rightarrow> u8 list list option" where
  "cwd_stack 0 n c f = None"
| "cwd_stack (Suc d) n c f =
    (if c = root_cluster f then Some []
     else case child_name n (parent_cluster f c) c f of
       None \<Rightarrow> None
     | Some nm \<Rightarrow>
         (case cwd_stack d n (parent_cluster f c) f of
            None \<Rightarrow> None
          | Some ns \<Rightarrow> Some ((case nm of None \<Rightarrow> [] | Some x \<Rightarrow> [x]) @ ns)))"

fun join_names :: "u8 list list \<Rightarrow> u8 list" where
  "join_names [] = []"
| "join_names [x] = takeWhile (\<lambda>c. c \<noteq> 0x20) x"
| "join_names (x # xs) = takeWhile (\<lambda>c. c \<noteq> 0x20) x @ [0x2F] @ join_names xs"

definition fat32_get_cwd_name :: "nat \<Rightarrow> nat \<Rightarrow> nat \<Rightarrow> fat_fs \<Rightarrow> u8 list option" where
  "fat32_get_cwd_name d n maxlen f =
    (if current_dir_cluster f = root_cluster f then Some [0x2F]
     else map_option (\<lambda>ns. take (max 1 (maxlen - 1)) (0x2F # join_names (rev ns)))
            (cwd_stack d n (current_dir_cluster f) f))"

end
