(* ===== verification/Fat32Inv.thy ===== *)
theory Fat32Inv
  imports Fat32Ops
begin

text \<open>
  Correctness of the FAT32 driver's lower half: little-endian fields, entries of the allocation table,
  the contents of cluster chains. \<open>fat_wf\<close> describes a volume on which the driver works: the drive does
  not fail, the table lies before the data area and both fit on the disk.
\<close>

section \<open>Little-endian fields\<close>

lemma le32_put32: "le32 (put32 i v b) i = v"
proof (rule bit_word_eqI)
  fix n :: nat
  assume "n < LENGTH(32)"
  then consider "n < 8" | "8 \<le> n" "n < 16" | "16 \<le> n" "n < 24" | "24 \<le> n" "n < 32" by fastforce
  then show "bit (le32 (put32 i v b) i) n \<longleftrightarrow> bit v n"
    by cases (auto simp: le32_def put32_def bit_simps)
qed

lemma le16_put16: "le16 (put16 i v b) i = v"
  unfolding le16_def put16_def by (rule bit_eqI) (auto simp: bit_simps)

lemma le32_put32_other: "i + 4 \<le> j \<or> j + 4 \<le> i \<Longrightarrow> le32 (put32 i v b) j = le32 b j"
  unfolding le32_def put32_def by auto

section \<open>The allocation table\<close>

lemma unat_u32_less: "unat (x :: u32) < 2 ^ 32"
  using unsigned_less [of x] by simp

lemma unat_u32_mult4:
  assumes "unat (c :: u32) < 2 ^ 28"
  shows "unat (c * 4 div 512) = unat c div 128" "ent_offset c = 4 * (unat c mod 128)"
proof -
  have c4: "unat (c * 4) = 4 * unat c" using assms by (simp add: unat_word_ariths)
  then show "unat (c * 4 div 512) = unat c div 128" by (simp add: unat_div)
  show "ent_offset c = 4 * (unat c mod 128)"
    using c4 by (simp add: unat_mod mult_mod_right)
qed

text \<open>Entries of different clusters do not overlap.\<close>

lemma fat_entry_apart:
  assumes "unat c < 2 ^ 28" "unat d < 2 ^ 28" "c \<noteq> d" "fat_sector f c = fat_sector f d"
  shows "ent_offset c + 4 \<le> ent_offset d \<or> ent_offset d + 4 \<le> ent_offset c"
proof -
  have "unat c div 128 = unat d div 128"
    using assms(4) unat_u32_mult4(1) [OF assms(1)] unat_u32_mult4(1) [OF assms(2)] by simp
  moreover have "unat c \<noteq> unat d" using assms(3) unsigned_word_eqI by blast
  ultimately have "unat c mod 128 \<noteq> unat d mod 128" by (metis div_mult_mod_eq)
  then show ?thesis
    using unat_u32_mult4(2) [OF assms(1)] unat_u32_mult4(2) [OF assms(2)] by linarith
qed

lemma fat_write_ok:
  assumes "\<not> rd_fails f (fat_sector f c)" "\<not> wr_fails f (fat_sector f c)"
  obtains f' where "fat_write_entry c v f = (0, f')" "fat_read_entry f' c = v AND 0x0FFFFFFF"
    "f' = f\<lparr>disk := disk f'\<rparr>" "\<And>x. x \<noteq> fat_sector f c \<Longrightarrow> disk f' x = disk f x"
    "\<And>d. unat c < 2 ^ 28 \<Longrightarrow> unat d < 2 ^ 28 \<Longrightarrow> d \<noteq> c \<Longrightarrow> fat_read_entry f' d = fat_read_entry f d"
proof -
  define b where "b = disk f (fat_sector f c)"
  define w where "w = (le32 b (ent_offset c) AND 0xF0000000) OR (v AND 0x0FFFFFFF)"
  define f' where "f' = f\<lparr>disk := (disk f)(fat_sector f c := put32 (ent_offset c) w b)\<rparr>"
  have "fat_write_entry c v f = (0, f')"
    using assms by (simp add: fat_write_entry_def ata_write_sector_def Let_def f'_def w_def b_def)
  moreover have "w AND 0x0FFFFFFF = v AND 0x0FFFFFFF"
    unfolding w_def by (simp add: bit.conj_disj_distrib2 and.assoc)
  then have "fat_read_entry f' c = v AND 0x0FFFFFFF"
    using assms(1) by (simp add: fat_read_entry_def f'_def le32_put32)
  moreover have "fat_read_entry f' d = fat_read_entry f d"
    if "unat c < 2 ^ 28" "unat d < 2 ^ 28" "d \<noteq> c" for d
    using fat_entry_apart [OF that(1,2), of f] that(3)
    by (auto simp: fat_read_entry_def f'_def b_def le32_put32_other)
  ultimately show ?thesis using that [of f'] by (simp add: f'_def)
qed

section \<open>Volumes\<close>

definition fat_wf :: "fat_fs \<Rightarrow> bool" where
  "fat_wf f \<longleftrightarrow>
    0 < unat (sectors_per_cluster f) \<and> unat (sectors_per_cluster f) < 256 \<and>
    (\<forall>x. \<not> rd_fails f x \<and> \<not> wr_fails f x) \<and>
    unat (total_clusters f) + 2 \<le> 0x0FFFFFF8 \<and>
    unat (first_data_sector f) + unat (total_clusters f) * unat (sectors_per_cluster f) \<le> 2 ^ 32 \<and>
    unat (fat_start_sector f) + (unat (total_clusters f) + 1) div 128 < unat (first_data_sector f)"

definition valid :: "fat_fs \<Rightarrow> u32 \<Rightarrow> bool" where
  "valid f c \<longleftrightarrow> 2 \<le> unat c \<and> unat c < unat (total_clusters f) + 2"

abbreviation spc :: "fat_fs \<Rightarrow> nat" where "spc f \<equiv> unat (sectors_per_cluster f)"

abbreviation csec :: "fat_fs \<Rightarrow> u32 \<Rightarrow> nat \<Rightarrow> u32" where
  "csec f c i \<equiv> cluster_to_sector f c + of_nat i"

text \<open>What no write to the disk changes.\<close>

definition same_geo :: "fat_fs \<Rightarrow> fat_fs \<Rightarrow> bool" where
  "same_geo f g \<longleftrightarrow> g = f\<lparr>disk := disk g\<rparr>"

lemma same_geoD:
  assumes "same_geo f g"
  shows "rd_fails g = rd_fails f" "wr_fails g = wr_fails f" "total_clusters g = total_clusters f"
    "sectors_per_cluster g = sectors_per_cluster f" "first_data_sector g = first_data_sector f"
    "fat_start_sector g = fat_start_sector f" "current_dir_cluster g = current_dir_cluster f"
    "root_cluster g = root_cluster f" "cluster_to_sector g = cluster_to_sector f"
    "fat_wf g = fat_wf f" "valid g = valid f"
proof -
  obtain d where g: "g = f\<lparr>disk := d\<rparr>" using assms unfolding same_geo_def by blast
  show "rd_fails g = rd_fails f" "wr_fails g = wr_fails f" "total_clusters g = total_clusters f"
    "sectors_per_cluster g = sectors_per_cluster f" "first_data_sector g = first_data_sector f"
    "fat_start_sector g = fat_start_sector f" "current_dir_cluster g = current_dir_cluster f"
    "root_cluster g = root_cluster f" "cluster_to_sector g = cluster_to_sector f"
    "fat_wf g = fat_wf f" "valid g = valid f"
    by (simp_all add: g total_clusters_def cluster_to_sector_def fat_wf_def valid_def fun_eq_iff)
qed

lemma same_geo_refl [simp]: "same_geo f f"
  by (simp add: same_geo_def)

lemma same_geo_trans: "same_geo f g \<Longrightarrow> same_geo g h \<Longrightarrow> same_geo f h"
  unfolding same_geo_def by (cases f; cases g; cases h) simp

lemma same_geo_disk [simp]: "same_geo f (f\<lparr>disk := d\<rparr>)"
  by (simp add: same_geo_def)

lemma valid_chain: "fat_wf f \<Longrightarrow> valid f c \<Longrightarrow> in_chain c"
  by (auto simp: fat_wf_def valid_def word_le_nat_alt word_less_nat_alt)

lemma valid_small: "fat_wf f \<Longrightarrow> valid f c \<Longrightarrow> unat c < 2 ^ 28"
  by (auto simp: fat_wf_def valid_def)

lemma unat_csec:
  assumes wf: "fat_wf f" and v: "valid f c" and i: "i < spc f"
  shows "unat (csec f c i) = unat (first_data_sector f) + (unat c - 2) * spc f + i"
proof -
  let ?n = "unat (first_data_sector f) + (unat c - 2) * spc f + i"
  have "(unat c - 2) * spc f + spc f = (unat c - 1) * spc f"
    using v by (cases "unat c") (auto simp: valid_def algebra_simps Suc_diff_le)
  also have "\<dots> \<le> unat (total_clusters f) * spc f" using v by (intro mult_le_mono1) (auto simp: valid_def)
  finally have b: "?n < 2 ^ 32" using i wf by (auto simp: fat_wf_def)
  have c2: "c - 2 = of_nat (unat c - 2)" using v by (simp add: valid_def of_nat_diff)
  have "csec f c i = of_nat ?n" by (simp add: cluster_to_sector_def c2)
  then have "unat (csec f c i) = unat (of_nat ?n :: u32)" by (rule arg_cong)
  also have "\<dots> = ?n" using b by (subst unat_of_nat) (simp add: mod_less)
  finally show ?thesis .
qed

lemma csec_inj:
  assumes wf: "fat_wf f" and v: "valid f c" "valid f d" and i: "i < spc f" "j < spc f"
    and eq: "csec f c i = csec f d j"
  shows "c = d \<and> i = j"
proof -
  have e: "(unat c - 2) * spc f + i = (unat d - 2) * spc f + j"
    using unat_csec [OF wf v(1) i(1)] unat_csec [OF wf v(2) i(2)] eq by simp
  then have "((unat c - 2) * spc f + i) div spc f = ((unat d - 2) * spc f + j) div spc f" by simp
  then have "unat c - 2 = unat d - 2" using i by simp
  then have "unat c = unat d" using v by (auto simp: valid_def)
  then show ?thesis using e unsigned_word_eqI by auto
qed

lemma fat_not_data:
  assumes wf: "fat_wf f" and v: "valid f c" "valid f d" and i: "i < spc f"
  shows "fat_sector f d \<noteq> csec f c i"
proof -
  have "unat d div 128 \<le> (unat (total_clusters f) + 1) div 128"
    using v(2) by (intro div_le_mono) (auto simp: valid_def)
  then have l: "unat (fat_start_sector f) + unat d div 128 < unat (first_data_sector f)"
    using wf by (auto simp: fat_wf_def)
  have "unat (fat_sector f d) = unat (fat_start_sector f) + unat d div 128"
    using l unat_u32_mult4(1) [OF valid_small [OF wf v(2)]] unat_u32_less [of "first_data_sector f"]
    by (simp add: unat_plus_if')
  then have "unat (fat_sector f d) < unat (csec f c i)" using l unat_csec [OF wf v(1) i] by simp
  then show ?thesis by auto
qed

lemma fat_read_same:
  assumes "same_geo f g" "disk g (fat_sector f c) = disk f (fat_sector f c)"
  shows "fat_read_entry g c = fat_read_entry f c"
  using assms same_geoD [OF assms(1)] by (simp add: fat_read_entry_def)

section \<open>Contents of a cluster\<close>

lemma sectors_step: "0 < n \<Longrightarrow> (n + 511) div 512 = (n - 512 + 511) div 512 + (1::nat)"
proof (cases "n \<le> 512")
  case True
  moreover assume "0 < n"
  ultimately have "(n + 511) div 512 = 1" by (intro div_nat_eqI) auto
  then show ?thesis using True by simp
next
  case False
  then have "(n + 511) div 512 = Suc ((n + 511 - 512) div 512)" by (intro le_div_geq) auto
  also have "n + 511 - 512 = n - 512 + 511" using False by simp
  finally show ?thesis by simp
qed

lemma put_bytes_ok:
  assumes "\<And>x. \<not> rd_fails f x \<and> \<not> wr_fails f x" "unat sec + (length bs + 511) div 512 \<le> 2 ^ 32"
  shows "put_bytes sec bs f = (0, f\<lparr>disk := \<lambda>x.
    if unat sec \<le> unat x \<and> unat x < unat sec + (length bs + 511) div 512
    then overlay (take 512 (drop (512 * (unat x - unat sec)) bs)) (disk f x) else disk f x\<rparr>)"
  using assms
proof (induction sec bs f rule: put_bytes.induct)
  case (1 sec bs f)
  show ?case
  proof (cases "bs = []")
    case True
    have n: "(unat sec \<le> unat x \<and> unat x < unat sec) = False" for x :: u32 by auto
    show ?thesis using True by (simp add: put_bytes.simps n)
  next
    case False
    define g where "g = f\<lparr>disk := (disk f)(sec := overlay (take 512 bs) (disk f sec))\<rparr>"
    define m where "m = (length bs + 511) div 512"
    define m' where "m' = (length (drop 512 bs) + 511) div 512"
    have w: "ata_write_sector sec (overlay (take 512 bs) (disk f sec)) f = (0, g)"
      using "1.prems" by (simp add: ata_write_sector_def g_def)
    have m: "m = m' + 1" using False sectors_step [of "length bs"] by (simp add: m_def m'_def)
    have g: "\<And>x. \<not> rd_fails g x \<and> \<not> wr_fails g x" using "1.prems"(1) by (simp add: g_def)
    have step: "put_bytes sec bs f = put_bytes (sec + 1) (drop 512 bs) g"
      using "1.prems" False w by (subst put_bytes.simps) simp
    have eq: "unat x = unat sec \<longleftrightarrow> x = sec" for x using unsigned_word_eqI by blast
    let ?D = "\<lambda>x. if unat sec \<le> unat x \<and> unat x < unat sec + m
      then overlay (take 512 (drop (512 * (unat x - unat sec)) bs)) (disk f x) else disk f x"
    show ?thesis
    proof (cases "drop 512 bs = []")
      case True
      then have "m = 1" using m by (simp add: m'_def)
      then have "(unat sec \<le> unat x \<and> unat x < unat sec + m) = (x = sec)" for x using eq [of x] by auto
      then have "disk g = ?D" by (simp add: g_def fun_eq_iff)
      then have "g = f\<lparr>disk := ?D\<rparr>" by (simp add: g_def)
      moreover have "put_bytes (sec + 1) [] g = (0, g)" by (simp add: put_bytes.simps)
      ultimately show ?thesis using step True by (simp add: m_def)
    next
      case F: False
      have le: "unat sec + m \<le> 2 ^ 32" using "1.prems"(2) by (simp add: m_def)
      have "0 < m'" using F sectors_step [of "length (drop 512 bs)"] by (simp add: m'_def)
      then have s1: "unat (sec + 1) = unat sec + 1" using le m by (simp add: unat_plus_if')
      let ?E = "\<lambda>x. if unat (sec + 1) \<le> unat x \<and> unat x < unat (sec + 1) + m'
        then overlay (take 512 (drop (512 * (unat x - unat (sec + 1))) (drop 512 bs))) (disk g x) else disk g x"
      have ih: "put_bytes (sec + 1) (drop 512 bs) g = (0, g\<lparr>disk := ?E\<rparr>)"
        unfolding m'_def
      proof (rule "1.IH")
        show "unat (sec + 1) + (length (drop 512 bs) + 511) div 512 \<le> 2 ^ 32"
          using s1 le m unfolding m'_def by simp
      qed (use False "1.prems" w g in auto)
      have "?E x = ?D x" for x
      proof (cases "x = sec")
        case True
        then show ?thesis using s1 m by (simp add: g_def)
      next
        case ne: False
        then have "unat x \<noteq> unat sec" using eq by simp
        moreover have "512 * (unat x - Suc (unat sec)) + 512 = 512 * (unat x - unat sec)"
          if "Suc (unat sec) \<le> unat x" using that by simp
        ultimately show ?thesis using ne s1 m by (auto simp: g_def add.commute)
      qed
      then have "?E = ?D" by blast
      then have "g\<lparr>disk := ?E\<rparr> = f\<lparr>disk := ?D\<rparr>" by (simp add: g_def)
      then show ?thesis using step ih by (simp add: m_def)
    qed
  qed
qed

lemma cluster_bytes:
  assumes "fat_wf f"
  shows "unat (sectors_per_cluster f * 512) = 512 * spc f"
  using assms by (simp add: fat_wf_def unat_word_ariths)

lemma csec_room:
  assumes wf: "fat_wf f" and v: "valid f c"
  shows "unat (cluster_to_sector f c) + spc f \<le> 2 ^ 32"
proof -
  have s: "0 < spc f" using wf by (simp add: fat_wf_def)
  have "unat (csec f c (spc f - 1)) = unat (csec f c 0) + (spc f - 1)"
    using unat_csec [OF wf v, of "spc f - 1"] unat_csec [OF wf v s] s by simp
  then show ?thesis using unat_u32_less [of "csec f c (spc f - 1)"] by simp
qed

lemma unat_csec_rel:
  assumes wf: "fat_wf f" and v: "valid f c" and i: "i < spc f"
  shows "unat (csec f c i) = unat (cluster_to_sector f c) + i"
proof -
  have "0 < spc f" using i by simp
  then show ?thesis using unat_csec [OF wf v i] unat_csec [OF wf v, of 0] by simp
qed

lemma csec_of:
  assumes wf: "fat_wf f" and v: "valid f c"
    and x: "unat (cluster_to_sector f c) \<le> unat x" "unat x < unat (cluster_to_sector f c) + spc f"
  obtains i where "i < spc f" "x = csec f c i"
proof -
  let ?i = "unat x - unat (cluster_to_sector f c)"
  have "unat (csec f c ?i) = unat x" using x by (subst unat_csec_rel [OF wf v]) auto
  then have "csec f c ?i = x" using unsigned_word_eqI by blast
  moreover have "?i < spc f" using x by simp
  ultimately show ?thesis using that [of ?i] by simp
qed

lemma sectors_fit:
  assumes "n \<le> 512 * m"
  shows "(n + 511) div 512 \<le> (m :: nat)"
proof -
  have "(n + 511) div 512 \<le> (512 * m + 511) div 512" using assms by (intro div_le_mono) simp
  also have "\<dots> = m" by simp
  finally show ?thesis .
qed

lemma put_cluster_bytes:
  assumes wf: "fat_wf f" and v: "valid f c" and l: "length bs \<le> 512 * spc f"
  obtains f' where "put_bytes (cluster_to_sector f c) bs f = (0, f')" "same_geo f f'"
    "get_bytes (cluster_to_sector f c) (length bs) f' = Some bs"
    "\<And>x. (\<And>i. i < spc f \<Longrightarrow> x \<noteq> csec f c i) \<Longrightarrow> disk f' x = disk f x"
proof -
  let ?s = "cluster_to_sector f c" and ?m = "(length bs + 511) div 512"
  have m: "?m \<le> spc f" by (rule sectors_fit [OF l])
  define D where "D = (\<lambda>x. if unat ?s \<le> unat x \<and> unat x < unat ?s + ?m
    then overlay (take 512 (drop (512 * (unat x - unat ?s)) bs)) (disk f x) else disk f x)"
  have nf: "\<And>x. \<not> rd_fails f x \<and> \<not> wr_fails f x" using wf by (simp add: fat_wf_def)
  have p: "put_bytes ?s bs f = (0, f\<lparr>disk := D\<rparr>)"
    unfolding D_def by (rule put_bytes_ok [OF nf]) (use csec_room [OF wf v] m in simp)
  have "D (?s + of_nat (b div 512)) (b mod 512) = bs ! b" if b: "b < length bs" for b
  proof -
    have "length bs + 511 = 512 * ?m + (length bs + 511) mod 512" "(length bs + 511) mod 512 < 512"
      by simp_all
    then have "b < ?m * 512" using b by linarith
    then have bm: "b div 512 < ?m" by (rule less_mult_imp_div_less)
    then have "unat (?s + of_nat (b div 512)) = unat ?s + b div 512"
      using m by (intro unat_csec_rel [OF wf v]) simp
    moreover have "b mod 512 < length (drop (512 * (b div 512)) bs)"
      using b mult_div_mod_eq [of 512 b] by (simp only: length_drop less_diff_conv add.commute)
    moreover have "bs ! (512 * (b div 512) + b mod 512) = bs ! b" by simp
    ultimately show ?thesis using bm b by (simp add: D_def overlay_def)
  qed
  then have "get_bytes ?s (length bs) (f\<lparr>disk := D\<rparr>) = Some bs"
    using nf by (auto simp: get_bytes_def list_ex_iff intro: nth_equalityI)
  moreover have "D x = disk f x" if "\<And>i. i < spc f \<Longrightarrow> x \<noteq> csec f c i" for x
    using csec_of [OF wf v, of x] that m by (auto simp: D_def)
  ultimately show ?thesis using that [of "f\<lparr>disk := D\<rparr>"] p by simp
qed

end
