(* ===== verification/Fat32Chain.thy ===== *)
theory Fat32Chain
  imports Fat32Inv
begin

text \<open>
  Cluster chains: what is written to a file is what is read from it, whether or not the file had to grow,
  and no other file is touched. Both loops end on every disk, circular tables included, because each
  round moves at least one byte.
\<close>

section \<open>Termination\<close>

lemma read_chain_ends:
  assumes "sectors_per_cluster f * 512 \<noteq> 0" "n < k"
  shows "\<exists>r. read_chain k c n f = Some r"
  using assms(2)
proof (induction k arbitrary: c n)
  case (Suc k)
  let ?t = "min n (unat (sectors_per_cluster f * 512))"
  show ?case
  proof (cases "in_chain c \<and> 0 < n")
    case True
    have "0 < unat (sectors_per_cluster f * 512)" using assms(1) unat_gt_0 by blast
    then have "n - ?t < k" using True Suc.prems by linarith
    from Suc.IH [OF this, of "fat_read_entry f c"] show ?thesis by (auto simp: Let_def split: option.splits)
  qed auto
qed simp

lemma fat_write_spc: "fat_write_entry c v f = (r, f') \<Longrightarrow> sectors_per_cluster f' = sectors_per_cluster f"
  by (auto simp: fat_write_entry_def ata_write_sector_def Let_def split: if_splits)

lemma fat_extend_spc: "fat_extend c f = (r, f') \<Longrightarrow> sectors_per_cluster f' = sectors_per_cluster f"
  by (auto simp: fat_extend_def Let_def split: if_splits prod.splits dest!: fat_write_spc)

lemma put_bytes_spc: "put_bytes s bs f = (r, f') \<Longrightarrow> sectors_per_cluster f' = sectors_per_cluster f"
proof (induction s bs f arbitrary: r f' rule: put_bytes.induct)
  case (1 s bs f)
  define g where "g = f\<lparr>disk := (disk f)(s := overlay (take 512 bs) (disk f s))\<rparr>"
  show ?case
  proof (cases "bs = [] \<or> (length bs < 512 \<and> rd_fails f s) \<or> wr_fails f s")
    case True
    then show ?thesis using "1.prems" [unfolded put_bytes.simps [of s bs f]]
      by (auto simp: ata_write_sector_def split: if_splits)
  next
    case False
    then have w: "ata_write_sector s (overlay (take 512 bs) (disk f s)) f = (0, g)"
      by (simp add: ata_write_sector_def g_def)
    have "put_bytes (s + 1) (drop 512 bs) g = (r, f')"
      using "1.prems" False w by (subst (asm) put_bytes.simps) (auto split: if_splits)
    then have "sectors_per_cluster f' = sectors_per_cluster g" using "1.IH" False w by auto
    then show ?thesis by (simp add: g_def)
  qed
qed

lemma write_chain_ends:
  assumes "sectors_per_cluster f * 512 \<noteq> 0" "length bs < k"
  shows "\<exists>r. write_chain k c bs f = Some r"
  using assms
proof (induction k arbitrary: c bs f)
  case (Suc k)
  let ?t = "min (length bs) (unat (sectors_per_cluster f * 512))"
  obtain r f1 where p: "put_bytes (cluster_to_sector f c) (take ?t bs) f = (r, f1)" by fastforce
  obtain nx f2 where e: "(if fat_read_entry f1 c = 0 \<or> fat_read_entry f1 c \<ge> 0x0FFFFFF8
      then fat_extend c f1 else (Some (fat_read_entry f1 c), f1)) = (nx, f2)" by fastforce
  have s: "sectors_per_cluster f2 = sectors_per_cluster f"
    using put_bytes_spc [OF p] e by (auto split: if_splits dest: fat_extend_spc)
  have "0 < unat (sectors_per_cluster f * 512)" using Suc.prems(1) unat_gt_0 by blast
  then have "length (drop ?t bs) < k" if "bs \<noteq> []" using that Suc.prems(2) by (cases bs) auto
  then have n: "write_chain k y (drop ?t bs) f2 \<noteq> None" if "bs \<noteq> []" for y
    using Suc.IH [of f2 "drop ?t bs" y] Suc.prems(1) s that by auto
  show ?case
  proof (cases "bs = []")
    case False
    then show ?thesis using p e n [OF False, of "the nx"] by (cases nx) (auto simp: Let_def split: option.splits prod.splits)
  qed simp
qed simp

lemma read_chain_fuel:
  "read_chain k c n f = Some x \<Longrightarrow> k \<le> k' \<Longrightarrow> read_chain k' c n f = Some x"
proof (induction k arbitrary: k' c n x)
  case (Suc k)
  then obtain j where j: "k' = Suc j" "k \<le> j" by (cases k') auto
  let ?t = "min n (unat (sectors_per_cluster f * 512))"
  have "read_chain j (fat_read_entry f c) (n - ?t) f = read_chain k (fat_read_entry f c) (n - ?t) f"
    if "read_chain k (fat_read_entry f c) (n - ?t) f \<noteq> None"
    using that Suc.IH [OF _ j(2)] by auto
  moreover have "read_chain k (fat_read_entry f c) (n - ?t) f \<noteq> None"
    if "in_chain c" "0 < n" "get_bytes (cluster_to_sector f c) ?t f \<noteq> None"
    using Suc.prems(1) that by (auto simp: Let_def split: option.splits)
  ultimately show ?case using Suc.prems(1) j(1)
    by (cases "in_chain c \<and> 0 < n"; cases "get_bytes (cluster_to_sector f c) ?t f") (auto simp: Let_def)
qed simp

section \<open>Chains\<close>

lemma find_SomeD: "find P xs = Some x \<Longrightarrow> x \<in> set xs \<and> P x"
  by (induction xs) (auto split: if_splits)

text \<open>A chain of valid clusters that ends in an end-of-chain mark.\<close>

fun fchain :: "fat_fs \<Rightarrow> u32 \<Rightarrow> u32 list \<Rightarrow> bool" where
  "fchain f c [] = False"
| "fchain f c (x # xs) \<longleftrightarrow>
    x = c \<and> valid f c \<and>
    (if xs = [] then fat_read_entry f c \<ge> 0x0FFFFFF8 else fchain f (fat_read_entry f c) xs)"

lemma fchain_hd: "fchain f c cs \<Longrightarrow> valid f c \<and> c \<in> set cs"
  by (cases cs) auto

lemma fchain_all: "fchain f c cs \<Longrightarrow> x \<in> set cs \<Longrightarrow> valid f x"
  by (induction cs arbitrary: c) (auto split: if_splits)

lemma fchain_cong:
  assumes "fchain f c cs" "valid g = valid f" "\<And>x. x \<in> set cs \<Longrightarrow> fat_read_entry g x = fat_read_entry f x"
  shows "fchain g c cs"
  using assms
proof (induction cs arbitrary: c)
  case (Cons x xs)
  then show ?case by (cases "xs = []") auto
qed simp

lemma find_free_valid:
  assumes wf: "fat_wf f" and c: "fat_find_free f = c" "c \<noteq> 0"
  shows "valid f c \<and> fat_read_entry f c = 0"
proof -
  obtain n where n: "n \<in> set [2..<unat (total_clusters f + 2)]" "fat_read_entry f (of_nat n) = 0" "c = of_nat n"
    using c by (auto simp: fat_find_free_def split: option.splits dest!: find_SomeD)
  have t: "unat (total_clusters f + 2) = unat (total_clusters f) + 2"
    using wf by (simp add: fat_wf_def unat_plus_if')
  have r: "2 \<le> n" "n < unat (total_clusters f) + 2" using n(1) t by (auto simp del: upt_Suc)
  moreover have "unat (total_clusters f) + 2 \<le> 0x0FFFFFF8" using wf by (simp add: fat_wf_def)
  ultimately have "unat (of_nat n :: u32) = n" by (simp add: unat_of_nat mod_less)
  then show ?thesis using n(2,3) r by (simp add: valid_def)
qed

text \<open>An entry of a cluster is written without touching the data area or another entry.\<close>

lemma fat_write_valid:
  assumes wf: "fat_wf f" and c: "valid f c" and v: "v \<le> 0x0FFFFFFF"
  obtains f' where "fat_write_entry c v f = (0, f')" "same_geo f f'" "fat_read_entry f' c = v"
    "\<And>d. valid f d \<Longrightarrow> d \<noteq> c \<Longrightarrow> fat_read_entry f' d = fat_read_entry f d"
    "\<And>d i. valid f d \<Longrightarrow> i < spc f \<Longrightarrow> disk f' (csec f d i) = disk f (csec f d i)"
proof -
  have nf: "\<not> rd_fails f (fat_sector f c)" "\<not> wr_fails f (fat_sector f c)" using wf by (auto simp: fat_wf_def)
  obtain f' where f': "fat_write_entry c v f = (0, f')" "fat_read_entry f' c = v AND 0x0FFFFFFF"
    "f' = f\<lparr>disk := disk f'\<rparr>" "\<And>x. x \<noteq> fat_sector f c \<Longrightarrow> disk f' x = disk f x"
    "\<And>d. unat c < 2 ^ 28 \<Longrightarrow> unat d < 2 ^ 28 \<Longrightarrow> d \<noteq> c \<Longrightarrow> fat_read_entry f' d = fat_read_entry f d"
    using fat_write_ok [OF nf, where v = v] by blast
  have "v AND 0x0FFFFFFF = take_bit 28 v" by (simp add: take_bit_eq_mask mask_eq_exp_minus_1)
  moreover have "unat v < 2 ^ 28" using v by (simp add: word_le_nat_alt)
  then have "unat (take_bit 28 v) = unat v" by (simp add: take_bit_eq_mod unat_mod mod_less)
  ultimately have "fat_read_entry f' c = v" using f'(2) unsigned_word_eqI by metis
  moreover have "fat_read_entry f' d = fat_read_entry f d" if "valid f d" "d \<noteq> c" for d
    using f'(5) valid_small [OF wf] c that by blast
  moreover have "disk f' (csec f d i) = disk f (csec f d i)" if "valid f d" "i < spc f" for d i
    using f'(4) [of "csec f d i"] fat_not_data [OF wf that(1) c that(2)] by simp
  ultimately show ?thesis using that [of f'] f'(1,3) by (simp add: same_geo_def)
qed

lemma fat_extend_valid:
  assumes wf: "fat_wf f" and c: "valid f c" "fat_read_entry f c \<noteq> 0" and e: "fat_extend c f = (Some y, f')"
  shows "same_geo f f'" "valid f y" "y \<noteq> c" "fat_read_entry f y = 0" "fat_read_entry f' c = y"
    "fchain f' y [y]"
    "\<And>d. valid f d \<Longrightarrow> d \<noteq> c \<Longrightarrow> d \<noteq> y \<Longrightarrow> fat_read_entry f' d = fat_read_entry f d"
    "\<And>d i. valid f d \<Longrightarrow> i < spc f \<Longrightarrow> disk f' (csec f d i) = disk f (csec f d i)"
proof -
  have y0: "fat_find_free f = y" "y \<noteq> 0"
    using e by (auto simp: fat_extend_def Let_def split: if_splits prod.splits)
  have y: "valid f y" "fat_read_entry f y = 0" using find_free_valid [OF wf y0] by auto
  then have yc: "y \<noteq> c" using c(2) by auto
  have ys: "y \<le> 0x0FFFFFFF" using valid_small [OF wf y(1)] by (simp add: word_le_nat_alt)
  obtain f1 where f1: "fat_write_entry c y f = (0, f1)" "same_geo f f1" "fat_read_entry f1 c = y"
    "\<And>d. valid f d \<Longrightarrow> d \<noteq> c \<Longrightarrow> fat_read_entry f1 d = fat_read_entry f d"
    "\<And>d i. valid f d \<Longrightarrow> i < spc f \<Longrightarrow> disk f1 (csec f d i) = disk f (csec f d i)"
    using fat_write_valid [OF wf c(1) ys] by blast
  note g1 = same_geoD [OF f1(2)]
  obtain f2 where f2: "fat_write_entry y 0x0FFFFFFF f1 = (0, f2)" "same_geo f1 f2" "fat_read_entry f2 y = 0x0FFFFFFF"
    "\<And>d. valid f1 d \<Longrightarrow> d \<noteq> y \<Longrightarrow> fat_read_entry f2 d = fat_read_entry f1 d"
    "\<And>d i. valid f1 d \<Longrightarrow> i < spc f1 \<Longrightarrow> disk f2 (csec f1 d i) = disk f1 (csec f1 d i)"
    using fat_write_valid [of f1 y "0x0FFFFFFF"] wf y(1) g1 by auto
  have f': "f' = f2" using e y0 f1(1) f2(1) by (simp add: fat_extend_def)
  show "same_geo f f'" using f' same_geo_trans [OF f1(2) f2(2)] by simp
  show "valid f y" "y \<noteq> c" "fat_read_entry f y = 0" using y yc by auto
  show "fat_read_entry f' c = y" using f' f2(4) [of c] f1(3) c(1) yc g1 by simp
  show "fchain f' y [y]" using f' f2(3) y(1) same_geoD(11) [OF f2(2)] g1 by simp
  show "fat_read_entry f' d = fat_read_entry f d" if "valid f d" "d \<noteq> c" "d \<noteq> y" for d
    using that f' f2(4) [of d] f1(4) [of d] g1 by simp
  show "disk f' (csec f d i) = disk f (csec f d i)" if "valid f d" "i < spc f" for d i
    using that f' f2(5) [of d i] f1(5) [of d i] g1 by simp
qed

lemma read_chain_step:
  assumes "in_chain c" "0 < n" "t = min n (unat (sectors_per_cluster f * 512))"
    and "get_bytes (cluster_to_sector f c) t f = Some d"
    and "read_chain k (fat_read_entry f c) (n - t) f = Some (int m, ds)"
  shows "read_chain (Suc k) c n f = Some (int (m + t), d @ ds)"
  using assms by (simp add: Let_def)

lemma get_bytes_same:
  assumes "fat_wf f" "valid f c" "n \<le> 512 * spc f" "same_geo f g"
    and "\<And>i. i < spc f \<Longrightarrow> disk g (csec f c i) = disk f (csec f c i)"
  shows "get_bytes (cluster_to_sector f c) n g = get_bytes (cluster_to_sector f c) n f"
proof -
  have "b div 512 < spc f" if "b < n" for b
    using that assms(3) by (intro less_mult_imp_div_less) (simp add: mult.commute)
  then have "map (\<lambda>b. disk g (csec f c (b div 512)) (b mod 512)) [0..<n] =
    map (\<lambda>b. disk f (csec f c (b div 512)) (b mod 512)) [0..<n]"
    using assms(5) by auto
  then show ?thesis using same_geoD(1) [OF assms(4)] by (simp add: get_bytes_def)
qed

section \<open>Writing a file and reading it back\<close>

text \<open>A cluster whose table entry and contents are unchanged.\<close>

definition same_cluster :: "fat_fs \<Rightarrow> fat_fs \<Rightarrow> u32 \<Rightarrow> bool" where
  "same_cluster f f' x \<longleftrightarrow> fat_read_entry f' x = fat_read_entry f x \<and>
    (\<forall>i < spc f. disk f' (csec f x i) = disk f (csec f x i))"

lemma same_cluster_trans:
  assumes "same_geo f g" "same_cluster f g x" "same_cluster g h x"
  shows "same_cluster f h x"
  using assms same_geoD [OF assms(1)] by (simp add: same_cluster_def)

text \<open>One round of the loop: \<open>d\<close> goes into the cluster \<open>c\<close>.\<close>

definition stored :: "fat_fs \<Rightarrow> u32 \<Rightarrow> u8 list \<Rightarrow> fat_fs \<Rightarrow> bool" where
  "stored f c d f1 \<longleftrightarrow> same_geo f f1 \<and> get_bytes (cluster_to_sector f c) (length d) f1 = Some d \<and>
    (\<forall>x. valid f x \<longrightarrow> fat_read_entry f1 x = fat_read_entry f x \<and> (x \<noteq> c \<longrightarrow> same_cluster f f1 x))"

lemma write_round:
  assumes wf: "fat_wf f" and c: "valid f c" and d: "length d \<le> 512 * spc f"
  obtains f1 where "put_bytes (cluster_to_sector f c) d f = (0, f1)" "stored f c d f1"
proof -
  obtain f1 where f1: "put_bytes (cluster_to_sector f c) d f = (0, f1)" "same_geo f f1"
    "get_bytes (cluster_to_sector f c) (length d) f1 = Some d"
    "\<And>x. (\<And>i. i < spc f \<Longrightarrow> x \<noteq> csec f c i) \<Longrightarrow> disk f1 x = disk f x"
    using put_cluster_bytes [OF wf c d] by blast
  have fat: "fat_read_entry f1 x = fat_read_entry f x" if "valid f x" for x
    using fat_read_same [OF f1(2)] f1(4) fat_not_data [OF wf c that] by blast
  have "disk f1 (csec f x i) = disk f (csec f x i)" if "valid f x" "x \<noteq> c" "i < spc f" for x i
    using f1(4) csec_inj [OF wf that(1) c that(3)] that(2) by blast
  then have "same_cluster f f1 x" if "valid f x" "x \<noteq> c" for x
    using that fat by (simp add: same_cluster_def)
  then show ?thesis using that [of f1] f1(1-3) fat by (simp add: stored_def)
qed

text \<open>What a write does: the bytes read back, from every volume that agrees on the clusters the file may
  have come to use, and the allocated clusters outside the chain are as before.\<close>

definition mine :: "fat_fs \<Rightarrow> u32 list \<Rightarrow> u32 \<Rightarrow> bool" where
  "mine f cs x \<longleftrightarrow> valid f x \<and> (x \<in> set cs \<or> fat_read_entry f x = 0)"

definition written :: "fat_fs \<Rightarrow> u32 \<Rightarrow> u32 list \<Rightarrow> u8 list \<Rightarrow> fat_fs \<Rightarrow> bool" where
  "written f c cs bs f' \<longleftrightarrow> same_geo f f' \<and>
    (\<forall>g. same_geo f' g \<longrightarrow> (\<forall>x. mine f cs x \<longrightarrow> same_cluster f' g x) \<longrightarrow>
       read_chain (Suc (length bs)) c (length bs) g = Some (int (length bs), bs)) \<and>
    (\<forall>x. valid f x \<longrightarrow> \<not> mine f cs x \<longrightarrow> same_cluster f f' x)"

lemma same_get_bytes:
  assumes "fat_wf f" "valid f c" "length d \<le> 512 * spc f" "same_geo f g" "same_cluster f g c"
    and "get_bytes (cluster_to_sector f c) (length d) f = Some d"
  shows "get_bytes (cluster_to_sector f c) (length d) g = Some d"
  using get_bytes_same [OF assms(1-4)] assms(5,6) by (simp add: same_cluster_def)

lemma written_last:
  assumes wf: "fat_wf f" and c: "valid f c" "c \<in> set cs" and d: "d \<noteq> []" "length d \<le> 512 * spc f"
    and f1: "stored f c d f1"
  shows "written f c cs d f1"
proof -
  have geo: "same_geo f f1" and b: "get_bytes (cluster_to_sector f c) (length d) f1 = Some d"
    and keep: "\<And>x. valid f x \<Longrightarrow> x \<noteq> c \<Longrightarrow> same_cluster f f1 x" using f1 by (auto simp: stored_def)
  note g1 = same_geoD [OF geo]
  have "read_chain (Suc (length d)) c (length d) g = Some (int (length d), d)"
    if g: "same_geo f1 g" "\<forall>x. mine f cs x \<longrightarrow> same_cluster f1 g x" for g
  proof -
    have m: "same_cluster f1 g c" using g(2) c by (simp add: mine_def)
    have "read_chain (Suc (length d)) c (length d) g = Some (int (0 + length d), d @ [])"
    proof (rule read_chain_step)
      show "read_chain (length d) (fat_read_entry g c) (length d - length d) g = Some (int 0, [])"
        using d(1) by (cases "length d") auto
      show "get_bytes (cluster_to_sector g c) (length d) g = Some d"
        using same_get_bytes [OF _ _ _ g(1) m, of d] wf c d(2) b g1 same_geoD [OF g(1)] by simp
    qed (use valid_chain [OF wf c(1)] d g1 same_geoD [OF g(1)] cluster_bytes [OF wf] in auto)
    then show ?thesis by simp
  qed
  then show ?thesis using geo keep c by (auto simp: written_def mine_def)
qed

lemma written_cons:
  assumes wf: "fat_wf f" and c: "valid f c" "c \<in> set cs" and d: "length d = 512 * spc f" "d \<noteq> []"
    and f1: "same_geo f f1" "get_bytes (cluster_to_sector f c) (length d) f1 = Some d"
    and keep: "\<And>x. valid f x \<Longrightarrow> \<not> mine f cs x \<Longrightarrow> same_cluster f f1 x \<and> \<not> mine f1 cs' x"
    and nx: "fat_read_entry f1 c = y" "y \<noteq> 0" "c \<notin> set cs'"
    and w: "written f1 y cs' rest f'"
  shows "written f c cs (d @ rest) f'"
proof -
  note g1 = same_geoD [OF f1(1)]
  note w = w [unfolded written_def]
  have f': "same_geo f1 f'" "same_geo f f'" using w same_geo_trans [OF f1(1)] by auto
  have wf1: "fat_wf f1" "valid f1 c" using wf c g1 by auto
  have sc: "same_cluster f1 f' c" using w nx c g1 by (auto simp: mine_def)
  have rd: "read_chain (Suc (length (d @ rest))) c (length (d @ rest)) g =
    Some (int (length rest + length d), d @ rest)"
    if g: "same_geo f' g" "\<forall>x. mine f cs x \<longrightarrow> same_cluster f' g x" for g
  proof -
    have c': "same_cluster f1 g c"
      using same_cluster_trans [OF f'(1) sc] g(2) c by (simp add: mine_def)
    have g': "same_geo f1 g" by (rule same_geo_trans [OF f'(1) g(1)])
    have r: "read_chain (Suc (length rest)) y (length rest) g = Some (int (length rest), rest)"
      using w g keep g1(11) by (metis mine_def)
    show ?thesis
    proof (rule read_chain_step)
      show "get_bytes (cluster_to_sector g c) (length d) g = Some d"
        using same_get_bytes [OF wf1 _ g' c', of d] f1(2) d(1) g1 same_geoD [OF g'] by simp
      show "read_chain (length (d @ rest)) (fat_read_entry g c) (length (d @ rest) - length d) g =
          Some (int (length rest), rest)"
        using read_chain_fuel [OF r, of "length (d @ rest)"] c' nx(1) d(2)
        by (auto simp: same_cluster_def Suc_le_eq)
    qed (use valid_chain [OF wf c(1)] d cluster_bytes [OF wf] g1 same_geoD [OF g'] in auto)
  qed
  have "same_cluster f f' x" if "valid f x" "\<not> mine f cs x" for x
    using keep [OF that] w g1(11) that(1) same_cluster_trans [OF f1(1), of x f'] by simp
  then show ?thesis
    using f'(2) rd by (simp add: written_def add.commute)
qed

lemma written_grow:
  assumes wf: "fat_wf f" and c: "valid f c" "fat_read_entry f c \<noteq> 0" and d: "length d = 512 * spc f" "d \<noteq> []"
    and f1: "stored f c d f1" and e: "fat_extend c f1 = (Some y, f2)" and w: "written f2 y [y] rest f'"
  shows "written f c [c] (d @ rest) f'"
proof -
  have geo: "same_geo f f1" and b: "get_bytes (cluster_to_sector f c) (length d) f1 = Some d"
    and fat: "\<And>x. valid f x \<Longrightarrow> fat_read_entry f1 x = fat_read_entry f x"
    and keep: "\<And>x. valid f x \<Longrightarrow> x \<noteq> c \<Longrightarrow> same_cluster f f1 x" using f1 by (auto simp: stored_def)
  note g1 = same_geoD [OF geo]
  have f1': "fat_wf f1" "valid f1 c" "fat_read_entry f1 c \<noteq> 0" using wf c g1 fat by auto
  note x = fat_extend_valid [OF f1' e]
  show ?thesis
  proof (rule written_cons [OF wf c(1) _ d same_geo_trans [OF geo x(1)] _ _ _ _ _ w])
    show "get_bytes (cluster_to_sector f c) (length d) f2 = Some d"
      using get_bytes_same [OF f1'(1,2) _ x(1), of "length d"] x(8) [OF f1'(2)] b g1 d(1) by simp
    fix z assume z: "valid f z" "\<not> mine f [c] z"
    have zy: "z \<noteq> y" using x(4) fat [OF z(1)] z by (auto simp: mine_def)
    have "same_cluster f1 f2 z" using x(7,8) [of z] z zy g1 by (auto simp: same_cluster_def mine_def)
    then have "same_cluster f f2 z" using same_cluster_trans [OF geo keep [OF z(1)]] z by (auto simp: mine_def)
    then show "same_cluster f f2 z \<and> \<not> mine f2 [y] z"
      using zy z by (auto simp: same_cluster_def mine_def)
  qed (use x(2,3,5) in \<open>auto simp: valid_def\<close>)
qed

lemma written_next:
  assumes wf: "fat_wf f" and c: "fchain f c (c # y # ys)" "distinct (c # y # ys)"
    and d: "length d = 512 * spc f" "d \<noteq> []" and f1: "stored f c d f1" and w: "written f1 y (y # ys) rest f'"
  shows "written f c (c # y # ys) (d @ rest) f'"
proof -
  have geo: "same_geo f f1" and b: "get_bytes (cluster_to_sector f c) (length d) f1 = Some d"
    and fat: "\<And>x. valid f x \<Longrightarrow> fat_read_entry f1 x = fat_read_entry f x"
    and keep: "\<And>x. valid f x \<Longrightarrow> x \<noteq> c \<Longrightarrow> same_cluster f f1 x" using f1 by (auto simp: stored_def)
  have v: "valid f c" "valid f y" "fat_read_entry f c = y" using c by auto
  show ?thesis
    by (rule written_cons [OF wf v(1) _ d geo b _ _ _ _ w])
      (use v c fat keep in \<open>auto simp: mine_def valid_def\<close>)
qed

lemma stored_fchain:
  assumes "stored f c d f1" "fchain f y ys"
  shows "fchain f1 y ys"
  using assms fchain_cong [OF assms(2), of f1] fchain_all [OF assms(2)] same_geoD(11) [of f f1]
  by (auto simp: stored_def)

text \<open>The loop after a full cluster: the chain is extended at its end, or followed.\<close>

lemma write_chain_round:
  assumes wf: "fat_wf f" and c: "valid f c" and bs: "512 * spc f < length bs"
    and w: "write_chain (Suc k) c bs f = Some (r, f')" "0 \<le> r"
  obtains f1 y f2 r' where "stored f c (take (512 * spc f) bs) f1"
    "(if fat_read_entry f1 c = 0 \<or> fat_read_entry f1 c \<ge> 0x0FFFFFF8 then fat_extend c f1
      else (Some (fat_read_entry f1 c), f1)) = (Some y, f2)"
    "write_chain k y (drop (512 * spc f) bs) f2 = Some (r', f')" "0 \<le> r'" "r = r' + int (512 * spc f)"
proof -
  let ?t = "512 * spc f"
  obtain f1 where f1: "put_bytes (cluster_to_sector f c) (take ?t bs) f = (0, f1)" "stored f c (take ?t bs) f1"
    using write_round [OF wf c, of "take ?t bs"] by auto
  have t: "min (length bs) (unat (sectors_per_cluster f * 512)) = ?t" using bs cluster_bytes [OF wf] by simp
  have ne: "bs \<noteq> []" "drop ?t bs \<noteq> []" using bs by auto
  let ?e = "if fat_read_entry f1 c = 0 \<or> fat_read_entry f1 c \<ge> 0x0FFFFFF8 then fat_extend c f1
      else (Some (fat_read_entry f1 c), f1)"
  obtain y f2 where e: "?e = (y, f2)" by fastforce
  show ?thesis
    using w that [OF f1(2), of _ f2] ne unfolding write_chain.simps t Let_def f1(1) prod.case e
    by (auto split: option.splits prod.splits if_splits)
qed

lemma write_chain_correct:
  assumes "fat_wf f" "fchain f c cs" "distinct cs" "write_chain k c bs f = Some (r, f')" "0 \<le> r"
  shows "r = int (length bs) \<and> written f c cs bs f'"
  using assms
proof (induction k arbitrary: f c cs bs r)
  case (Suc k)
  note wf = Suc.prems(1)
  let ?t = "512 * spc f"
  have c: "valid f c" "c \<in> set cs" using fchain_hd [OF Suc.prems(2)] by auto
  consider "bs = []" | "bs \<noteq> []" "length bs \<le> ?t" | "?t < length bs" by force
  then show ?case
  proof cases
    case 1
    then show ?thesis using Suc.prems(4) by (auto simp: written_def same_cluster_def same_geo_def)
  next
    case 2
    then obtain f1 where f1: "put_bytes (cluster_to_sector f c) bs f = (0, f1)" "stored f c bs f1"
      using write_round [OF wf c(1), of bs] by auto
    then have "r = int (length bs)" "f' = f1" using Suc.prems(4) 2 cluster_bytes [OF wf] by auto
    then show ?thesis using written_last [OF wf c 2 f1(2)] by simp
  next
    case 3
    obtain f1 y f2 r' where r: "stored f c (take ?t bs) f1"
      "(if fat_read_entry f1 c = 0 \<or> fat_read_entry f1 c \<ge> 0x0FFFFFF8 then fat_extend c f1
        else (Some (fat_read_entry f1 c), f1)) = (Some y, f2)"
      "write_chain k y (drop ?t bs) f2 = Some (r', f')" "0 \<le> r'" "r = r' + int ?t"
      using write_chain_round [OF wf c(1) 3 Suc.prems(4,5)] by blast
    have geo: "same_geo f f1" and nx: "fat_read_entry f1 c = fat_read_entry f c"
      using r(1) c by (auto simp: stored_def)
    note g1 = same_geoD [OF geo]
    have d: "length (take ?t bs) = ?t" "take ?t bs \<noteq> []" using 3 wf by (auto simp: fat_wf_def)
    have len: "int (length (drop ?t bs)) + int ?t = int (length bs)" using 3 by simp
    show ?thesis
    proof (cases "tl cs")
      case Nil
      then have cs: "cs = [c]" "fat_read_entry f c \<ge> 0x0FFFFFF8" using Suc.prems(2) by (cases cs; auto)+
      then have c0: "fat_read_entry f c \<noteq> 0" by auto
      have e: "fat_extend c f1 = (Some y, f2)" using r(2) cs nx by simp
      have f1': "fat_wf f1" "valid f1 c" "fat_read_entry f1 c \<noteq> 0" using wf c g1 nx c0 by auto
      note x = fat_extend_valid [OF f1' e]
      have "r' = int (length (drop ?t bs)) \<and> written f2 y [y] (drop ?t bs) f'"
        by (rule Suc.IH [OF _ x(6) _ r(3,4)]) (use f1' same_geoD [OF x(1)] in auto)
      then show ?thesis using written_grow [OF wf c(1) c0 d r(1) e, of "drop ?t bs" f'] r(5) len cs(1) by simp
    next
      case (Cons z zs)
      then have cs: "cs = c # z # zs" using Suc.prems(2) by (cases cs) auto
      then have z: "fat_read_entry f c = z" "fchain f z (z # zs)" using Suc.prems(2) by auto
      have "in_chain z" using valid_chain [OF wf] z(2) by auto
      then have y: "y = z" "f2 = f1" using r(2) nx z(1) by (auto split: if_splits)
      have "r' = int (length (drop ?t bs)) \<and> written f1 z (z # zs) (drop ?t bs) f'"
        by (rule Suc.IH [OF _ stored_fchain [OF r(1) z(2)] _ r(3,4) [unfolded y]])
          (use wf g1 Suc.prems(3) cs in auto)
      then show ?thesis using written_next [OF wf, of c z zs "take ?t bs" f1 "drop ?t bs" f'] Suc.prems(2,3) d r(1,5) len cs
        by simp
    qed
  qed
qed simp

end
