(* ===== verification/Fat32Dir.thy ===== *)
theory Fat32Dir
  imports Fat32Chain
begin

text \<open>
  Directories: a walk over a chain of clusters is a walk over the list of its slots, and an entry that was
  created is found.
\<close>

section \<open>Walks as lists\<close>

lemma scan_list_append:
  "scan_list g (xs @ ys) st = (case scan_list g xs st of Return r \<Rightarrow> Return r | Next st \<Rightarrow> scan_list g ys st)"
  by (induction xs arbitrary: st) (auto split: outcome.splits)

lemma scan_list_concat: "scan_list g (concat xss) st = scan_list (scan_list g) xss st"
  by (induction xss arbitrary: st) (auto simp: scan_list_append split: outcome.splits)

lemma scan_list_map: "scan_list g (map h xs) st = scan_list (\<lambda>x. g (h x)) xs st"
  by (induction xs arbitrary: st) (auto split: outcome.splits)

lemma scan_list_ReturnD:
  assumes "scan_list g xs st = Return r"
  obtains ys x zs st' where "xs = ys @ x # zs" "scan_list g ys st = Next st'" "g x st' = Return r"
  using assms
proof (induction xs arbitrary: st thesis)
  case (Cons x xs)
  show ?case
  proof (cases "g x st")
    case (Return s)
    then show ?thesis using Cons.prems Cons.prems(1) [of "[]" x xs st] by simp
  next
    case (Next st1)
    then have "scan_list g xs st1 = Return r" using Cons.prems(2) by simp
    then obtain ys y zs st' where "xs = ys @ y # zs" "scan_list g ys st1 = Next st'" "g y st' = Return r"
      using Cons.IH by blast
    then show ?thesis using Cons.prems(1) [of "x # ys" y zs st'] Next by simp
  qed
qed simp

definition slots :: "fat_fs \<Rightarrow> u32 \<Rightarrow> (u32 \<times> nat) list" where
  "slots f c = concat (map (\<lambda>s. map (Pair (csec f c s)) [0..<16]) [0..<spc f])"

lemma slots_sec: "(sec, i) \<in> set (slots f c) \<Longrightarrow> i < 16 \<and> (\<exists>s < spc f. sec = csec f c s)"
  by (auto simp: slots_def)

lemma scan_cluster_slots:
  assumes "fat_wf f"
  shows "scan_cluster g io c f st = scan_list (\<lambda>(sec, i). g sec (disk f sec) i) (slots f c) st"
proof -
  have "\<not> rd_fails f x" for x using assms by (simp add: fat_wf_def)
  then show ?thesis
    unfolding scan_cluster_def slots_def scan_list_concat scan_list_map by (simp add: Let_def)
qed

lemma scan_dir_slots:
  assumes "fat_wf f" "fchain f c cs" "length cs < n"
  shows "scan_dir n g io c f st =
    Some (scan_list (\<lambda>(sec, i). g sec (disk f sec) i) (concat (map (slots f) cs)) st)"
  using assms(2,3)
proof (induction cs arbitrary: c n st)
  case (Cons x xs)
  then obtain m where m: "n = Suc m" "length xs < m" by (cases n) auto
  have c: "x = c" "in_chain c" using Cons.prems(1) valid_chain [OF assms(1)] by auto
  let ?g = "\<lambda>(sec, i). g sec (disk f sec) i"
  have rest: "scan_dir m g io (fat_read_entry f c) f st' = Some (scan_list ?g (concat (map (slots f) xs)) st')" for st'
  proof (cases "xs = []")
    case True
    then show ?thesis using Cons.prems(1) m(2) by (cases m) auto
  next
    case False
    then show ?thesis using Cons.IH [OF _ m(2)] Cons.prems(1) by simp
  qed
  show ?case
    using c rest m(1)
    by (simp add: scan_cluster_slots [OF assms(1)] scan_list_append split: outcome.splits)
qed simp

section \<open>Created entries are found\<close>

lemma locate_slots:
  assumes "fat_wf f" "fchain f c cs" "length cs < n" "locate n v c f = Some (At sec b i)"
  obtains ps qs where "concat (map (slots f) cs) = ps @ (sec, i) # qs" "b = disk f sec" "v b i = Take"
    "\<And>s j. (s, j) \<in> set ps \<Longrightarrow> v (disk f s) j = Pass"
proof -
  let ?g = "\<lambda>(s, j). locate_step v s (disk f s) j"
  have "scan_list ?g (concat (map (slots f) cs)) () = Return (At sec b i)"
    using assms(4) unfolding locate_def scan_dir_slots [OF assms(1-3)]
    by (auto split: outcome.splits)
  then obtain ps x qs where s: "concat (map (slots f) cs) = ps @ x # qs" "scan_list ?g ps () = Next ()"
      "?g x () = Return (At sec b i)"
    by (rule scan_list_ReturnD) auto
  have pass: "v (disk f s) j = Pass" if "scan_list ?g xs () = Next ()" "(s, j) \<in> set xs" for xs s j
    using that by (induction xs) (auto simp: locate_step_def split: verdict.splits)
  obtain s0 j0 where x: "x = (s0, j0)" by fastforce
  then have "s0 = sec" "j0 = i" "b = disk f sec" "v b i = Take"
    using s(3) by (auto simp: locate_step_def split: verdict.splits)
  then show ?thesis using that [of ps qs] s x pass [OF s(2)] by auto
qed

lemma find_scan:
  assumes "\<And>s j. (s, j) \<in> set xs \<Longrightarrow> slot_first (d s) j \<noteq> 0"
  shows "(\<exists>st'. scan_list (\<lambda>(s, j). find_step name s (d s) j) xs st = Next st') \<or>
    (\<exists>s j e. (s, j) \<in> set xs \<and> scan_list (\<lambda>(s, j). find_step name s (d s) j) xs st = Return (Some (s, e)))"
  using assms
proof (induction xs arbitrary: st)
  case (Cons x xs)
  obtain s j where x: "x = (s, j)" by fastforce
  have "slot_first (d s) j \<noteq> 0" using Cons.prems x by auto
  then have "(\<exists>st'. find_step name s (d s) j st = Next st') \<or>
      find_step name s (d s) j st = Return (Some (s, entry_of (d s) j))"
    by (auto simp: find_step_def)
  then show ?case
  proof
    assume "\<exists>st'. find_step name s (d s) j st = Next st'"
    then obtain st' where "find_step name s (d s) j st = Next st'" by blast
    then show ?thesis using Cons.IH [of st'] Cons.prems x by auto
  qed (use x in auto)
qed simp

lemma new_entry_bytes:
  assumes "length nm = 11" "x < 32 * i \<or> 32 * i + 32 \<le> x"
  shows "new_entry nm a i b x = b x"
  using assms by (auto simp: new_entry_def put_cluster_def put16_def put32_def put_name_def)

lemma new_entry_fields:
  assumes "length nm = 11"
  shows "slot_name (new_entry nm a i b) i = nm" "slot_attr (new_entry nm a i b) i = a"
    "slot_first (new_entry nm a i b) i = nm ! 0"
proof -
  have n: "new_entry nm a i b (32 * i + j) = nm ! j" if "j < 11" for j
    using that by (auto simp: new_entry_def put_cluster_def put16_def put32_def put_name_def)
  show "slot_name (new_entry nm a i b) i = nm" using n assms by (intro nth_equalityI) auto
  show "slot_attr (new_entry nm a i b) i = a"
    by (auto simp: new_entry_def put_cluster_def put16_def put32_def)
  show "slot_first (new_entry nm a i b) i = nm ! 0" using n [of 0] by simp
qed

lemma length_pad [simp]: "length (pad n xs) = n"
  by (simp add: pad_def)

lemma length_name_to_83 [simp]: "length (name_to_83 name) = 11"
  by (simp add: name_to_83_def Let_def)

text \<open>What a step of the search sees is the slot alone.\<close>

lemma find_step_same:
  assumes "\<And>x. 32 * i \<le> x \<Longrightarrow> x < 32 * i + 32 \<Longrightarrow> b' x = b x"
  shows "find_step name sec b' i st = find_step name sec b i st"
proof -
  have r: "b' (32 * i + j) = b (32 * i + j)" if "j < 32" for j using assms that by simp
  have l: "le16 b' (32 * i + j) = le16 b (32 * i + j)" if "j < 31" for j
    using r [of j] r [of "Suc j"] that by (simp add: le16_def)
  have l4: "le32 b' (32 * i + 28) = le32 b (32 * i + 28)"
    by (simp add: le32_def assms)
  have lf: "slot_first b' i = slot_first b i" using r [of 0] by simp
  have e: "entry_of b' i = entry_of b i"
    using r [of 11] l [of 20] l [of 26] l [of 22] l [of 24] l4 r
    by (simp add: entry_of_def first_cluster_of_def)
  have m: "map (\<lambda>k. le16 b' (32 * i + k)) lofs = map (\<lambda>k. le16 b (32 * i + k)) lofs"
    using l [of 1] by (intro map_cong) (auto simp: lofs_def l)
  have n: "slot_name b' i = slot_name b i" using r by simp
  show ?thesis using r [of 11] by (simp only: find_step_def lfn_add_def lf e m n)
qed

lemma scan_list_cong:
  "(\<And>x st. x \<in> set xs \<Longrightarrow> g x st = h x st) \<Longrightarrow> scan_list g xs st = scan_list h xs st"
  by (induction xs arbitrary: st) (auto split: outcome.splits)

lemma sint_csec:
  assumes "fat_wf f" "valid f c" "s < spc f"
    and "unat (first_data_sector f) + unat (total_clusters f) * spc f \<le> 2 ^ 31"
  shows "\<not> sint (csec f c s) < 0"
proof -
  obtain m where "unat c = m + 2" using assms(2) le_Suc_ex [of 2 "unat c"] by (auto simp: valid_def)
  then have "(unat c - 2) * spc f + s < (unat c - 1) * spc f" using assms(3) by simp
  also have "\<dots> \<le> unat (total_clusters f) * spc f" using assms(2) by (intro mult_le_mono1) (auto simp: valid_def)
  finally have "unat (csec f c s) < 2 ^ 31" using unat_csec [OF assms(1-3)] assms(4) by linarith
  then show ?thesis by (simp add: sint_small)
qed

text \<open>Writing one slot of a directory leaves the chains and the other slots as they were.\<close>

definition put_slot :: "u32 \<Rightarrow> nat \<Rightarrow> fat_fs \<Rightarrow> fat_fs \<Rightarrow> bool" where
  "put_slot sec i f f' \<longleftrightarrow> same_geo f f' \<and> (\<forall>x. x \<noteq> sec \<longrightarrow> disk f' x = disk f x) \<and>
    (\<forall>x. x < 32 * i \<or> 32 * i + 32 \<le> x \<longrightarrow> disk f' sec x = disk f sec x)"

lemma dir_sec:
  assumes "fchain f c cs" "(sec, i) \<in> set (concat (map (slots f) cs))"
  obtains d s where "valid f d" "s < spc f" "sec = csec f d s"
proof -
  obtain d where d: "d \<in> set cs" "(sec, i) \<in> set (slots f d)" using assms(2) by auto
  then show ?thesis using that slots_sec [OF d(2)] fchain_all [OF assms(1) d(1)] by blast
qed

lemma put_slot_fchain:
  assumes "fat_wf f" "fchain f c cs" "(sec, i) \<in> set (concat (map (slots f) cs))" "put_slot sec i f f'"
  shows "fchain f' c cs"
proof -
  obtain d s where d: "valid f d" "s < spc f" "sec = csec f d s" using dir_sec [OF assms(2,3)] by blast
  have g: "same_geo f f'" using assms(4) by (simp add: put_slot_def)
  show ?thesis
  proof (rule fchain_cong [OF assms(2)])
    show "valid f' = valid f" using same_geoD [OF g] by simp
    fix x assume "x \<in> set cs"
    then have "fat_sector f x \<noteq> sec" using fat_not_data [OF assms(1) d(1) _ d(2)] fchain_all [OF assms(2)] d(3) by auto
    then show "fat_read_entry f' x = fat_read_entry f x"
      using fat_read_same [OF g] assms(4) by (simp add: put_slot_def)
  qed
qed

lemma put_slot_find:
  assumes "put_slot sec i f f'" "(s, j) \<noteq> (sec, i)"
  shows "find_step name s (disk f' s) j st = find_step name s (disk f s) j st"
proof (rule find_step_same)
  fix x assume "32 * j \<le> x" "x < 32 * j + 32"
  moreover have "x < 32 * i \<or> 32 * i + 32 \<le> x" if "j \<noteq> i" using that calculation by (cases "j < i") auto
  ultimately show "disk f' s x = disk f s x" using assms by (cases "s = sec") (auto simp: put_slot_def)
qed

lemma find_entry_slots:
  assumes "fat_wf f" "fchain f c cs" "length cs < n"
  shows "find_entry n c name f =
    (case scan_list (\<lambda>(s, j). find_step name s (disk f s) j) (concat (map (slots f) cs))
        \<lparr>lfn_buf = \<lambda>_. 0, lfn_len = 0, expect_seq = 0\<rparr> of
       Return (Some (sec, e)) \<Rightarrow> Some (if sint sec < 0 then None else Some e)
     | _ \<Rightarrow> Some None)"
  unfolding find_entry_def scan_dir_slots [OF assms] by (simp split: outcome.splits option.splits)

lemma new_entry_put_slot:
  assumes "length nm = 11"
  shows "put_slot sec i f (f\<lparr>disk := (disk f)(sec := new_entry nm attr i (disk f sec))\<rparr>)"
  using new_entry_bytes [OF assms] by (auto simp: put_slot_def same_geo_def)

lemma new_entry_empty:
  "de_size (entry_of (new_entry nm a i b) i) = 0" "de_cluster (entry_of (new_entry nm a i b) i) = 0"
  by (simp_all add: entry_of_def new_entry_def first_cluster_of_def put_cluster_def put16_def put32_def le32_def le16_def)

lemma new_entry_name:
  assumes "length nm = 11"
  shows "de_name (entry_of (new_entry nm a i b) i) = nm" "de_attr (entry_of (new_entry nm a i b) i) = a"
  using new_entry_fields [OF assms, of a i b] unfolding entry_of_def by simp_all

lemma find_step_new:
  assumes "name_to_83 name ! 0 \<noteq> 0" "name_to_83 name ! 0 \<noteq> 0xE5" "attr \<noteq> 0x0F"
    and b': "b' = new_entry (name_to_83 name) attr i b"
  shows "find_step name sec b' i st = Return (Some (sec, entry_of b' i))"
proof -
  note f = new_entry_fields [of "name_to_83 name" attr i b, folded b', OF length_name_to_83]
  show ?thesis unfolding find_step_def f using assms(1-3) by simp
qed

definition low_volume :: "fat_fs \<Rightarrow> bool" where
  "low_volume f \<longleftrightarrow> unat (first_data_sector f) + unat (total_clusters f) * spc f \<le> 2 ^ 31"

lemma create_find:
  assumes wf: "fat_wf f" "low_volume f" and ch: "fchain f c cs" "length cs < n"
    and nm: "name_to_83 name ! 0 \<noteq> 0" "name_to_83 name ! 0 \<noteq> 0xE5" and at: "attr \<noteq> 0x0F"
    and none: "find_entry n c name f = Some None"
    and cr: "create_entry_at n c name attr f = Some (0, f')"
  shows "\<exists>e. find_entry n c name f' = Some (Some e) \<and> de_name e = name_to_83 name \<and>
    de_attr e = attr \<and> de_size e = 0 \<and> de_cluster e = 0"
proof -
  let ?nm = "name_to_83 name" and ?st = "\<lparr>lfn_buf = \<lambda>_. 0, lfn_len = 0, expect_seq = 0\<rparr>"
  let ?g = "\<lambda>d (s, j). find_step name s (d s) j"
  obtain sec b i where l: "locate n free_slot c f = Some (At sec b i)"
      and f': "f' = f\<lparr>disk := (disk f)(sec := new_entry ?nm attr i b)\<rparr>"
    using cr by (auto simp: create_entry_at_def ata_write_sector_def split: option.splits location.splits if_splits)
  obtain ps qs where s: "concat (map (slots f) cs) = ps @ (sec, i) # qs" "b = disk f sec" "free_slot b i = Take"
      and pass: "\<And>s j. (s, j) \<in> set ps \<Longrightarrow> free_slot (disk f s) j = Pass"
    using locate_slots [OF wf(1) ch l] by blast
  have m: "(sec, i) \<in> set (concat (map (slots f) cs))" using s(1) by simp
  obtain d k where d: "valid f d" "k < spc f" "sec = csec f d k" using dir_sec [OF ch(1) m] by blast
  have ps: "put_slot sec i f f'" using new_entry_put_slot [of ?nm] f' s(2) by simp
  have ch': "fchain f' c cs" by (rule put_slot_fchain [OF wf(1) ch(1) m ps])
  have geo: "same_geo f f'" using ps by (simp add: put_slot_def)
  have nz: "slot_first (disk f s) j \<noteq> 0" "(s, j) \<noteq> (sec, i)" if "(s, j) \<in> set ps" for s j
    using pass [OF that] s(2,3) by (auto simp: free_slot_def split: if_splits)
  have same: "scan_list (?g (disk f')) ps ?st = scan_list (?g (disk f)) ps ?st"
    using put_slot_find [OF ps] nz(2) by (intro scan_list_cong) auto
  have neg: "\<not> sint s < 0" if "(s, j) \<in> set (ps @ [(sec, i)])" for s j
  proof -
    have "(s, j) \<in> set (concat (map (slots f) cs))" using that s(1) by auto
    then obtain d k where "valid f d" "k < spc f" "s = csec f d k" using dir_sec [OF ch(1)] by blast
    then show ?thesis using sint_csec [OF wf(1)] wf(2) by (simp add: low_volume_def)
  qed
  obtain st' where st': "scan_list (?g (disk f)) ps ?st = Next st'"
    using find_scan [of ps "disk f" name ?st] nz(1) none neg
    unfolding find_entry_slots [OF wf(1) ch] s(1) scan_list_append by fastforce
  have fs: "disk f' sec = new_entry ?nm attr i b" using f' by simp
  have "?g (disk f') (sec, i) st' = Return (Some (sec, entry_of (disk f' sec) i))"
    using find_step_new [OF nm at fs] by simp
  moreover have "slots f' = slots f" "fat_wf f'" using same_geoD [OF geo] wf(1) by (auto simp: slots_def)
  ultimately have "find_entry n c name f' = Some (Some (entry_of (disk f' sec) i))"
    using find_entry_slots [OF _ ch' ch(2), of name] s(1) same st' neg [of sec i] by (simp add: scan_list_append)
  then show ?thesis
    using new_entry_empty [of ?nm attr i b] new_entry_name [of ?nm attr i b] unfolding fs by auto
qed

end
