(* ===== verification/Fat32File.thy ===== *)
theory Fat32File
  imports Fat32Dir
begin

text \<open>
  Whole files: what \<^verbatim>\<open>fat32_write_file\<close> stores under a name is what \<^verbatim>\<open>fat32_read_file\<close> returns for it.
\<close>

section \<open>Directories that did not change\<close>

lemma fchain_nonzero:
  assumes "fat_wf f" "fchain f c cs" "x \<in> set cs"
  shows "fat_read_entry f x \<noteq> 0"
  using assms(2,3)
proof (induction cs arbitrary: c)
  case (Cons y ys)
  show ?case
  proof (cases ys)
    case Nil
    then show ?thesis using Cons.prems by auto
  next
    case (Cons z zs)
    then show ?thesis using Cons.IH Cons.prems by (auto simp: valid_def)
  qed
qed simp

definition same_dir :: "fat_fs \<Rightarrow> fat_fs \<Rightarrow> u32 list \<Rightarrow> bool" where
  "same_dir f g ds \<longleftrightarrow> same_geo f g \<and> (\<forall>x \<in> set ds. same_cluster f g x)"

lemma same_dir_fchain:
  assumes "fchain f c ds" "same_dir f g ds"
  shows "fchain g c ds"
  by (rule fchain_cong [OF assms(1)]) (use assms(2) same_geoD(11) in \<open>auto simp: same_dir_def same_cluster_def\<close>)

lemma same_geo_slots: "same_geo f g \<Longrightarrow> slots g = slots f"
  using same_geoD [of f g] by (simp add: slots_def fun_eq_iff)

lemma same_dir_scan:
  assumes "fat_wf f" "fchain f c ds" "length ds < n" "same_dir f g ds"
  shows "scan_dir n h io c g st = scan_dir n h io c f st"
proof -
  have geo: "same_geo f g" using assms(4) by (simp add: same_dir_def)
  have "scan_list (\<lambda>(s, j). h s (disk g s) j) (concat (map (slots f) ds)) st =
    scan_list (\<lambda>(s, j). h s (disk f s) j) (concat (map (slots f) ds)) st"
  proof (rule scan_list_cong)
    fix x st assume "x \<in> set (concat (map (slots f) ds))"
    then obtain d where d: "d \<in> set ds" "x \<in> set (slots f d)" by auto
    obtain s j where x: "x = (s, j)" by fastforce
    then have "disk g s = disk f s"
      using slots_sec [of s j f d] d assms(4) by (auto simp: same_dir_def same_cluster_def)
    then show "(\<lambda>(s, j). h s (disk g s) j) x st = (\<lambda>(s, j). h s (disk f s) j) x st" using x by simp
  qed
  then show ?thesis
    using scan_dir_slots [OF assms(1-3), of h io st]
      scan_dir_slots [OF _ same_dir_fchain [OF assms(2,4)] assms(3), of h io st] same_geoD(10) [OF geo] same_geo_slots [OF geo] assms(1) by simp
qed

lemma same_dir_find:
  assumes "fat_wf f" "fchain f c ds" "length ds < n" "same_dir f g ds"
  shows "find_entry n c name g = find_entry n c name f" "locate n v c g = locate n v c f"
  by (simp_all only: find_entry_def locate_def same_dir_scan [OF assms])

lemma same_dir_trans: "same_dir f g ds \<Longrightarrow> same_dir g h ds \<Longrightarrow> same_dir f h ds"
  unfolding same_dir_def by (blast intro: same_geo_trans same_cluster_trans)

section \<open>The slot of a file\<close>

text \<open>A file found by its short name occupies the first live slot with that name.\<close>

lemma scan_list_NextD: "scan_list g xs st = Next st' \<Longrightarrow> x \<in> set xs \<Longrightarrow> \<exists>s s'. g x s = Next s'"
  by (induction xs arbitrary: st) (auto split: outcome.splits)

lemma find_step_pass: "find_step name sec b i st = Next st' \<Longrightarrow> named_slot (name_to_83 name) b i = Pass"
  unfolding find_step_def named_slot_def by (simp split: if_splits)

lemma find_step_found:
  "find_step name s b i st = Return (Some (sec, e)) \<Longrightarrow>
    s = sec \<and> e = entry_of b i \<and> slot_first b i \<noteq> 0 \<and> slot_first b i \<noteq> 0xE5 \<and> slot_attr b i \<noteq> 0x0F"
  unfolding find_step_def by (simp split: if_splits)

lemma find_entry_slot:
  assumes wf: "fat_wf f" and ch: "fchain f c ds" "length ds < n"
    and e: "find_entry n c name f = Some (Some e)" "de_name e = name_to_83 name"
  obtains ps sec i qs st where "concat (map (slots f) ds) = ps @ (sec, i) # qs" "e = entry_of (disk f sec) i"
    "scan_list (\<lambda>(s, j). find_step name s (disk f s) j) ps \<lparr>lfn_buf = \<lambda>_. 0, lfn_len = 0, expect_seq = 0\<rparr> = Next st"
    "named_slot (name_to_83 name) (disk f sec) i = Take" "slot_first (disk f sec) i \<noteq> 0" "\<not> sint sec < 0"
    "\<And>s j. (s, j) \<in> set ps \<Longrightarrow> named_slot (name_to_83 name) (disk f s) j = Pass"
proof -
  let ?g = "\<lambda>(s, j). find_step name s (disk f s) j" and ?st = "\<lparr>lfn_buf = \<lambda>_. 0, lfn_len = 0, expect_seq = 0\<rparr>"
  define r where "r = scan_list ?g (concat (map (slots f) ds)) ?st"
  obtain sec where r: "r = Return (Some (sec, e))" and sg: "\<not> sint sec < 0"
    using e(1) unfolding find_entry_slots [OF wf ch] r_def [symmetric]
    by (auto split: outcome.splits option.splits if_splits)
  obtain ps x qs st where s: "concat (map (slots f) ds) = ps @ x # qs" "scan_list ?g ps ?st = Next st"
      "?g x st = Return (Some (sec, e))"
    using scan_list_ReturnD [OF r [unfolded r_def]] by blast
  obtain s0 i where x: "x = (s0, i)" by fastforce
  have "s0 = sec" "e = entry_of (disk f sec) i" "slot_first (disk f sec) i \<noteq> 0" "slot_first (disk f sec) i \<noteq> 0xE5"
      "slot_attr (disk f sec) i \<noteq> 0x0F"
    using find_step_found [of name s0 "disk f s0" i st sec e] s(3) x by auto
  moreover have "slot_name (disk f sec) i = name_to_83 name" using e(2) calculation(2) by (simp add: entry_of_def)
  moreover have "named_slot (name_to_83 name) (disk f s) j = Pass"
    if "(s, j) \<in> set ps" for s j
    using scan_list_NextD [OF s(2) that] find_step_pass [of name s "disk f s" j] by auto
  ultimately show ?thesis
    using that [of ps sec i qs st] s(1,2) x sg by (simp only: named_slot_def if_False if_True simp_thms)
qed

lemma find_then_locate:
  assumes wf: "fat_wf f" and ch: "fchain f c ds" "length ds < n"
    and p: "concat (map (slots f) ds) = ps @ (sec, i) # qs" "v (disk f sec) i = Take"
    "\<And>s j. (s, j) \<in> set ps \<Longrightarrow> v (disk f s) j = Pass"
  shows "locate n v c f = Some (At sec (disk f sec) i)"
proof -
  let ?g = "\<lambda>(s, j). locate_step v s (disk f s) j"
  have "scan_list ?g xs () = Next ()" if "\<And>s j. (s, j) \<in> set xs \<Longrightarrow> v (disk f s) j = Pass" for xs
    using that by (induction xs) (auto simp: locate_step_def)
  then have "scan_list ?g ps () = Next ()" using p(3) by blast
  then show ?thesis
    using p(2) by (simp add: locate_def scan_dir_slots [OF wf ch] p(1) scan_list_append locate_step_def)
qed

text \<open>Changing the size and the first cluster of the slot.\<close>

definition set_file :: "nat \<Rightarrow> u32 \<Rightarrow> u32 \<Rightarrow> sector \<Rightarrow> sector" where
  "set_file i c z b = put_cluster i c (put32 (32 * i + 28) z b)"

lemma set_file_bytes:
  "x < 32 * i + 20 \<or> 32 * i + 32 \<le> x \<Longrightarrow> set_file i c z b x = b x"
  by (auto simp: set_file_def put_cluster_def put16_def put32_def)

lemma set_file_fields:
  "slot_name (set_file i c z b) i = slot_name b i" "slot_attr (set_file i c z b) i = slot_attr b i"
  "slot_first (set_file i c z b) i = slot_first b i"
  by (auto intro!: set_file_bytes)

lemma cluster_halves: "push_bit 16 (ucast (ucast (drop_bit 16 c) :: u16)) OR ucast (ucast c :: u16) = (c :: u32)"
  by (rule bit_word_eqI) (auto simp: bit_simps)

lemma le_put16_other:
  "i + 2 \<le> j \<or> j + 4 \<le> i \<Longrightarrow> le32 (put16 i v b) j = le32 b j"
  "i + 2 \<le> j \<or> j + 2 \<le> i \<Longrightarrow> le16 (put16 i v b) j = le16 b j"
  unfolding le32_def le16_def put16_def by auto

lemma set_file_entry:
  "de_size (entry_of (set_file i c z b) i) = z" "de_cluster (entry_of (set_file i c z b) i) = c"
proof -
  have "le32 (set_file i c z b) (32 * i + 28) = z"
    by (simp add: set_file_def put_cluster_def le_put16_other le32_put32)
  then show "de_size (entry_of (set_file i c z b) i) = z" by (simp add: entry_of_def)
  show "de_cluster (entry_of (set_file i c z b) i) = c"
    using cluster_halves [of c]
    by (simp add: entry_of_def first_cluster_of_def set_file_def put_cluster_def
      le_put16_other le16_put16)
qed

lemma find_step_live:
  assumes "named_slot (name_to_83 name) b i = Take" "slot_first b i \<noteq> 0"
  shows "find_step name sec b i st = Return (Some (sec, entry_of b i))"
  using assms unfolding named_slot_def find_step_def by (simp split: if_splits)

lemma set_file_put_slot:
  "put_slot sec i f (f\<lparr>disk := (disk f)(sec := set_file i c z (disk f sec))\<rparr>)"
  using set_file_bytes by (auto simp: put_slot_def same_geo_def)

lemma find_after_set_file:
  assumes wf: "fat_wf f" and ch: "fchain f c ds" "length ds < n"
    and p: "concat (map (slots f) ds) = ps @ (sec, i) # qs"
    "scan_list (\<lambda>(s, j). find_step name s (disk f s) j) ps \<lparr>lfn_buf = \<lambda>_. 0, lfn_len = 0, expect_seq = 0\<rparr> = Next st"
    "named_slot (name_to_83 name) (disk f sec) i = Take" "slot_first (disk f sec) i \<noteq> 0" "\<not> sint sec < 0"
    and f': "f' = f\<lparr>disk := (disk f)(sec := set_file i d z (disk f sec))\<rparr>"
  shows "find_entry n c name f' = Some (Some (entry_of (set_file i d z (disk f sec)) i))"
proof -
  let ?g = "\<lambda>d (s, j). find_step name s (d s) j" and ?b = "set_file i d z (disk f sec)"
  have ps: "put_slot sec i f f'" unfolding f' by (rule set_file_put_slot)
  have geo: "same_geo f f'" using ps by (simp add: put_slot_def)
  have m: "(sec, i) \<in> set (concat (map (slots f) ds))" using p(1) by simp
  have ch': "fchain f' c ds" by (rule put_slot_fchain [OF wf ch(1) m ps])
  have ni: "(sec, i) \<notin> set ps"
    using scan_list_NextD [OF p(2), of "(sec, i)"] find_step_live [OF p(3,4)] by auto
  have "scan_list (?g (disk f')) ps st0 = scan_list (?g (disk f)) ps st0" for st0
  proof (rule scan_list_cong)
    fix x s assume "x \<in> set ps"
    moreover obtain a b where "x = (a, b)" by fastforce
    ultimately show "?g (disk f') x s = ?g (disk f) x s"
      using put_slot_find [OF ps, of a b name s] ni by (simp only: prod.case) blast
  qed
  then have nx: "scan_list (?g (disk f')) ps \<lparr>lfn_buf = \<lambda>_. 0, lfn_len = 0, expect_seq = 0\<rparr> = Next st"
    using p(2) by simp
  have "named_slot (name_to_83 name) ?b i = Take" "slot_first ?b i \<noteq> 0"
    using p(3,4) unfolding named_slot_def set_file_fields by auto
  then have here: "find_step name sec ?b i st = Return (Some (sec, entry_of ?b i))" by (rule find_step_live)
  have sc: "scan_list (?g (disk f')) (concat (map (slots f') ds)) \<lparr>lfn_buf = \<lambda>_. 0, lfn_len = 0, expect_seq = 0\<rparr> =
      Return (Some (sec, entry_of ?b i))"
    using here f' unfolding same_geo_slots [OF geo] p(1) scan_list_append nx by simp
  have wf': "fat_wf f'" using same_geoD(10) [OF geo] wf by simp
  show ?thesis unfolding find_entry_slots [OF wf' ch' ch(2)] sc using p(5) by simp
qed

section \<open>The file's clusters\<close>

definition file_chain :: "fat_fs \<Rightarrow> u32 \<Rightarrow> u32 list \<Rightarrow> u32 list \<Rightarrow> bool" where
  "file_chain f c cs ds \<longleftrightarrow> fchain f c cs \<and> distinct cs \<and> set cs \<inter> set ds = {}"

lemma first_cluster_ok:
  assumes wf: "fat_wf f" and ds: "fchain f c ds"
    and e: "de_cluster e \<noteq> 0 \<Longrightarrow> file_chain f (de_cluster e) cs ds"
    and a: "first_cluster_for e f = (Some d, f1)"
  obtains cs' where "same_dir f f1 ds" "file_chain f1 d cs' ds"
proof (cases "de_cluster e = 0")
  case False
  then show ?thesis using that [of cs] e a
    by (auto simp: first_cluster_for_def same_dir_def same_geo_def same_cluster_def)
next
  case True
  then have d: "fat_find_free f = d" "d \<noteq> 0"
    using a by (auto simp: first_cluster_for_def Let_def split: if_splits prod.splits)
  then have v: "valid f d" "fat_read_entry f d = 0" using find_free_valid [OF wf] by auto
  obtain g where g: "fat_write_entry d 0x0FFFFFFF f = (0, g)" "same_geo f g" "fat_read_entry g d = 0x0FFFFFFF"
    "\<And>x. valid f x \<Longrightarrow> x \<noteq> d \<Longrightarrow> fat_read_entry g x = fat_read_entry f x"
    "\<And>x i. valid f x \<Longrightarrow> i < spc f \<Longrightarrow> disk g (csec f x i) = disk f (csec f x i)"
    using fat_write_valid [OF wf v(1), of "0x0FFFFFFF"] by auto
  have f1: "f1 = g" using a True d g(1) by (simp add: first_cluster_for_def)
  have nd: "d \<notin> set ds" using fchain_nonzero [OF wf ds] v(2) by blast
  have "same_dir f f1 ds"
    using f1 g(2,4,5) fchain_all [OF ds] nd by (auto simp: same_dir_def same_cluster_def)
  moreover have "file_chain f1 d [d] ds"
    using f1 g(3) v(1) same_geoD(11) [OF g(2)] nd by (simp add: file_chain_def)
  ultimately show ?thesis by (rule that)
qed

lemma written_dir:
  assumes wf: "fat_wf f" and ds: "fchain f c ds" and cs: "file_chain f d cs ds" and w: "written f d cs bs f'"
  shows "same_dir f f' ds"
proof -
  have "valid f x \<and> \<not> mine f cs x" if "x \<in> set ds" for x
    using that fchain_nonzero [OF wf ds that] fchain_all [OF ds that] cs by (auto simp: mine_def file_chain_def)
  then show ?thesis using w unfolding same_dir_def written_def by blast
qed

text \<open>Writing a slot of the directory does not disturb the file.\<close>

lemma written_put_slot:
  assumes wf: "fat_wf f" and ds: "fchain f c ds" and cs: "file_chain f d cs ds" and w: "written f d cs bs f2"
    and m: "(sec, i) \<in> set (concat (map (slots f) ds))" and p: "put_slot sec i f2 f'"
  shows "read_chain (Suc (length bs)) d (length bs) f' = Some (int (length bs), bs)"
proof -
  have geo: "same_geo f f2" using w by (simp add: written_def)
  note g2 = same_geoD [OF geo]
  obtain x k where x: "x \<in> set ds" "(sec, i) \<in> set (slots f x)" using m by auto
  then obtain k where k: "k < spc f" "sec = csec f x k" using slots_sec by blast
  have vx: "valid f x" using fchain_all [OF ds x(1)] .
  have "same_cluster f2 f' y" if y: "mine f cs y" for y
  proof -
    have vy: "valid f y" "y \<noteq> x"
      using y x(1) fchain_nonzero [OF wf ds x(1)] cs by (auto simp: mine_def file_chain_def)
    have "fat_sector f2 y \<noteq> sec"
      using fat_not_data [of f2 x y k] wf vx vy(1) k g2 by simp
    then have "fat_read_entry f' y = fat_read_entry f2 y"
      using fat_read_same [of f2 f' y] p by (simp add: put_slot_def)
    moreover have "csec f y j \<noteq> sec" if "j < spc f" for j
      using csec_inj [OF wf vy(1) vx that k(1)] vy(2) k(2) by auto
    ultimately show ?thesis using p g2 by (simp add: same_cluster_def put_slot_def)
  qed
  then show ?thesis using w p unfolding written_def put_slot_def by blast
qed

lemma split_path_plain: "CHR ''/'' \<notin> set p \<Longrightarrow> split_path p = [p]"
  by (induction p) auto

lemma lookup_plain:
  assumes "CHR ''/'' \<notin> set name" "name \<noteq> []" "length name < 256"
  shows "lookup n name f = find_entry n (current_dir_cluster f) name f"
proof -
  have "hd name \<noteq> CHR ''/''" using assms(1,2) by (cases name) auto
  then have "fat32_walk n name 256 f = Some (name, f)"
    using assms split_path_plain [OF assms(1)] by (simp add: fat32_walk_def Let_def)
  then show ?thesis using assms(2) by (simp add: lookup_def)
qed

lemma write_then_read:
  assumes wf: "fat_wf f" and dir: "fchain f (current_dir_cluster f) ds" "length ds < n"
    and name: "CHR ''/'' \<notin> set name" "name \<noteq> []" "length name < 256"
    and e: "find_entry n (current_dir_cluster f) name f = Some (Some e)" "de_name e = name_to_83 name"
      "de_cluster e \<noteq> 0 \<Longrightarrow> file_chain f (de_cluster e) cs ds"
    and bs: "length bs < 2 ^ 31"
    and w: "fat32_write_file n name bs f = Some (r, f')" "0 \<le> r"
  shows "r = int (length bs) \<and>
    (\<forall>len. length bs \<le> len \<longrightarrow> fat32_read_file n name len f' = Some (int (length bs), bs)) \<and>
    (\<exists>e'. fat32_stat n name f' = Some (Some e') \<and> de_size e' = of_nat (length bs))"
proof -
  let ?c = "current_dir_cluster f"
  obtain d f1 where d: "first_cluster_for e f = (Some d, f1)"
    using w e(1) by (auto simp: fat32_write_file_def split: prod.splits option.splits)
  obtain cs' where s1: "same_dir f f1 ds" "file_chain f1 d cs' ds" using first_cluster_ok [OF wf dir(1) e(3) d] by blast
  have g1: "same_geo f f1" "fat_wf f1" using s1(1) same_geoD(10) wf by (auto simp: same_dir_def)
  have ds1: "fchain f1 ?c ds" by (rule same_dir_fchain [OF dir(1) s1(1)])
  obtain r2 f2 where w2: "write_chain (Suc (length bs)) d bs f1 = Some (r2, f2)" "0 \<le> r2"
    using w e(1) d unfolding fat32_write_file_def by (auto split: prod.splits option.splits if_splits)
  have wr: "r2 = int (length bs)" "written f1 d cs' bs f2"
    using write_chain_correct [OF g1(2) _ _ w2] s1(2) by (auto simp: file_chain_def)
  have s2: "same_dir f f2 ds" using same_dir_trans [OF s1(1) written_dir [OF g1(2) ds1 s1(2) wr(2)]] .
  have g2: "same_geo f f2" "fat_wf f2" using s2 same_geoD(10) wf by (auto simp: same_dir_def)
  have ds2: "fchain f2 ?c ds" by (rule same_dir_fchain [OF dir(1) s2])
  have e2: "find_entry n ?c name f2 = Some (Some e)" using same_dir_find(1) [OF wf dir s2] e(1) by simp
  obtain ps sec i qs st where p: "concat (map (slots f2) ds) = ps @ (sec, i) # qs" "e = entry_of (disk f2 sec) i"
    "scan_list (\<lambda>(s, j). find_step name s (disk f2 s) j) ps \<lparr>lfn_buf = \<lambda>_. 0, lfn_len = 0, expect_seq = 0\<rparr> = Next st"
    "named_slot (name_to_83 name) (disk f2 sec) i = Take" "slot_first (disk f2 sec) i \<noteq> 0" "\<not> sint sec < 0"
    "\<And>s j. (s, j) \<in> set ps \<Longrightarrow> named_slot (name_to_83 name) (disk f2 s) j = Pass"
    using find_entry_slot [OF g2(2) ds2 dir(2) e2 e(2)] by blast
  have loc: "locate n (named_slot (name_to_83 name)) ?c f2 = Some (At sec (disk f2 sec) i)"
    by (rule find_then_locate [OF g2(2) ds2 dir(2) p(1)]) (use p(4,7) in auto)
  let ?f = "f2\<lparr>disk := (disk f2)(sec := set_file i d (of_int r2) (disk f2 sec))\<rparr>"
  have res: "r = r2" "f' = ?f"
    using w e(1) d w2 loc g2 same_geoD(7) [OF g2(1)]
    by (auto simp: fat32_write_file_def ata_write_sector_def set_file_def fat_wf_def)
  have fnd: "find_entry n ?c name f' = Some (Some (entry_of (set_file i d (of_int r2) (disk f2 sec)) i))"
    by (rule find_after_set_file [OF g2(2) ds2 dir(2) p(1,3-6) res(2)])
  have rd: "read_chain (Suc (length bs)) d (length bs) f' = Some (int (length bs), bs)"
  proof (rule written_put_slot [OF g1(2) ds1 s1(2) wr(2)])
    show "(sec, i) \<in> set (concat (map (slots f1) ds))"
      using p(1) same_geo_slots [OF g2(1)] same_geo_slots [OF g1(1)] by (metis in_set_conv_decomp)
    show "put_slot sec i f2 f'" unfolding res(2) by (rule set_file_put_slot)
  qed
  have "d \<noteq> 0" using s1(2) fchain_hd [of f1 d cs'] by (auto simp: file_chain_def valid_def)
  moreover have "unat (of_int r2 :: u32) = length bs" using wr(1) bs by (simp add: unat_of_nat)
  moreover have "current_dir_cluster f' = ?c" using res(2) same_geoD(7) [OF g2(1)] by simp
  ultimately show ?thesis
    using res(1) wr(1) fnd rd set_file_entry lookup_plain [OF name, of n f']
    by (simp add: fat32_read_file_def fat32_stat_def)
qed

end
