(* ===== verification/Fat32Facts.thy ===== *)
theory Fat32Facts
  imports Fat32File
begin

text \<open>
  A small volume to run the driver on, and the lemmas behind the properties of the driver.
  \<open>demo_volume\<close> has six one-sector clusters; its cluster 2 is an empty root directory and its cluster 3 a
  file of one cluster. \<open>demo_files\<close> has an entry for that file.
\<close>

section \<open>A volume\<close>

definition demo_fat :: sector where
  "demo_fat = put32 12 0x0FFFFFFF (put32 8 0x0FFFFFFF (\<lambda>_. 0))"

definition demo_volume :: fat_fs where
  "demo_volume =
    \<lparr>disk = (\<lambda>_ _. 0)(1 := demo_fat), rd_fails = \<lambda>_. False, wr_fails = \<lambda>_. False, total_sectors_32 = 8,
     root_cluster = 2, first_data_sector = 2, sectors_per_cluster = 1, current_dir_cluster = 2,
     fat_start_sector = 1\<rparr>"

lemma demo_clusters: "total_clusters demo_volume = 6"
  by (simp add: demo_volume_def total_clusters_def)

lemma demo_wf: "fat_wf demo_volume" "low_volume demo_volume"
  unfolding fat_wf_def low_volume_def demo_clusters by (simp_all add: demo_volume_def)

lemma demo_entry: "fat_read_entry demo_volume 2 = 0x0FFFFFFF" "fat_read_entry demo_volume 3 = 0x0FFFFFFF"
  "fat_read_entry demo_volume 4 = 0"
  by (code_simp, code_simp, code_simp)

lemma demo_chain: "fchain demo_volume 2 [2]" "fchain demo_volume 3 [3]"
  by (simp_all add: valid_def demo_clusters demo_entry)

text \<open>The same volume with the entry of the file \<^verbatim>\<open>A\<close> in the root directory.\<close>

definition demo_files :: fat_fs where
  "demo_files = demo_volume\<lparr>disk := (disk demo_volume)(2 := set_file 0 3 1 (new_entry (name_to_83 ''A'') 0x20 0 (\<lambda>_. 0)))\<rparr>"

lemma demo_files_wf: "same_geo demo_volume demo_files" "fat_wf demo_files"
  using demo_wf same_geoD(10) [of demo_volume demo_files] by (auto simp: demo_files_def same_geo_def)

lemma demo_files_chain: "fchain demo_files 2 [2]" "file_chain demo_files 3 [3] [2]"
proof -
  have "fat_read_entry demo_files x = fat_read_entry demo_volume x" if "fat_sector demo_volume x \<noteq> 2" for x
    by (rule fat_read_same [OF demo_files_wf(1)]) (use that in \<open>simp add: demo_files_def\<close>)
  then have "fat_read_entry demo_files 2 = 0x0FFFFFFF" "fat_read_entry demo_files 3 = 0x0FFFFFFF"
    using demo_entry by (auto simp: demo_volume_def)
  then show "fchain demo_files 2 [2]" "file_chain demo_files 3 [3] [2]"
    using same_geoD(11) [OF demo_files_wf(1)] by (simp_all add: file_chain_def valid_def demo_clusters)
qed

lemma demo_find:
  "map_option (map_option de_name) (find_entry 2 2 ''A'' demo_files) = Some (Some (name_to_83 ''A''))"
  "map_option (map_option de_cluster) (find_entry 2 2 ''A'' demo_files) = Some (Some 3)"
  by (code_simp, code_simp)

lemma demo_write: "map_option fst (fat32_write_file 2 ''A'' (replicate 600 7) demo_files) = Some 600"
  by code_simp

section \<open>Lemmas\<close>

lemma map_option_Some_fst: "map_option fst x = Some r \<Longrightarrow> \<exists>y. x = Some (r, y)"
  by (cases x) auto

text \<open>A deletion writes one sector of the directory.\<close>

lemma delete_keeps:
  assumes wf: "fat_wf f" and ch: "fchain f c ds" "length ds < n" and d: "delete_entry_at n c name f = Some (r, f')"
    and x: "valid f x"
  shows "same_geo f f'" "fat_read_entry f' x = fat_read_entry f x" "x \<notin> set ds \<Longrightarrow> same_cluster f f' x"
proof -
  let ?v = "delete_slot (name_to_83 name)"
  have "f' = f \<or> (\<exists>sec b i. locate n ?v c f = Some (At sec b i) \<and>
      f' = f\<lparr>disk := (disk f)(sec := b(32 * i := 0xE5))\<rparr>)"
    using d by (auto simp: delete_entry_at_def ata_write_sector_def split: option.splits location.splits if_splits)
  moreover have "same_geo f f' \<and> fat_read_entry f' x = fat_read_entry f x \<and> (x \<notin> set ds \<longrightarrow> same_cluster f f' x)"
    if l: "locate n ?v c f = Some (At sec b i)" and f': "f' = f\<lparr>disk := (disk f)(sec := b(32 * i := 0xE5))\<rparr>"
    for sec b i
  proof -
    obtain ps qs where "concat (map (slots f) ds) = ps @ (sec, i) # qs" using locate_slots [OF wf ch l] by blast
    then have "(sec, i) \<in> set (concat (map (slots f) ds))" by simp
    then obtain y where y: "y \<in> set ds" "(sec, i) \<in> set (slots f y)" by auto
    then obtain k where k: "k < spc f" "sec = csec f y k" using slots_sec by blast
    have vy: "valid f y" using fchain_all [OF ch(1) y(1)] .
    have geo: "same_geo f f'" using f' by (simp add: same_geo_def)
    have fat: "fat_read_entry f' x = fat_read_entry f x"
      by (rule fat_read_same [OF geo]) (use fat_not_data [OF wf vy x k(1)] f' k(2) in simp)
    have "csec f x j \<noteq> sec" if "x \<notin> set ds" "j < spc f" for j
      using csec_inj [OF wf x vy that(2) k(1)] that(1) y(1) k(2) by auto
    then show ?thesis using geo fat f' by (simp add: same_cluster_def)
  qed
  ultimately have "same_geo f f' \<and> fat_read_entry f' x = fat_read_entry f x \<and> (x \<notin> set ds \<longrightarrow> same_cluster f f' x)"
    by (auto simp: same_geo_def same_cluster_def)
  then show "same_geo f f'" "fat_read_entry f' x = fat_read_entry f x" "x \<notin> set ds \<Longrightarrow> same_cluster f f' x"
    by auto
qed

lemma scan_locate_all:
  "(scan_list (\<lambda>(s, j). locate_step v s (d s) j) xs () = Next ()) =
    list_all (\<lambda>(s, i). v (d s) i = Pass) xs"
  by (induction xs) (auto simp: locate_step_def split: verdict.splits)

lemma scan_locate_found:
  "(\<And>b i. v b i \<noteq> Halt) \<Longrightarrow> scan_list (\<lambda>(s, j). locate_step v s (d s) j) xs () \<noteq> Return Missing"
  by (induction xs) (auto simp: locate_step_def split: verdict.splits)

lemma locate_missing:
  assumes "fat_wf f" "fchain f c ds" "length ds < n" "\<And>b i. v b i \<noteq> Halt"
  shows "locate n v c f = Some Missing \<longleftrightarrow>
    list_all (\<lambda>(s, i). v (disk f s) i = Pass) (concat (map (slots f) ds))"
proof -
  define xs where "xs = concat (map (slots f) ds)"
  define r where "r = scan_list (\<lambda>(s, j). locate_step v s (disk f s) j) xs ()"
  have "locate n v c f = Some (case r of Return l \<Rightarrow> l | Next _ \<Rightarrow> Missing)"
    unfolding locate_def scan_dir_slots [OF assms(1-3)] xs_def [symmetric] r_def [symmetric]
    by (simp split: outcome.splits)
  then show ?thesis
    using scan_locate_all [of v "disk f" xs] scan_locate_found [of v "disk f" xs] assms(4)
    unfolding xs_def [symmetric] r_def [symmetric] by (cases r) auto
qed

text \<open>A slot that a search for \<open>name\<close> passes by: it is not the end mark, and it is deleted or a short entry
  with another name.\<close>

definition passed_by :: "string \<Rightarrow> sector \<Rightarrow> nat \<Rightarrow> bool" where
  "passed_by name b i \<longleftrightarrow> slot_first b i \<noteq> 0 \<and>
    (slot_first b i = 0xE5 \<or> slot_attr b i \<noteq> 0x0F \<and> slot_name b i \<noteq> name_to_83 name)"

lemma scan_passed_by:
  assumes "\<And>s i. (s, i) \<in> set xs \<Longrightarrow> passed_by name (d s) i" "lfn_len st = 0"
  shows "\<exists>st'. scan_list (\<lambda>(s, i). find_step name s (d s) i) xs st = Next st' \<and> lfn_len st' = 0"
  using assms
proof (induction xs arbitrary: st)
  case (Cons x xs)
  obtain s i where x: "x = (s, i)" by fastforce
  then have "passed_by name (d s) i" using Cons.prems by auto
  then have "find_step name s (d s) i st = Next (st\<lparr>lfn_len := 0\<rparr>)"
    using Cons.prems(2) unfolding find_step_def passed_by_def by auto
  then show ?case using Cons x by simp
qed simp

lemma scan_loop:
  assumes "fat_wf f" "c \<in> set cs" "lfn_len st = 0"
    and "\<And>x. x \<in> set cs \<Longrightarrow> in_chain x \<and> fat_read_entry f x \<in> set cs"
    and "\<And>x s i. x \<in> set cs \<Longrightarrow> (s, i) \<in> set (slots f x) \<Longrightarrow> passed_by name (disk f s) i"
  shows "scan_dir n (find_step name) io c f st = None"
  using assms(2,3)
proof (induction n arbitrary: c st)
  case (Suc n)
  obtain st' where "scan_list (\<lambda>(s, i). find_step name s (disk f s) i) (slots f c) st = Next st'" "lfn_len st' = 0"
    using scan_passed_by [of "slots f c" name "disk f" st] assms(5) Suc.prems by blast
  then show ?case using assms(4) [OF Suc.prems(1)] Suc.IH by (simp add: scan_cluster_slots [OF assms(1)])
qed simp

text \<open>With clusters of no bytes a round moves nothing, and a chain that returns to its start is not left.\<close>

lemma read_chain_no_bytes:
  assumes "sectors_per_cluster f * 512 = 0" "in_chain c" "fat_read_entry f c = c" "0 < n"
  shows "read_chain k c n f = None"
  using assms by (induction k) (simp_all add: get_bytes_def)

end
