(* ===== verification/Fat32Props.thy ===== *)
theory Fat32Props
  imports Fat32Facts
begin

text \<open>
  Properties of the FAT32 driver: what is written to a file is read back and the clusters of other files
  are not touched, the loops over a file's data end on every disk, a created entry is found, deleting an
  entry gives no cluster back, and a directory whose chain loops is never left.
\<close>

section \<open>Properties\<close>



text \<open>C14: writing a file does not touch others. When \<^verbatim>\<open>write_chain\<close> succeeds on the chain of a file, every
  allocated cluster outside that chain keeps its table entry and its contents.\<close>

theorem write_chain_frame:
  assumes "fat_wf f" "fchain f c cs" "distinct cs" "write_chain k c bs f = Some (r, f')" "0 \<le> r"
    and "valid f x" "x \<notin> set cs" "fat_read_entry f x \<noteq> 0"
  shows "fat_read_entry f' x = fat_read_entry f x \<and> (\<forall>i < spc f. disk f' (csec f x i) = disk f (csec f x i))"
proof -
  have "written f c cs bs f'" using write_chain_correct [OF assms(1-5)] by blast
  then have "same_cluster f f' x" using assms(6-8) unfolding written_def mine_def by blast
  then show ?thesis by (simp add: same_cluster_def)
qed

theorem write_chain_frame_witness:
  "\<exists>f'. write_chain 3 3 [7, 8] demo_volume = Some (2, f') \<and> fat_read_entry f' 2 = 0x0FFFFFFF"
proof -
  have w: "map_option fst (write_chain 3 3 [7, 8] demo_volume) = Some 2" by code_simp
  obtain f' where f': "write_chain 3 3 [7, 8] demo_volume = Some (2, f')"
    using map_option_Some_fst [OF w] by blast
  have "valid demo_volume 2" "fat_read_entry demo_volume 2 \<noteq> 0" by (simp_all add: valid_def demo_clusters demo_entry)
  then have "fat_read_entry f' 2 = fat_read_entry demo_volume 2"
    using write_chain_frame [OF demo_wf(1) demo_chain(2) _ f', of 2] by fastforce
  then show ?thesis using f' demo_entry(1) by metis
qed

text \<open>C19: on a volume whose cluster size in bytes is not zero, the loops over the data of a file end on every
  disk, also when the chain of the file is circular, since every round moves at least one byte:
  \<^verbatim>\<open>read_chain\<close> and \<^verbatim>\<open>write_chain\<close> return after at most as many rounds as there are bytes.\<close>

theorem chains_end:
  assumes "sectors_per_cluster f * 512 \<noteq> 0"
  shows "(\<exists>r. read_chain (Suc n) c n f = Some r) \<and> (\<exists>r. write_chain (Suc (length bs)) c bs f = Some r)"
  using read_chain_ends [OF assms, of n "Suc n"] write_chain_ends [OF assms, of bs "Suc (length bs)"] by simp

theorem chains_end_witness: "\<exists>r. read_chain (Suc 600) 3 600 demo_volume = Some r"
  using chains_end [of demo_volume 600 3 "[]"] by (simp add: demo_volume_def)

text \<open>The condition is needed: \<^verbatim>\<open>fat32_init\<close> takes a boot sector with no sectors per cluster, and then a read
  of a file whose chain returns to its start makes no progress and does not end.\<close>

theorem no_cluster_size_loops:
  assumes "sectors_per_cluster f * 512 = 0" "in_chain c" "fat_read_entry f c = c" "0 < n"
  shows "\<not> (\<exists>k r. read_chain k c n f = Some r)"
  using read_chain_no_bytes [OF assms] by simp

text \<open>C18: a created entry is found. On a working volume whose sectors have numbers below \<open>2 ^ 31\<close>, for a
  directory whose chain ends and a name that is not in it yet, whose short form does not start with the
  byte of an end mark or of a deleted entry, and an attribute other than that of a long-name entry: when
  \<^verbatim>\<open>create_entry_at\<close> succeeds, the next \<^verbatim>\<open>find_entry\<close> finds an entry with that name and attribute, of size 0 and
  without clusters. The code itself does not look whether the name is in the directory.\<close>

theorem create_entry_found:
  assumes "fat_wf f" "low_volume f" "fchain f c ds" "length ds < n"
    and "name_to_83 name ! 0 \<noteq> 0" "name_to_83 name ! 0 \<noteq> 0xE5" "attr \<noteq> 0x0F"
    and "find_entry n c name f = Some None" "create_entry_at n c name attr f = Some (0, f')"
  shows "\<exists>e. find_entry n c name f' = Some (Some e) \<and> de_name e = name_to_83 name \<and>
    de_attr e = attr \<and> de_size e = 0 \<and> de_cluster e = 0"
  by (rule create_find [OF assms])

theorem create_entry_found_witness:
  "\<exists>f' e. create_entry_at 2 2 ''B'' 0x20 demo_files = Some (0, f') \<and> find_entry 2 2 ''B'' f' = Some (Some e)"
proof -
  have w: "map_option fst (create_entry_at 2 2 ''B'' 0x20 demo_files) = Some 0" by code_simp
  obtain f' where f': "create_entry_at 2 2 ''B'' 0x20 demo_files = Some (0, f')"
    using map_option_Some_fst [OF w] by blast
  have "low_volume demo_files"
    using demo_wf(2) same_geoD [OF demo_files_wf(1)] by (simp add: low_volume_def)
  moreover have "name_to_83 ''B'' ! 0 = 0x42" by code_simp
  moreover have "map_option (map_option de_name) (find_entry 2 2 ''B'' demo_files) = Some None" by code_simp
  ultimately show ?thesis
    using create_entry_found [OF demo_files_wf(2) _ demo_files_chain(1), of 2 "''B''" "0x20" f'] f'
    by (auto simp: map_option_case split: option.splits)
qed

text \<open>A directory does not grow. Creating an entry fails with \<^verbatim>\<open>FAT_ERR_NOSPACE\<close> exactly when no slot of
  the directory's clusters is free, however many clusters of the volume are; the disk is then unchanged.\<close>

theorem create_full_directory:
  assumes "fat_wf f" "fchain f c ds" "length ds < n"
  shows "(map_option fst (create_entry_at n c name attr f) = Some FAT_ERR_NOSPACE) =
      list_all (\<lambda>(s, i). free_slot (disk f s) i = Pass) (concat (map (slots f) ds)) \<and>
    (map_option fst (create_entry_at n c name attr f) = Some FAT_ERR_NOSPACE \<longrightarrow>
      create_entry_at n c name attr f = Some (FAT_ERR_NOSPACE, f))"
proof -
  have m: "locate n free_slot c f = Some Missing \<longleftrightarrow>
      list_all (\<lambda>(s, i). free_slot (disk f s) i = Pass) (concat (map (slots f) ds))"
    by (rule locate_missing [OF assms]) (simp add: free_slot_def)
  have "map_option fst (create_entry_at n c name attr f) = Some FAT_ERR_NOSPACE \<longleftrightarrow>
      locate n free_slot c f = Some Missing"
    by (auto simp: create_entry_at_def ata_write_sector_def split: option.splits location.splits)
  then show ?thesis unfolding m [symmetric] by (auto simp: create_entry_at_def)
qed

theorem create_full_directory_witness:
  "\<exists>r. r \<noteq> FAT_ERR_NOSPACE \<and> map_option fst (create_entry_at 2 2 ''B'' 0x20 demo_files) = Some r"
proof -
  have f: "\<not> list_all (\<lambda>(s, i). free_slot (disk demo_files s) i = Pass) (concat (map (slots demo_files) [2]))"
    by code_simp
  have "map_option fst (create_entry_at 2 2 ''B'' 0x20 demo_files) = Some 0" by code_simp
  then show ?thesis
    using create_full_directory [OF demo_files_wf(2) demo_files_chain(1), of 2 "''B''" "0x20"] f by auto
qed

text \<open>C22: deleting a file leaks its clusters. \<^verbatim>\<open>delete_entry_at\<close>, whatever it returns, leaves every entry of the
  allocation table as it is: the clusters of the file stay marked as used, although nothing refers to
  them. The contents of clusters outside the directory are unchanged too.\<close>

theorem delete_leaks_clusters:
  assumes "fat_wf f" "fchain f c ds" "length ds < n" "delete_entry_at n c name f = Some (r, f')" "valid f x"
  shows "fat_read_entry f' x = fat_read_entry f x \<and>
    (x \<notin> set ds \<longrightarrow> (\<forall>i < spc f. disk f' (csec f x i) = disk f (csec f x i)))"
  using delete_keeps [OF assms] by (simp add: same_cluster_def)

theorem delete_leaks_clusters_witness:
  "\<exists>f'. delete_entry_at 2 2 ''A'' demo_files = Some (0, f') \<and> find_entry 2 2 ''A'' f' = Some None \<and>
    fat_read_entry f' 3 = fat_read_entry demo_files 3"
proof -
  have d: "map_option (\<lambda>(r, f). (r, map_option (map_option de_name) (find_entry 2 2 ''A'' f)))
      (delete_entry_at 2 2 ''A'' demo_files) = Some (0, Some None)"
    by code_simp
  then obtain f' where f': "delete_entry_at 2 2 ''A'' demo_files = Some (0, f')"
      "map_option (map_option de_name) (find_entry 2 2 ''A'' f') = Some None"
    by auto
  have "valid demo_files 3" using same_geoD(11) [OF demo_files_wf(1)] by (simp add: valid_def demo_clusters)
  then show ?thesis
    using delete_leaks_clusters [OF demo_files_wf(2) demo_files_chain(1) _ f'(1), of 3] f' by auto
qed

text \<open>C23: a circular directory is never left. Let the chain of a directory stay among the clusters \<open>cs\<close>, the
  successor of each being one of them again, so that it runs into a circle, of whatever length. If no
  slot of these clusters is an end mark, a long-name entry or an entry of the name that is looked for,
  \<^verbatim>\<open>find_entry\<close> does not return from any of them, however many clusters it visits: nothing bounds the walk
  by the number of clusters of the volume.\<close>

theorem circular_directory_search:
  assumes "fat_wf f" "c \<in> set cs"
    and "list_all (\<lambda>x. in_chain x \<and> fat_read_entry f x \<in> set cs \<and>
      list_all (\<lambda>(s, i). passed_by name (disk f s) i) (slots f x)) cs"
  shows "find_entry n c name f = None"
proof -
  have "in_chain x \<and> fat_read_entry f x \<in> set cs" if "x \<in> set cs" for x using that assms(3) by (simp add: list_all_iff)
  moreover have "passed_by name (disk f s) i" if "x \<in> set cs" "(s, i) \<in> set (slots f x)" for x s i
    using that assms(3) by (fastforce simp: list_all_iff)
  ultimately show ?thesis unfolding find_entry_def using scan_loop [OF assms(1,2)] by simp
qed

text \<open>Clusters 4 and 5 follow each other; every slot is in use, by names of the letter X.\<close>

definition demo_loop :: fat_fs where
  "demo_loop = demo_volume\<lparr>disk := (\<lambda>_ _. 0x58)(1 := put32 20 4 (put32 16 5 demo_fat))\<rparr>"

theorem circular_directory_search_witness: "find_entry 1000 4 ''A'' demo_loop = None"
proof -
  have "fat_wf demo_loop"
    using demo_wf(1) same_geoD(10) [of demo_volume demo_loop] by (simp add: demo_loop_def same_geo_def)
  moreover have "list_all (\<lambda>x. in_chain x \<and> fat_read_entry demo_loop x \<in> set [4, 5] \<and>
      list_all (\<lambda>(s, i). passed_by ''A'' (disk demo_loop s) i) (slots demo_loop x)) [4, 5]" by code_simp
  ultimately show ?thesis using circular_directory_search [of demo_loop 4 "[4, 5]" "''A''" 1000] by simp
qed

end
