(* ===== verification/Vfs.thy ===== *)
theory Vfs
  imports Fat32Ops
begin

text \<open>
  The layer between the system calls and the file systems, \<^verbatim>\<open>OvsbMk/fs/vfs.c\<close>. The ext2 driver is written
  in Zig; its entry points are the fields of \<open>ext2_api\<close>, over a state of any type \<open>'e\<close>. An operation on
  the FAT32 volume takes the number of clusters a directory walk may visit, as in \<open>Fat32Ops\<close>.
\<close>

section \<open>State\<close>

record 'e ext2_api =
  ext2new_mount :: "'e \<Rightarrow> int \<times> 'e"
  ext2new_stat :: "string \<Rightarrow> 'e \<Rightarrow> (u32 \<times> bool) option"
  ext2new_read_at :: "string \<Rightarrow> nat \<Rightarrow> u32 \<Rightarrow> 'e \<Rightarrow> int \<times> u8 list"
  ext2_create_file :: "string \<Rightarrow> 'e \<Rightarrow> int \<times> 'e"
  ext2_write_at :: "string \<Rightarrow> u8 list \<Rightarrow> u32 \<Rightarrow> 'e \<Rightarrow> int \<times> 'e"

record 'e vfs =
  fat :: fat_fs
  ext :: 'e
  g_vfs_backend :: int

definition on_fat :: "(fat_fs \<Rightarrow> (int \<times> fat_fs) option) \<Rightarrow> 'e vfs \<Rightarrow> (int \<times> 'e vfs) option" where
  "on_fat h v = map_option (\<lambda>(r, f). (r, v\<lparr>fat := f\<rparr>)) (h (fat v))"

definition on_ext :: "('e \<Rightarrow> int \<times> 'e) \<Rightarrow> 'e vfs \<Rightarrow> (int \<times> 'e vfs) option" where
  "on_ext h v = (case h (ext v) of (r, e) \<Rightarrow> Some (r, v\<lparr>ext := e\<rparr>))"

section \<open>Paths\<close>

abbreviation VFS_MAX_PATH :: nat where "VFS_MAX_PATH \<equiv> 512"

text \<open>The text that is normalised: an absolute path itself, a relative one after the directory.\<close>

definition abs_base :: "string \<Rightarrow> string \<Rightarrow> string" where
  "abs_base cwd path =
    (if hd path = CHR ''/'' then take (VFS_MAX_PATH - 1) path
     else
       let b = take (VFS_MAX_PATH - 1) cwd;
           b = (if b \<noteq> [] \<and> last b \<noteq> CHR ''/'' then b @ ''/'' else b)
       in b @ take (VFS_MAX_PATH - 1 - length b) path)"

text \<open>One component on the stack \<^verbatim>\<open>comps[0..n-1]\<close>: names are cut to 63 characters, a name beyond the
  32nd is dropped.\<close>

definition push_comp :: "string list \<Rightarrow> string \<Rightarrow> string list" where
  "push_comp comps w =
    (let cur = take 63 w in
     if cur = [] \<or> cur = ''.'' then comps
     else if cur = ''..'' then butlast comps
     else if length comps < 32 then comps @ [cur] else comps)"

fun join_path :: "string list \<Rightarrow> string" where
  "join_path [] = []"
| "join_path [w] = w"
| "join_path (w # ws) = w @ ''/'' @ join_path ws"

definition render :: "nat \<Rightarrow> string list \<Rightarrow> string" where
  "render outlen comps =
    (let out = take (max 1 (outlen - 2)) (CHR ''/'' # join_path comps)
     in if length out = 1 then ''//'' else out)"

definition vfs_abs_path :: "string option \<Rightarrow> string \<Rightarrow> nat \<Rightarrow> string option" where
  "vfs_abs_path cwd path outlen =
    (if path = [] then None
     else Some (render outlen (foldl push_comp []
       (split_path (abs_base (case cwd of None \<Rightarrow> ''/'' | Some c \<Rightarrow> c) path)))))"

section \<open>Dispatch\<close>

definition vfs_mount :: "'e ext2_api \<Rightarrow> 'e vfs \<Rightarrow> int \<times> 'e vfs" where
  "vfs_mount api v =
    (case ext2new_mount api (ext v) of (r, e) \<Rightarrow>
       let b = (if r = 0 then 0 else 1) in (b, v\<lparr>ext := e, g_vfs_backend := b\<rparr>))"

definition vfs_read_at :: "'e ext2_api \<Rightarrow> nat \<Rightarrow> string \<Rightarrow> nat \<Rightarrow> u32 \<Rightarrow> 'e vfs \<Rightarrow> (int \<times> u8 list) option" where
  "vfs_read_at api n apath count offset v =
    (if g_vfs_backend v = 0 then Some (ext2new_read_at api apath count offset (ext v))
     else fat32_read_file n apath count (fat v))"

definition vfs_read_file :: "'e ext2_api \<Rightarrow> nat \<Rightarrow> string \<Rightarrow> nat \<Rightarrow> 'e vfs \<Rightarrow> (int \<times> u8 list) option" where
  "vfs_read_file api n apath count v = vfs_read_at api n apath count 0 v"

text \<open>Size and attribute; the inner \<open>None\<close> is the failure of the call.\<close>

definition vfs_stat_size_attr :: "'e ext2_api \<Rightarrow> nat \<Rightarrow> string \<Rightarrow> 'e vfs \<Rightarrow> (u32 \<times> u8) option option" where
  "vfs_stat_size_attr api n apath v =
    (if g_vfs_backend v = 0 then
       Some (map_option (\<lambda>(sz, is_dir). (sz, if is_dir then 0x10 else 0x20)) (ext2new_stat api apath (ext v)))
     else map_option (map_option (\<lambda>e. (de_size e, de_attr e))) (fat32_stat n apath (fat v)))"

definition vfs_write_at ::
    "'e ext2_api \<Rightarrow> nat \<Rightarrow> string \<Rightarrow> u8 list \<Rightarrow> u32 \<Rightarrow> 'e vfs \<Rightarrow> (int \<times> 'e vfs) option" where
  "vfs_write_at api n apath bs offset v =
    (if g_vfs_backend v = 0 then on_ext (ext2_write_at api apath bs offset) v
     else case (if offset \<noteq> 0 then on_fat (fat32_create_file n apath) v else Some (0, v)) of
       None \<Rightarrow> None
     | Some (_, v) \<Rightarrow> on_fat (fat32_write_file n apath bs) v)"

definition vfs_create_file :: "'e ext2_api \<Rightarrow> nat \<Rightarrow> string \<Rightarrow> 'e vfs \<Rightarrow> (int \<times> 'e vfs) option" where
  "vfs_create_file api n apath v =
    (if g_vfs_backend v = 0 then on_ext (ext2_create_file api apath) v
     else on_fat (fat32_create_file n apath) v)"

definition vfs_unlink :: "nat \<Rightarrow> string \<Rightarrow> 'e vfs \<Rightarrow> (int \<times> 'e vfs) option" where
  "vfs_unlink n apath v =
    (if g_vfs_backend v = 0 then Some (-1, v) else on_fat (fat32_delete_file n apath) v)"

definition vfs_mkdir :: "nat \<Rightarrow> string \<Rightarrow> 'e vfs \<Rightarrow> (int \<times> 'e vfs) option" where
  "vfs_mkdir n apath v =
    (if g_vfs_backend v = 0 then Some (-1, v) else on_fat (fat32_mkdir n apath) v)"

definition vfs_chdir_isdir :: "'e ext2_api \<Rightarrow> nat \<Rightarrow> string \<Rightarrow> 'e vfs \<Rightarrow> bool option" where
  "vfs_chdir_isdir api n apath v =
    map_option (\<lambda>st. case st of
        None \<Rightarrow> False
      | Some (_, attr) \<Rightarrow> g_vfs_backend v = 0 \<or> attr AND 0x10 \<noteq> 0)
      (vfs_stat_size_attr api n apath v)"

end
