(* ===== verification/VfsProps.thy ===== *)
theory VfsProps
  imports Vfs Fat32Facts
begin

text \<open>
  Properties of path resolution and of the dispatch to the file systems.
\<close>

section \<open>Canonical component lists\<close>

definition comp_ok :: "string \<Rightarrow> bool" where
  "comp_ok w \<longleftrightarrow> w \<noteq> [] \<and> w \<noteq> ''.'' \<and> w \<noteq> ''..'' \<and> length w \<le> 63 \<and> CHR ''/'' \<notin> set w"

definition canonical :: "string list \<Rightarrow> bool" where
  "canonical ws \<longleftrightarrow> length ws \<le> 32 \<and> list_all comp_ok ws"

lemma push_comp_cases:
  "push_comp ws w = ws \<or> push_comp ws w = butlast ws \<or>
    (\<exists>cur. cur = take 63 w \<and> cur \<noteq> [] \<and> cur \<noteq> ''.'' \<and> cur \<noteq> ''..'' \<and> length ws < 32 \<and> push_comp ws w = ws @ [cur])"
  unfolding push_comp_def Let_def by metis

lemma canonical_push:
  assumes "canonical ws" "CHR ''/'' \<notin> set w"
  shows "canonical (push_comp ws w)"
proof -
  have "canonical (ws @ [cur])"
    if "cur = take 63 w" "cur \<noteq> []" "cur \<noteq> ''.''" "cur \<noteq> ''..''" "length ws < 32" for cur
  proof -
    have "length cur \<le> 63" using that(1) by simp
    moreover have "CHR ''/'' \<notin> set cur" using assms(2) that(1) by (meson in_set_takeD)
    ultimately show ?thesis using assms(1) that(2-5) unfolding canonical_def by (simp add: comp_ok_def)
  qed
  moreover have "canonical (butlast ws)"
    using assms(1) by (auto simp: canonical_def list_all_iff dest: in_set_butlastD)
  ultimately show ?thesis using push_comp_cases [of ws w] assms(1) by metis
qed

lemma split_path_no_slash: "w \<in> set (split_path p) \<Longrightarrow> CHR ''/'' \<notin> set w"
proof (induction p arbitrary: w)
  case (Cons c p)
  have "split_path p \<noteq> []" by (cases p) auto
  then have "hd (split_path p) \<in> set (split_path p)" by simp
  then show ?case using Cons by (auto split: if_splits dest: list.set_sel(2) [OF \<open>split_path p \<noteq> []\<close>])
qed simp

lemma canonical_fold:
  "canonical acc \<Longrightarrow> list_all (\<lambda>w. CHR ''/'' \<notin> set w) ws \<Longrightarrow> canonical (foldl push_comp acc ws)"
  by (induction ws arbitrary: acc) (simp_all add: canonical_push)

lemma canonical_resolved: "canonical (foldl push_comp [] (split_path b))"
  by (rule canonical_fold) (simp_all add: canonical_def list_all_iff split_path_no_slash)

text \<open>Resolution does not lengthen a path.\<close>

definition weight :: "string list \<Rightarrow> nat" where
  "weight ws = sum_list (map (\<lambda>w. Suc (length w)) ws)"

lemma length_join: "length (join_path ws) = weight ws - 1"
  by (induction ws rule: join_path.induct) (auto simp: weight_def)

lemma weight_push: "weight (push_comp ws w) \<le> weight ws + Suc (length w)"
proof -
  have "weight (butlast ws) \<le> weight ws"
    by (cases ws rule: rev_cases) (auto simp: weight_def)
  then show ?thesis by (auto simp: push_comp_def Let_def weight_def)
qed

lemma weight_fold: "weight (foldl push_comp acc ws) \<le> weight acc + weight ws"
proof (induction ws arbitrary: acc)
  case (Cons w ws)
  have "weight (w # ws) = Suc (length w) + weight ws" by (simp add: weight_def)
  then show ?case using weight_push [of acc w] Cons.IH [of "push_comp acc w"] by simp
qed simp

lemma weight_split: "weight (split_path p) = Suc (length p)"
proof (induction p)
  case (Cons c p)
  have "split_path p \<noteq> []" by (cases p) auto
  then show ?case using Cons by (cases "split_path p") (auto simp: weight_def)
qed (simp add: weight_def)

lemma resolved_length: "length (join_path (foldl push_comp [] (split_path b))) \<le> length b"
proof -
  have "weight [] = 0" by (simp add: weight_def)
  then show ?thesis using weight_fold [of "[]" "split_path b"] by (simp add: length_join weight_split)
qed

section \<open>Reading back a rendered path\<close>

lemma split_path_append:
  "CHR ''/'' \<notin> set w \<Longrightarrow> split_path (w @ CHR ''/'' # p) = w # split_path p"
  by (induction w) auto

lemma split_path_word: "CHR ''/'' \<notin> set w \<Longrightarrow> split_path w = [w]"
  by (induction w) auto

lemma split_join:
  "ws \<noteq> [] \<Longrightarrow> list_all (\<lambda>w. CHR ''/'' \<notin> set w) ws \<Longrightarrow> split_path (join_path ws) = ws"
proof (induction ws rule: join_path.induct)
  case (3 w v vs)
  then show ?case using split_path_append [of w "join_path (v # vs)"] by simp
qed (auto simp: split_path_word)

lemma push_canonical:
  assumes "canonical (acc @ [w])"
  shows "push_comp acc w = acc @ [w]"
  using assms by (simp add: push_comp_def canonical_def comp_ok_def)

lemma canonical_prefix: "canonical (ws @ vs) \<Longrightarrow> canonical ws"
  by (auto simp: canonical_def)

lemma fold_canonical: "canonical (acc @ ws) \<Longrightarrow> foldl push_comp acc ws = acc @ ws"
proof (induction ws arbitrary: acc)
  case (Cons w ws)
  have "canonical (acc @ [w])" using canonical_prefix [of "acc @ [w]" ws] Cons.prems by simp
  then show ?case using Cons.IH [of "acc @ [w]"] Cons.prems by (simp add: push_canonical)
qed simp

lemma render_fits:
  assumes "Suc (length (join_path ws)) \<le> outlen - 2"
  shows "render outlen ws = (if join_path ws = [] then ''//'' else CHR ''/'' # join_path ws)"
  using assms by (auto simp: render_def Let_def)

lemma join_canonical_Nil: "canonical ws \<Longrightarrow> join_path ws = [] \<longleftrightarrow> ws = []"
  by (cases ws rule: join_path.cases) (simp_all add: canonical_def comp_ok_def)

lemma resolve_rendered:
  assumes "canonical ws" "ws \<noteq> []"
  shows "foldl push_comp [] (split_path (CHR ''/'' # join_path ws)) = ws"
proof -
  have "list_all (\<lambda>w. CHR ''/'' \<notin> set w) ws" using assms(1) by (auto simp: canonical_def list_all_iff comp_ok_def)
  then have "split_path (CHR ''/'' # join_path ws) = [] # ws" using split_join [OF assms(2)] by simp
  then show ?thesis using fold_canonical [of "[]" ws] assms(1) by (simp add: push_comp_def)
qed

section \<open>Resolution from the right\<close>





lemma fits_resolved:
  assumes "length b + 3 \<le> outlen"
  shows "render outlen (foldl push_comp [] (split_path b)) =
    (if foldl push_comp [] (split_path b) = [] then ''//'' else CHR ''/'' # join_path (foldl push_comp [] (split_path b)))"
proof -
  have "Suc (length (join_path (foldl push_comp [] (split_path b)))) \<le> outlen - 2"
    using resolved_length [of b] assms by simp
  then show ?thesis using render_fits join_canonical_Nil [OF canonical_resolved [of b]] by simp
qed

section \<open>Properties\<close>

text \<open>What \<^verbatim>\<open>vfs_abs_path\<close> produces. When the buffer is long enough for the path and its directory, the result
  is \<^verbatim>\<open>//\<close> for the root and otherwise a slash followed by at most 32 components joined by slashes, none of
  them empty, \<^verbatim>\<open>.\<close> or \<^verbatim>\<open>..\<close>, each of at most 63 characters without a slash.\<close>

theorem vfs_abs_path_form:
  assumes "vfs_abs_path cwd path outlen = Some r"
    and "length (abs_base (case cwd of None \<Rightarrow> ''/'' | Some c \<Rightarrow> c) path) + 3 \<le> outlen"
  shows "r = ''//'' \<or> (\<exists>ws. ws \<noteq> [] \<and> length ws \<le> 32 \<and> r = CHR ''/'' # join_path ws \<and>
    list_all (\<lambda>w. w \<noteq> [] \<and> w \<noteq> ''.'' \<and> w \<noteq> ''..'' \<and> length w \<le> 63 \<and> CHR ''/'' \<notin> set w) ws)"
proof -
  define b where "b = abs_base (case cwd of None \<Rightarrow> ''/'' | Some c \<Rightarrow> c) path"
  define ws where "ws = foldl push_comp [] (split_path b)"
  have "r = (if ws = [] then ''//'' else CHR ''/'' # join_path ws)"
    using assms fits_resolved [of b outlen] by (simp add: vfs_abs_path_def b_def ws_def split: if_splits)
  moreover have "canonical ws" unfolding ws_def by (rule canonical_resolved)
  ultimately show ?thesis by (cases "ws = []") (auto simp: canonical_def list_all_iff comp_ok_def)
qed

theorem vfs_abs_path_form_witness:
  "\<exists>r. vfs_abs_path (Some ''/usr/lib'') ''../bin//./sh'' 64 = Some r \<and> r \<noteq> ''//'' \<and>
    (\<exists>ws. ws \<noteq> [] \<and> r = CHR ''/'' # join_path ws)"
proof -
  have r: "vfs_abs_path (Some ''/usr/lib'') ''../bin//./sh'' 64 = Some ''/usr/bin/sh''" by code_simp
  show ?thesis
    using vfs_abs_path_form [OF r] r by (auto simp: abs_base_def Let_def)
qed

text \<open>Resolving a resolved path changes nothing: \<^verbatim>\<open>vfs_abs_path\<close> applied to its own result gives that result
  again, whatever the working directory is.\<close>

theorem vfs_abs_path_idempotent:
  assumes "vfs_abs_path cwd path outlen = Some r"
    and "length (abs_base (case cwd of None \<Rightarrow> ''/'' | Some c \<Rightarrow> c) path) + 3 \<le> outlen"
    and "outlen \<le> VFS_MAX_PATH"
  shows "vfs_abs_path cwd' r outlen = Some r"
proof -
  define b where "b = abs_base (case cwd of None \<Rightarrow> ''/'' | Some c \<Rightarrow> c) path"
  define ws where "ws = foldl push_comp [] (split_path b)"
  have bl: "length b + 3 \<le> outlen" using assms(2) by (simp add: b_def)
  have r: "r = (if ws = [] then ''//'' else CHR ''/'' # join_path ws)"
    using assms(1) fits_resolved [OF bl] by (simp add: vfs_abs_path_def b_def ws_def split: if_splits)
  have c: "canonical ws" unfolding ws_def by (rule canonical_resolved)
  have len: "length (join_path ws) \<le> length b" unfolding ws_def by (rule resolved_length)
  have base: "abs_base d r = r" for d
    using r len bl assms(3) by (auto simp: abs_base_def)
  have res: "foldl push_comp [] (split_path r) = ws"
    using r resolve_rendered [OF c] by (auto simp: push_comp_def)
  have "render outlen ws = r" using r fits_resolved [OF bl] by (simp add: ws_def)
  then show ?thesis using base res r by (simp add: vfs_abs_path_def)
qed

theorem vfs_abs_path_idempotent_witness:
  "vfs_abs_path None ''/usr/bin/sh'' 64 = Some ''/usr/bin/sh''"
proof -
  have r: "vfs_abs_path (Some ''/usr/lib'') ''../bin//./sh'' 64 = Some ''/usr/bin/sh''" by code_simp
  show ?thesis
    by (rule vfs_abs_path_idempotent [OF r]) (simp_all add: abs_base_def Let_def)
qed



text \<open>Creating a file through the FAT32 backend does not create it. \<^verbatim>\<open>vfs_create_file\<close> passes the absolute
  path on as if it were a name: on an empty volume creating \<^verbatim>\<open>/B\<close> succeeds, but \<^verbatim>\<open>/B\<close> cannot be
  looked up afterwards; the directory holds an entry with a slash in its name instead.\<close>

theorem vfs_create_lost:
  "\<exists>v'. vfs_create_file api 2 ''/B'' \<lparr>fat = demo_volume, ext = e, g_vfs_backend = 1\<rparr> = Some (0, v') \<and>
    vfs_stat_size_attr api 2 ''/B'' v' = Some None \<and>
    map_option fst (list_dir_at 2 2 (fat v')) = Some 1"
proof -
  have c: "map_option (\<lambda>(r, f). (r, map_option (map_option de_attr) (fat32_stat 2 ''/B'' f),
      map_option fst (list_dir_at 2 2 f))) (fat32_create_file 2 ''/B'' demo_volume) = Some (0, Some None, Some 1)"
    by code_simp
  obtain f where f: "fat32_create_file 2 ''/B'' demo_volume = Some (0, f)"
      "map_option (map_option de_attr) (fat32_stat 2 ''/B'' f) = Some None" "map_option fst (list_dir_at 2 2 f) = Some 1"
    using c by auto
  then show ?thesis
    by (auto simp: vfs_create_file_def vfs_stat_size_attr_def on_fat_def)
qed

end
