(* ===== verification/Channels.thy ===== *)
theory Channels
  imports KState
begin

text \<open>
  The ring buffers of pipes and sockets (\<^verbatim>\<open>syscall.c\<close>): 4096 bytes with free-running 32-bit positions, and
  the interface of a bounded channel that they implement. The loops that copy into and out of a ring
  are those of \<^verbatim>\<open>do_write_fd\<close>, \<^verbatim>\<open>sock_push\<close>, \<^verbatim>\<open>sock_pop\<close> and \<^verbatim>\<open>SYS_read\<close>.
\<close>

section \<open>The loops\<close>

definition ring_full :: "ring \<Rightarrow> bool" where
  "ring_full r \<longleftrightarrow> wpos r - rpos r \<ge> 4096"

definition ring_empty :: "ring \<Rightarrow> bool" where
  "ring_empty r \<longleftrightarrow> rpos r = wpos r"

definition ring_put :: "u8 \<Rightarrow> ring \<Rightarrow> ring" where
  "ring_put b r = r\<lparr>rbuf := (rbuf r)(unat (wpos r AND 4095) := b), wpos := wpos r + 1\<rparr>"

fun ring_push :: "u8 list \<Rightarrow> ring \<Rightarrow> nat \<times> ring" where
  "ring_push [] r = (0, r)"
| "ring_push (b # bs) r =
    (if ring_full r then (0, r)
     else case ring_push bs (ring_put b r) of (n, r) \<Rightarrow> (Suc n, r))"

fun ring_pop :: "nat \<Rightarrow> ring \<Rightarrow> u8 list \<times> ring" where
  "ring_pop 0 r = ([], r)"
| "ring_pop (Suc n) r =
    (if ring_empty r then ([], r)
     else case ring_pop n (r\<lparr>rpos := rpos r + 1\<rparr>) of (bs, r') \<Rightarrow> (rbuf r (unat (rpos r AND 4095)) # bs, r'))"

text \<open>A pipe or socket that was just created.\<close>

definition new_ring :: ring where
  "new_ring = \<lparr>rbuf = \<lambda>_. 0, rpos = 0, wpos = 0\<rparr>"

section \<open>Bounded channels\<close>

text \<open>Sequences of sends and receives, with what each of them reports.\<close>

datatype 'b chan_op = Send "'b list" | Recv nat

datatype 'b chan_out = Sent nat | Got "'b list"

fun run_chan ::
    "('b list \<Rightarrow> 'c \<Rightarrow> nat \<times> 'c) \<Rightarrow> (nat \<Rightarrow> 'c \<Rightarrow> 'b list \<times> 'c) \<Rightarrow> 'b chan_op list \<Rightarrow> 'c \<Rightarrow>
     'b chan_out list \<times> 'c" where
  "run_chan push pop [] c = ([], c)"
| "run_chan push pop (Send bs # ops) c =
    (case push bs c of (n, c) \<Rightarrow> case run_chan push pop ops c of (os, c) \<Rightarrow> (Sent n # os, c))"
| "run_chan push pop (Recv n # ops) c =
    (case pop n c of (bs, c) \<Rightarrow> case run_chan push pop ops c of (os, c) \<Rightarrow> (Got bs # os, c))"

text \<open>The bytes a run accepted and the bytes it delivered.\<close>

fun accepted :: "'b chan_op list \<Rightarrow> 'b chan_out list \<Rightarrow> 'b list" where
  "accepted (Send bs # ops) (Sent n # os) = take n bs @ accepted ops os"
| "accepted (_ # ops) (_ # os) = accepted ops os"
| "accepted _ _ = []"

fun delivered :: "'b chan_out list \<Rightarrow> 'b list" where
  "delivered [] = []"
| "delivered (Sent n # os) = delivered os"
| "delivered (Got bs # os) = bs @ delivered os"

text \<open>The specification: a list of at most \<open>cap\<close> elements.\<close>

definition queue_push :: "nat \<Rightarrow> 'b list \<Rightarrow> 'b list \<Rightarrow> nat \<times> 'b list" where
  "queue_push cap bs q = (let n = min (length bs) (cap - length q) in (n, q @ take n bs))"

definition queue_pop :: "nat \<Rightarrow> 'b list \<Rightarrow> 'b list \<times> 'b list" where
  "queue_pop n q = (take n q, drop n q)"

locale byte_channel =
  fixes ok :: "'c \<Rightarrow> bool"
    and contents :: "'c \<Rightarrow> 'b list"
    and capacity :: nat
    and push :: "'b list \<Rightarrow> 'c \<Rightarrow> nat \<times> 'c"
    and pop :: "nat \<Rightarrow> 'c \<Rightarrow> 'b list \<times> 'c"
  assumes bounded: "ok c \<Longrightarrow> length (contents c) \<le> capacity"
    and push_queue: "ok c \<Longrightarrow> push bs c = (n, c') \<Longrightarrow>
      queue_push capacity bs (contents c) = (n, contents c') \<and> ok c'"
    and pop_queue: "ok c \<Longrightarrow> pop n c = (bs, c') \<Longrightarrow> queue_pop n (contents c) = (bs, contents c') \<and> ok c'"
begin

lemma run_queue:
  assumes "ok c" "run_chan push pop ops c = (os, c')"
  shows "run_chan (queue_push capacity) queue_pop ops (contents c) = (os, contents c') \<and> ok c'"
  using assms
proof (induction ops arbitrary: c os)
  case (Cons op ops)
  show ?case
  proof (cases op)
    case (Send bs)
    obtain n c1 os1 where p: "push bs c = (n, c1)" "run_chan push pop ops c1 = (os1, c')" "os = Sent n # os1"
      using Cons.prems(2) Send by (auto split: prod.splits)
    then show ?thesis using push_queue [OF Cons.prems(1) p(1)] Cons.IH [OF _ p(2)] Send by simp
  next
    case (Recv n)
    obtain bs c1 os1 where p: "pop n c = (bs, c1)" "run_chan push pop ops c1 = (os1, c')" "os = Got bs # os1"
      using Cons.prems(2) Recv by (auto split: prod.splits)
    then show ?thesis using pop_queue [OF Cons.prems(1) p(1)] Cons.IH [OF _ p(2)] Recv by simp
  qed
qed simp

text \<open>Nothing is lost, repeated or reordered.\<close>

lemma run_fifo:
  assumes "ok c" "run_chan push pop ops c = (os, c')"
  shows "contents c @ accepted ops os = delivered os @ contents c'"
  using assms
proof (induction ops arbitrary: c os)
  case (Cons op ops)
  show ?case
  proof (cases op)
    case (Send bs)
    obtain n c1 os1 where p: "push bs c = (n, c1)" "run_chan push pop ops c1 = (os1, c')" "os = Sent n # os1"
      using Cons.prems(2) Send by (auto split: prod.splits)
    then have "contents c1 = contents c @ take n bs"
      using push_queue [OF Cons.prems(1) p(1)] by (auto simp: queue_push_def Let_def)
    then show ?thesis using push_queue [OF Cons.prems(1) p(1)] Cons.IH [OF _ p(2)] Send p(3) by simp
  next
    case (Recv n)
    obtain bs c1 os1 where p: "pop n c = (bs, c1)" "run_chan push pop ops c1 = (os1, c')" "os = Got bs # os1"
      using Cons.prems(2) Recv by (auto split: prod.splits)
    then have "contents c = bs @ contents c1" using pop_queue [OF Cons.prems(1) p(1)]
      by (metis append_take_drop_id queue_pop_def Pair_inject)
    then show ?thesis
      using pop_queue [OF Cons.prems(1) p(1)] Cons.IH [OF _ p(2)] Recv p(3) by simp
  qed
qed simp

text \<open>A message that fits is received whole.\<close>

lemma send_receive:
  assumes "ok c" "contents c = []" "length bs \<le> capacity" "push bs c = (n, c1)" "length bs \<le> m" "pop m c1 = (bs', c2)"
  shows "n = length bs \<and> bs' = bs \<and> contents c2 = [] \<and> ok c2"
  using push_queue [OF assms(1,4)] pop_queue [OF _ assms(6)] assms(2,3,5)
  by (auto simp: queue_push_def queue_pop_def Let_def)

end

section \<open>The ring is a channel\<close>

definition ring_len :: "ring \<Rightarrow> nat" where
  "ring_len r = unat (wpos r - rpos r)"

definition ring_list :: "ring \<Rightarrow> u8 list" where
  "ring_list r = map (\<lambda>i. rbuf r (unat ((rpos r + of_nat i) AND 4095))) [0..<ring_len r]"

definition ring_ok :: "ring \<Rightarrow> bool" where
  "ring_ok r \<longleftrightarrow> ring_len r \<le> 4096"

lemma unat_and_4095: "unat ((p :: u32) AND 4095) = unat p mod 4096"
proof -
  have "(4095 :: u32) = mask 12" by (simp add: mask_eq_exp_minus_1)
  then have "p AND 4095 = take_bit 12 p" by (simp add: take_bit_eq_mask)
  then show ?thesis by (simp add: take_bit_eq_mod unat_mod)
qed

lemma ring_index: "unat ((p + of_nat i :: u32) AND 4095) = (unat p + i) mod 4096"
proof -
  have "unat (p + of_nat i) = (unat p + i) mod 2 ^ 32" by (simp add: unat_word_ariths unat_of_nat mod_simps)
  moreover have "(x mod 2 ^ 32) mod 4096 = x mod (4096 :: nat)" for x by (rule mod_mod_cancel) simp
  ultimately show ?thesis by (simp only: unat_and_4095)
qed

lemma ring_full_len: "ring_full r \<longleftrightarrow> 4096 \<le> ring_len r"
  by (simp add: ring_full_def ring_len_def word_le_nat_alt)

lemma ring_empty_len: "ring_empty r \<longleftrightarrow> ring_len r = 0"
  by (simp add: ring_empty_def ring_len_def unat_eq_zero) metis

lemma length_ring_list [simp]: "length (ring_list r) = ring_len r"
  by (simp add: ring_list_def)

lemma mod_apart:
  fixes a :: nat
  assumes "i < j" "j < m"
  shows "(a + i) mod m \<noteq> (a + j) mod m"
proof
  assume "(a + i) mod m = (a + j) mod m"
  then have "m dvd a + j - (a + i)" using assms(1) mod_eq_dvd_iff_nat [of "a + i" "a + j" m] by simp
  then show False using assms nat_dvd_not_less [of "j - i" m] by simp
qed

lemma ring_put_ok:
  assumes "ring_len r < 4096"
  shows "ring_list (ring_put b r) = ring_list r @ [b]" "ring_len (ring_put b r) = Suc (ring_len r)"
proof -
  have "unat (wpos r - rpos r + 1) = Suc (ring_len r)"
    using assms by (simp add: ring_len_def unat_word_ariths)
  then show l: "ring_len (ring_put b r) = Suc (ring_len r)"
    by (simp add: ring_len_def ring_put_def algebra_simps)
  have w: "unat (wpos r AND 4095) = (unat (rpos r) + ring_len r) mod 4096"
    using ring_index [of "rpos r" "ring_len r"] by (simp add: ring_len_def)
  have "(unat (rpos r) + i) mod 4096 \<noteq> (unat (rpos r) + ring_len r) mod 4096" if "i < ring_len r" for i
    using that assms by (rule mod_apart)
  then have "map (\<lambda>i. rbuf (ring_put b r) (unat ((rpos r + of_nat i) AND 4095))) [0..<ring_len r] = ring_list r"
    by (auto simp: ring_list_def ring_put_def ring_index w)
  moreover have "rbuf (ring_put b r) (unat ((rpos r + of_nat (ring_len r)) AND 4095)) = b"
    by (simp add: ring_put_def ring_index w)
  ultimately show "ring_list (ring_put b r) = ring_list r @ [b]"
    unfolding ring_list_def [of "ring_put b r"] l by (simp add: ring_put_def)
qed

lemma ring_take_ok:
  assumes "ring_len r \<noteq> 0" "r' = r\<lparr>rpos := rpos r + 1\<rparr>"
  shows "ring_list r = rbuf r (unat (rpos r AND 4095)) # ring_list r'" "ring_len r' = ring_len r - 1"
proof -
  have "unat (wpos r - rpos r - 1) = ring_len r - 1"
    using assms(1) by (simp add: ring_len_def unat_minus_one unat_eq_zero)
  then show l: "ring_len r' = ring_len r - 1"
    using assms(2) by (simp add: ring_len_def algebra_simps)
  have "[0..<ring_len r] = 0 # map Suc [0..<ring_len r - 1]"
    using assms(1) by (cases "ring_len r") (simp_all add: map_Suc_upt upt_conv_Cons del: upt_Suc)
  then show "ring_list r = rbuf r (unat (rpos r AND 4095)) # ring_list r'"
    unfolding ring_list_def l using assms(2) by (simp add: add.assoc)
qed

lemma ring_push_queue:
  "ring_ok r \<Longrightarrow> ring_push bs r = (n, r') \<Longrightarrow> queue_push 4096 bs (ring_list r) = (n, ring_list r') \<and> ring_ok r'"
proof (induction bs arbitrary: r n)
  case (Cons b bs)
  show ?case
  proof (cases "ring_full r")
    case True
    then show ?thesis using Cons.prems by (simp add: ring_full_len queue_push_def)
  next
    case False
    then have l: "ring_len r < 4096" by (simp add: ring_full_len)
    obtain m where m: "ring_push bs (ring_put b r) = (m, r')" "n = Suc m"
      using Cons.prems(2) False by (auto split: prod.splits)
    have "ring_ok (ring_put b r)" using ring_put_ok(2) [OF l] l by (simp add: ring_ok_def)
    then have "queue_push 4096 bs (ring_list r @ [b]) = (m, ring_list r') \<and> ring_ok r'"
      using Cons.IH [OF _ m(1)] ring_put_ok(1) [OF l] by simp
    moreover have "min (Suc (length bs)) (4096 - ring_len r) = Suc (min (length bs) (4096 - Suc (ring_len r)))"
      using l by simp
    ultimately show ?thesis using m(2) by (auto simp: queue_push_def Let_def)
  qed
qed (simp add: queue_push_def)

lemma ring_pop_queue:
  "ring_ok r \<Longrightarrow> ring_pop n r = (bs, r') \<Longrightarrow> queue_pop n (ring_list r) = (bs, ring_list r') \<and> ring_ok r'"
proof (induction n arbitrary: r bs)
  case (Suc n)
  show ?case
  proof (cases "ring_empty r")
    case True
    then have "ring_list r = []" by (simp add: ring_empty_len flip: length_0_conv)
    then show ?thesis using Suc.prems True by (simp add: queue_pop_def)
  next
    case False
    let ?r = "r\<lparr>rpos := rpos r + 1\<rparr>"
    have l: "ring_len r \<noteq> 0" using False by (simp add: ring_empty_len)
    note t = ring_take_ok [OF l refl]
    obtain cs where cs: "ring_pop n ?r = (cs, r')" "bs = rbuf r (unat (rpos r AND 4095)) # cs"
      using Suc.prems(2) False by (auto split: prod.splits)
    have "ring_ok ?r" using Suc.prems(1) t(2) by (simp add: ring_ok_def)
    then show ?thesis using Suc.IH [OF _ cs(1)] cs(2) t(1) by (simp add: queue_pop_def)
  qed
qed (simp add: queue_pop_def)

interpretation rc: byte_channel ring_ok ring_list 4096 ring_push ring_pop
proof unfold_locales
  show "length (ring_list r) \<le> 4096" if "ring_ok r" for r using that by (simp add: ring_ok_def)
qed (use ring_push_queue ring_pop_queue in blast)+

lemma new_ring_ok: "ring_ok new_ring" "ring_list new_ring = []"
  by (simp_all add: new_ring_def ring_ok_def ring_list_def ring_len_def)

end
