(* ===== verification/Descriptors.thy ===== *)
theory Descriptors
  imports Channels Process
begin

text \<open>
  Descriptors, pipes and Unix sockets: the helpers of \<^verbatim>\<open>syscall.c\<close> and the system calls that only change the
  descriptor tables, pipes and sockets. The macro \<^verbatim>\<open>fds\<close> is the table \<open>fdtab\<close> selects. Descriptors and
  indices the caller passes are integers and checked as the code checks them; data go in and out as lists
  of bytes, and the results are the values the C handler leaves in \<^verbatim>\<open>ret\<close>, read as signed numbers. What
  a call stores through a pointer of the caller is part of its result.
\<close>

section \<open>Tables\<close>

definition fds :: "kernel \<Rightarrow> fdtable" where
  "fds k = fd_tables k (fdtab k)"

definition set_fd :: "nat \<Rightarrow> fdent \<Rightarrow> kernel \<Rightarrow> kernel" where
  "set_fd i e k = k\<lparr>fd_tables := (fd_tables k)(fdtab k := (fds k)(i := e))\<rparr>"

definition set_pipe :: "nat \<Rightarrow> pipe \<Rightarrow> kernel \<Rightarrow> kernel" where
  "set_pipe i p k = k\<lparr>pipes := (pipes k)(i := p)\<rparr>"

definition set_sock :: "nat \<Rightarrow> sock \<Rightarrow> kernel \<Rightarrow> kernel" where
  "set_sock i s k = k\<lparr>socks := (socks k)(i := s)\<rparr>"

text \<open>The guards of the handlers: an open descriptor, one above the standard three, one of a type.\<close>

definition fd_in :: "int \<Rightarrow> int \<Rightarrow> kernel \<Rightarrow> bool" where
  "fd_in lo fd k \<longleftrightarrow> lo \<le> fd \<and> fd < int MAX_FDS \<and> f_used (fds k (nat fd))"

definition fd_is :: "int \<Rightarrow> fd_type \<Rightarrow> int \<Rightarrow> kernel \<Rightarrow> bool" where
  "fd_is lo ty fd k \<longleftrightarrow> fd_in lo fd k \<and> f_type (fds k (nat fd)) = ty"

definition in_range :: "nat \<Rightarrow> int \<Rightarrow> bool" where
  "in_range n i \<longleftrightarrow> 0 \<le> i \<and> i < int n"

definition syscall_init :: "kernel \<Rightarrow> kernel" where
  "syscall_init k =
    k\<lparr>fd_tables := (fd_tables k)(fdtab k := (\<lambda>i. if i < MAX_FDS then (fds k i)\<lparr>f_used := False\<rparr> else fds k i)),
      pipes := (\<lambda>i. if i < MAX_PIPES then (pipes k i)\<lparr>p_used := False\<rparr> else pipes k i),
      socks := (\<lambda>i. if i < MAX_SOCKS then (socks k i)\<lparr>s_used := False, s_peer := -1, s_pending := []\<rparr> else socks k i)\<rparr>"

definition fresh_table :: "fdtable \<Rightarrow> fdtable" where
  "fresh_table t = (\<lambda>i.
     if i < 3 then (t i)\<lparr>f_used := True, f_type := FD_TTY\<rparr>
     else if i < MAX_FDS then (t i)\<lparr>f_used := False, f_type := FD_FILE\<rparr> else t i)"

definition fds_bind_current :: "kernel \<Rightarrow> kernel" where
  "fds_bind_current k =
    (case process_current k of
       None \<Rightarrow> k
     | Some me \<Rightarrow>
         (case fds_tab (pcb_table k me) of
            Some t \<Rightarrow> k\<lparr>fdtab := t\<rparr>
          | None \<Rightarrow>
              (set_pcb me ((pcb_table k me)\<lparr>fds_tab := Some me\<rparr>) k)
                \<lparr>fd_tables := (fd_tables k)(me := fresh_table (fd_tables k me)), fdtab := me\<rparr>))"

definition alloc_fd :: "kernel \<Rightarrow> nat option" where
  "alloc_fd k = find (\<lambda>i. \<not> f_used (fds k i)) [3..<MAX_FDS]"

text \<open>\<^verbatim>\<open>close_fd\<close>: a pipe stays as it is, a socket is released.\<close>

definition close_fd :: "int \<Rightarrow> kernel \<Rightarrow> kernel" where
  "close_fd fd k =
    (if fd_in 3 fd k then
       let e = fds k (nat fd);
           k = (if f_type e = FD_SOCK \<and> in_range MAX_SOCKS (f_sock e)
                then set_sock (nat (f_sock e)) ((socks k (nat (f_sock e)))\<lparr>s_used := False\<rparr>) k else k)
       in set_fd (nat fd) (e\<lparr>f_used := False\<rparr>) k
     else k)"

section \<open>Strings\<close>

fun str_equal :: "string \<Rightarrow> string \<Rightarrow> bool" where
  "str_equal (a # as) (b # bs) = (if a \<noteq> b then False else str_equal as bs)"
| "str_equal [] [] = True"
| "str_equal _ _ = False"

fun strstr_here :: "string \<Rightarrow> string \<Rightarrow> bool" where
  "strstr_here _ [] = True"
| "strstr_here (a # as) (b # bs) = (a = b \<and> strstr_here as bs)"
| "strstr_here [] (b # bs) = False"

fun k_strstr :: "string \<Rightarrow> string \<Rightarrow> string option" where
  "k_strstr h [] = Some h"
| "k_strstr [] (b # bs) = None"
| "k_strstr (a # as) (b # bs) = (if strstr_here (a # as) (b # bs) then Some (a # as) else k_strstr as (b # bs))"

definition digit :: "char \<Rightarrow> bool" where
  "digit c \<longleftrightarrow> 48 \<le> (of_char c :: nat) \<and> (of_char c :: nat) \<le> 57"

definition dev_type :: "string \<Rightarrow> fd_type option" where
  "dev_type path =
    (if str_equal path ''/dev/fb0'' then Some FD_FB
     else if str_equal path ''/dev/input/mice'' then Some FD_MICE
     else if take 8 path = ''/dev/tty'' \<and> length path = 9 \<and> digit (path ! 8) then Some FD_TTY
     else None)"

definition open_dev :: "string \<Rightarrow> kernel \<Rightarrow> int \<times> kernel" where
  "open_dev path k =
    (case dev_type path of
       None \<Rightarrow> (-1, k)
     | Some ty \<Rightarrow>
         (case alloc_fd k of
            None \<Rightarrow> (-1, k)
          | Some fd \<Rightarrow>
              (int fd, set_fd fd ((fds k fd)\<lparr>f_name := take 255 path, f_type := ty, f_flags := O_NONBLOCK,
                 f_pos := 0, f_used := True\<rparr>) k)))"

text \<open>The number at the start of a string, in an \<^verbatim>\<open>int\<close> that may wrap.\<close>

definition parse_int :: "string \<Rightarrow> int" where
  "parse_int s = sint (foldl (\<lambda>n c. n * 10 + of_nat (of_char c - 48)) (0 :: u32) (takeWhile digit s))"

definition link_target :: "string \<Rightarrow> kernel \<Rightarrow> string option" where
  "link_target path k =
    (if str_equal path ''/proc/self/exe'' then map_option (\<lambda>i. pname (pcb_table k i)) (process_current k)
     else if take 14 path = ''/proc/self/fd/'' then
       let fd = parse_int (drop 14 path) in
       if fd_in 0 fd k then Some (f_name (fds k (nat fd))) else None
     else if take 22 path = ''/sys/class/graphics/fb'' then
       Some (''/dev/fb'' @ take 24 (takeWhile digit (drop 22 path)))
     else None)"

text \<open>The return value and the text stored; a null path or buffer is the caller's \<^verbatim>\<open>None\<close>.\<close>

definition do_readlink :: "string \<Rightarrow> nat \<Rightarrow> kernel \<Rightarrow> int \<times> string" where
  "do_readlink path bufsiz k =
    (if bufsiz = 0 then (-1, [])
     else case link_target path k of
       None \<Rightarrow> (-1, [])
     | Some t \<Rightarrow> let out = take (bufsiz - 1) t in (int (length out), out))"

section \<open>Duplicating descriptors\<close>

definition dup_source :: "int \<Rightarrow> kernel \<Rightarrow> bool" where
  "dup_source fd k \<longleftrightarrow> in_range MAX_FDS fd \<and> (f_used (fds k (nat fd)) \<or> fd < 3)"

definition sys_dup :: "int \<Rightarrow> kernel \<Rightarrow> int \<times> kernel" where
  "sys_dup oldfd k =
    (if \<not> dup_source oldfd k then (-1, k)
     else case alloc_fd k of
       None \<Rightarrow> (-1, k)
     | Some nfd \<Rightarrow> (int nfd, set_fd nfd (fds k (nat oldfd)) k))"

text \<open>Before a descriptor is overwritten its pipe is marked unused.\<close>

definition dup_close :: "int \<Rightarrow> kernel \<Rightarrow> kernel" where
  "dup_close newfd k =
    (if fd_in 3 newfd k then
       let e = fds k (nat newfd);
           k = (if f_type e = FD_PIPE \<and> in_range MAX_PIPES (f_pipe e)
                then set_pipe (nat (f_pipe e)) ((pipes k (nat (f_pipe e)))\<lparr>p_used := False\<rparr>) k else k)
       in set_fd (nat newfd) (e\<lparr>f_used := False\<rparr>) k
     else k)"

definition sys_dup2 :: "int \<Rightarrow> int \<Rightarrow> kernel \<Rightarrow> int \<times> kernel" where
  "sys_dup2 oldfd newfd k =
    (if \<not> dup_source oldfd k then (-1, k)
     else if \<not> in_range MAX_FDS newfd then (-1, k)
     else let k = dup_close newfd k in (newfd, set_fd (nat newfd) (fds k (nat oldfd)) k))"

definition sys_dup3 :: "int \<Rightarrow> int \<Rightarrow> u32 \<Rightarrow> kernel \<Rightarrow> int \<times> kernel" where
  "sys_dup3 oldfd newfd flags k =
    (if \<not> dup_source oldfd k then (-1, k)
     else if \<not> in_range MAX_FDS newfd then (-1, k)
     else let k = dup_close newfd k
          in (newfd, set_fd (nat newfd) ((fds k (nat oldfd))\<lparr>f_flags := flags\<rparr>) k))"

definition sys_fcntl :: "int \<Rightarrow> int \<Rightarrow> u32 \<Rightarrow> kernel \<Rightarrow> int \<times> kernel" where
  "sys_fcntl fd cmd arg k =
    (if \<not> in_range MAX_FDS fd then (-1, k)
     else
       let e = fds k (nat fd) in
       if cmd = 1 then (if f_flags e AND O_CLOEXEC \<noteq> 0 then 1 else 0, k)
       else if cmd = 2 then
         (0, set_fd (nat fd) (e\<lparr>f_flags := (f_flags e AND NOT O_CLOEXEC) OR (arg AND O_CLOEXEC)\<rparr>) k)
       else if cmd = 3 then (sint (f_flags e), k)
       else if cmd = 4 then (0, set_fd (nat fd) (e\<lparr>f_flags := arg\<rparr>) k)
       else (-1, k))"

section \<open>Pipes\<close>

definition free_pipe :: "kernel \<Rightarrow> nat option" where
  "free_pipe k = find (\<lambda>i. \<not> p_used (pipes k i)) [0..<MAX_PIPES]"

definition pipe_end :: "nat \<Rightarrow> u32 \<Rightarrow> bool \<Rightarrow> fdent \<Rightarrow> fdent" where
  "pipe_end p flags w e = e\<lparr>f_used := True, f_type := FD_PIPE, f_pipe := int p, f_flags := flags, f_wend := w\<rparr>"

text \<open>\<^verbatim>\<open>SYS_pipe2\<close>; the pair is what is stored at \<open>out\<close>.\<close>

definition sys_pipe2 :: "addr \<Rightarrow> u32 \<Rightarrow> kernel \<Rightarrow> (int \<times> (nat \<times> nat) option) \<times> kernel" where
  "sys_pipe2 out flags k =
    (if out = 0 then ((-1, None), k)
     else case free_pipe k of
       None \<Rightarrow> ((-1, None), k)
     | Some pi \<Rightarrow>
         (case alloc_fd k of
            None \<Rightarrow> ((-1, None), k)
          | Some rfd \<Rightarrow>
              let k = set_fd rfd ((fds k rfd)\<lparr>f_used := True\<rparr>) k in
              (case alloc_fd k of
                 None \<Rightarrow> ((-1, None), set_fd rfd ((fds k rfd)\<lparr>f_used := False\<rparr>) k)
               | Some wfd \<Rightarrow>
                   let k = set_pipe pi \<lparr>p_used = True, p_ring = new_ring\<rparr> k;
                       k = set_fd rfd (pipe_end pi flags False (fds k rfd)) k
                   in ((0, Some (rfd, wfd)), set_fd wfd (pipe_end pi flags True (fds k wfd)) k))))"

definition sys_pipe :: "addr \<Rightarrow> kernel \<Rightarrow> (int \<times> (nat \<times> nat) option) \<times> kernel" where
  "sys_pipe out k = sys_pipe2 out 0 k"

definition table_writes :: "int \<Rightarrow> fdtable \<Rightarrow> bool" where
  "table_writes p t \<longleftrightarrow>
    list_ex (\<lambda>j. f_used (t j) \<and> f_type (t j) = FD_PIPE \<and> f_pipe (t j) = p \<and> f_wend (t j)) [0..<MAX_FDS]"

definition pipe_writers_alive :: "int \<Rightarrow> kernel \<Rightarrow> bool" where
  "pipe_writers_alive p k \<longleftrightarrow>
    list_ex (\<lambda>i. state (pcb_table k i) \<noteq> PROC_EMPTY \<and>
      (case fds_tab (pcb_table k i) of None \<Rightarrow> False | Some t \<Rightarrow> table_writes p (fd_tables k t))) [0..<MAX_PROC]"

definition on_pipe :: "(ring \<Rightarrow> 'a \<times> ring) \<Rightarrow> nat \<Rightarrow> kernel \<Rightarrow> 'a \<times> kernel" where
  "on_pipe h p k = (case h (p_ring (pipes k p)) of (r, q) \<Rightarrow> (r, set_pipe p ((pipes k p)\<lparr>p_ring := q\<rparr>) k))"

text \<open>The pipe branch of \<^verbatim>\<open>do_write_fd\<close>.\<close>

definition pipe_write :: "nat \<Rightarrow> u8 list \<Rightarrow> kernel \<Rightarrow> int \<times> kernel" where
  "pipe_write fd bs k =
    (let p = f_pipe (fds k fd) in
     if \<not> in_range MAX_PIPES p \<or> \<not> p_used (pipes k (nat p)) then (-1, k)
     else if ring_full (p_ring (pipes k (nat p))) then
       (if f_flags (fds k fd) AND O_NONBLOCK \<noteq> 0 then -11 else -1, k)
     else case on_pipe (ring_push bs) (nat p) k of (n, k) \<Rightarrow> (int n, k))"

text \<open>The pipe branch of \<^verbatim>\<open>SYS_read\<close>. A blocking read yields until there is data or no writer is left;
  \<open>env n\<close> stands for what the other processes do until the reader runs again, and \<open>None\<close> is a read
  that still waits after the given number of rounds.\<close>

fun pipe_wait :: "nat \<Rightarrow> (nat \<Rightarrow> kernel \<Rightarrow> kernel) \<Rightarrow> nat \<Rightarrow> kernel \<Rightarrow> kernel option" where
  "pipe_wait 0 env p k = None"
| "pipe_wait (Suc n) env p k =
    (if \<not> ring_empty (p_ring (pipes k p)) \<or> \<not> pipe_writers_alive (int p) k then Some k
     else pipe_wait n env p (env n k))"

definition pipe_read ::
    "nat \<Rightarrow> (nat \<Rightarrow> kernel \<Rightarrow> kernel) \<Rightarrow> nat \<Rightarrow> nat \<Rightarrow> kernel \<Rightarrow> ((int \<times> u8 list) \<times> kernel) option" where
  "pipe_read n env fd count k =
    (let p = f_pipe (fds k fd) in
     if \<not> in_range MAX_PIPES p \<or> \<not> p_used (pipes k (nat p)) then Some ((-1, []), k)
     else if f_flags (fds k fd) AND O_NONBLOCK \<noteq> 0 \<and> ring_empty (p_ring (pipes k (nat p))) then Some ((-11, []), k)
     else
       case (if f_flags (fds k fd) AND O_NONBLOCK \<noteq> 0 then Some k else pipe_wait n env (nat p) k) of
         None \<Rightarrow> None
       | Some k \<Rightarrow>
           (case on_pipe (ring_pop count) (nat p) k of (bs, k) \<Rightarrow> Some ((int (length bs), bs), k)))"

section \<open>Sockets\<close>

abbreviation AF_UNIX :: int where "AF_UNIX \<equiv> 1"

definition sock_alloc :: "kernel \<Rightarrow> nat option" where
  "sock_alloc k = find (\<lambda>i. \<not> s_used (socks k i)) [0..<MAX_SOCKS]"

definition sock_by_path :: "string option \<Rightarrow> kernel \<Rightarrow> nat option" where
  "sock_by_path path k =
    (case path of
       None \<Rightarrow> None
     | Some p \<Rightarrow>
         find (\<lambda>i. s_used (socks k i) \<and> s_listening (socks k i) \<and> str_equal (s_path (socks k i)) p) [0..<MAX_SOCKS])"

definition on_sock :: "(ring \<Rightarrow> 'a \<times> ring) \<Rightarrow> nat \<Rightarrow> kernel \<Rightarrow> 'a \<times> kernel" where
  "on_sock h s k = (case h (s_ring (socks k s)) of (r, q) \<Rightarrow> (r, set_sock s ((socks k s)\<lparr>s_ring := q\<rparr>) k))"

definition sock_push :: "int \<Rightarrow> u8 list \<Rightarrow> kernel \<Rightarrow> int \<times> kernel" where
  "sock_push s bs k =
    (if \<not> in_range MAX_SOCKS s \<or> \<not> s_used (socks k (nat s)) then (-1, k)
     else if ring_full (s_ring (socks k (nat s))) then (if s_nonblock (socks k (nat s)) then -11 else -1, k)
     else case on_sock (ring_push bs) (nat s) k of (n, k) \<Rightarrow> (int n, k))"

definition sock_pop :: "int \<Rightarrow> nat \<Rightarrow> kernel \<Rightarrow> (int \<times> u8 list) \<times> kernel" where
  "sock_pop s count k =
    (if \<not> in_range MAX_SOCKS s \<or> \<not> s_used (socks k (nat s)) then ((-1, []), k)
     else if ring_empty (s_ring (socks k (nat s))) then ((if s_nonblock (socks k (nat s)) then -11 else 0, []), k)
     else case on_sock (ring_pop count) (nat s) k of (bs, k) \<Rightarrow> ((int (length bs), bs), k))"

text \<open>A socket as \<^verbatim>\<open>SYS_socket\<close>, \<^verbatim>\<open>SYS_accept\<close> and \<^verbatim>\<open>SYS_socketpair\<close> set it up; the bytes of the buffer stay.\<close>

definition init_sock :: "int \<Rightarrow> sock \<Rightarrow> sock" where
  "init_sock peer s =
    s\<lparr>s_used := True, s_listening := False, s_peer := peer, s_nonblock := False, s_pending := [], s_path := [],
      s_ring := (s_ring s)\<lparr>rpos := 0, wpos := 0\<rparr>\<rparr>"

definition sock_fd :: "nat \<Rightarrow> u32 \<Rightarrow> fdent \<Rightarrow> fdent" where
  "sock_fd s flags e = e\<lparr>f_used := True, f_type := FD_SOCK, f_sock := int s, f_flags := flags\<rparr>"

definition sys_socket :: "int \<Rightarrow> u32 \<Rightarrow> kernel \<Rightarrow> int \<times> kernel" where
  "sys_socket domain type k =
    (if domain \<noteq> AF_UNIX then (-1, k)
     else case sock_alloc k of
       None \<Rightarrow> (-1, k)
     | Some s \<Rightarrow>
         (case alloc_fd k of
            None \<Rightarrow> (-1, set_sock s ((socks k s)\<lparr>s_used := False\<rparr>) k)
          | Some fd \<Rightarrow>
              let k = set_sock s (init_sock (-1) (socks k s)) k in
              (int fd, set_fd fd (sock_fd s (if type AND O_NONBLOCK \<noteq> 0 then O_NONBLOCK else 0) (fds k fd)) k)))"

definition sys_bind :: "int \<Rightarrow> string option \<Rightarrow> kernel \<Rightarrow> int \<times> kernel" where
  "sys_bind fd path k =
    (case path of
       None \<Rightarrow> (-1, k)
     | Some p \<Rightarrow>
         if \<not> fd_is 3 FD_SOCK fd k then (-1, k)
         else let s = f_sock (fds k (nat fd)) in
           if \<not> in_range MAX_SOCKS s then (-1, k)
           else (0, set_sock (nat s) ((socks k (nat s))\<lparr>s_path := take 255 p\<rparr>) k))"

definition sys_listen :: "int \<Rightarrow> kernel \<Rightarrow> int \<times> kernel" where
  "sys_listen fd k =
    (if \<not> fd_is 3 FD_SOCK fd k then (-1, k)
     else let s = f_sock (fds k (nat fd)) in
       (0, if in_range MAX_SOCKS s then set_sock (nat s) ((socks k (nat s))\<lparr>s_listening := True\<rparr>) k else k))"

definition sys_connect :: "int \<Rightarrow> string option \<Rightarrow> kernel \<Rightarrow> int \<times> kernel" where
  "sys_connect fd path k =
    (if \<not> fd_is 3 FD_SOCK fd k \<or> path = None then (-1, k)
     else
       let s = f_sock (fds k (nat fd)) in
       case sock_by_path path k of
         None \<Rightarrow> (-1, k)
       | Some srv \<Rightarrow>
           if \<not> in_range MAX_SOCKS s then (-1, k)
           else if length (s_pending (socks k srv)) \<ge> SOCK_QUEUE then (-1, k)
           else
             let k = set_sock (nat s) ((socks k (nat s))\<lparr>s_peer := int srv\<rparr>) k
             in (0, set_sock srv ((socks k srv)\<lparr>s_pending := s_pending (socks k srv) @ [s]\<rparr>) k))"

text \<open>\<^verbatim>\<open>SYS_accept\<close> (\<open>flags = 0\<close>) and \<^verbatim>\<open>SYS_accept4\<close>. The client leaves the queue before the descriptor and
  the socket are allocated. A client outside the table would be written out of bounds in C; such an
  index never enters the queue.\<close>

definition sys_accept :: "int \<Rightarrow> u64 \<Rightarrow> kernel \<Rightarrow> int \<times> kernel" where
  "sys_accept fd flags k =
    (if \<not> fd_is 3 FD_SOCK fd k then (-1, k)
     else
       let s = f_sock (fds k (nat fd)) in
       if \<not> in_range MAX_SOCKS s then (-1, k)
       else case s_pending (socks k (nat s)) of
         [] \<Rightarrow> (-1, k)
       | cli # rest \<Rightarrow>
           let k = set_sock (nat s) ((socks k (nat s))\<lparr>s_pending := rest\<rparr>) k in
           (case alloc_fd k of
              None \<Rightarrow> (-1, k)
            | Some nfd \<Rightarrow>
                (case sock_alloc k of
                   None \<Rightarrow> (-1, k)
                 | Some ns \<Rightarrow>
                     let k = set_sock ns (init_sock cli (socks k ns)) k;
                         k = set_sock (nat cli) ((socks k (nat cli))\<lparr>s_peer := int ns\<rparr>) k
                     in (int nfd, set_fd nfd (sock_fd ns (if flags AND ucast O_NONBLOCK \<noteq> 0 then O_NONBLOCK else 0)
                           (fds k nfd)) k))))"

definition sys_sendto :: "int \<Rightarrow> u8 list \<Rightarrow> kernel \<Rightarrow> int \<times> kernel" where
  "sys_sendto fd bs k =
    (if \<not> fd_is 3 FD_SOCK fd k then (-1, k)
     else let s = f_sock (fds k (nat fd)) in
       if \<not> in_range MAX_SOCKS s then (-1, k) else sock_push (s_peer (socks k (nat s))) bs k)"

definition sys_recvfrom :: "int \<Rightarrow> nat \<Rightarrow> kernel \<Rightarrow> (int \<times> u8 list) \<times> kernel" where
  "sys_recvfrom fd count k =
    (if \<not> fd_is 3 FD_SOCK fd k then ((-1, []), k)
     else let s = f_sock (fds k (nat fd)) in
       if \<not> in_range MAX_SOCKS s then ((-1, []), k) else sock_pop s count k)"

definition sys_socketpair :: "int \<Rightarrow> addr \<Rightarrow> kernel \<Rightarrow> (int \<times> (nat \<times> nat) option) \<times> kernel" where
  "sys_socketpair domain out k =
    (if domain \<noteq> AF_UNIX \<or> out = 0 then ((-1, None), k)
     else
       let a = sock_alloc k; b = sock_alloc k in
       case alloc_fd k of
         None \<Rightarrow> ((-1, None), k)
       | Some fd1 \<Rightarrow>
           let k = set_fd fd1 ((fds k fd1)\<lparr>f_used := True\<rparr>) k in
           (case alloc_fd k of
              None \<Rightarrow> ((-1, None), set_fd fd1 ((fds k fd1)\<lparr>f_used := False\<rparr>) k)
            | Some fd2 \<Rightarrow>
                let k = set_fd fd2 ((fds k fd2)\<lparr>f_used := True\<rparr>) k in
                (case (a, b) of
                   (Some s1, Some s2) \<Rightarrow>
                     let k = set_sock s1 (init_sock (int s2) (socks k s1)) k;
                         k = set_sock s2 (init_sock (int s1) (socks k s2)) k;
                         k = set_fd fd1 (sock_fd s1 0 (fds k fd1)) k
                     in ((0, Some (fd1, fd2)), set_fd fd2 (sock_fd s2 0 (fds k fd2)) k)
                 | _ \<Rightarrow> ((-1, None), k))))"

text \<open>\<^verbatim>\<open>SYS_getsockname\<close>: the path stored after the address family, if any.\<close>

definition sys_getsockname :: "int \<Rightarrow> addr \<Rightarrow> kernel \<Rightarrow> int \<times> string option" where
  "sys_getsockname fd a k =
    (if \<not> fd_is 3 FD_SOCK fd k then (-1, None)
     else let s = f_sock (fds k (nat fd)) in
       (0, if a \<noteq> 0 \<and> in_range MAX_SOCKS s then Some (take 254 (s_path (socks k (nat s)))) else None))"

section \<open>Event and timer descriptors\<close>

definition new_fd :: "(fdent \<Rightarrow> fdent) \<Rightarrow> kernel \<Rightarrow> int \<times> kernel" where
  "new_fd h k = (case alloc_fd k of None \<Rightarrow> (-1, k) | Some fd \<Rightarrow> (int fd, set_fd fd (h (fds k fd)) k))"

definition sys_eventfd2 :: "u64 \<Rightarrow> kernel \<Rightarrow> int \<times> kernel" where
  "sys_eventfd2 init k =
    (if init = 0 \<or> init = 1 then new_fd (\<lambda>e. e\<lparr>f_used := True, f_type := FD_EVENT, f_counter := init\<rparr>) k
     else (-1, k))"

definition sys_timerfd_create :: "kernel \<Rightarrow> int \<times> kernel" where
  "sys_timerfd_create k = new_fd (\<lambda>e. e\<lparr>f_used := True, f_type := FD_TIMER, f_counter := 0\<rparr>) k"

definition sys_epoll_create :: "kernel \<Rightarrow> int \<times> kernel" where
  "sys_epoll_create k = new_fd (\<lambda>e. e\<lparr>f_used := True, f_type := FD_FILE, f_name := []\<rparr>) k"

text \<open>The timer specification is \<^verbatim>\<open>{interval sec, nsec, value sec, nsec}\<close>, or absent.\<close>

definition timer_ms :: "(u64 \<times> u64 \<times> u64 \<times> u64) option \<Rightarrow> u64" where
  "timer_ms spec =
    (case spec of
       None \<Rightarrow> 0
     | Some (a, b, c, d) \<Rightarrow>
         let interval = a * 1000 + b div 1000000; value = c * 1000 + d div 1000000
         in if value \<noteq> 0 then value else interval)"

definition sys_timerfd_settime :: "int \<Rightarrow> (u64 \<times> u64 \<times> u64 \<times> u64) option \<Rightarrow> kernel \<Rightarrow> int \<times> kernel" where
  "sys_timerfd_settime fd spec k =
    (0, if fd_is 3 FD_TIMER fd k then
          let ms = timer_ms spec in set_fd (nat fd) ((fds k (nat fd))\<lparr>f_counter := if ms \<noteq> 0 then ms else 1\<rparr>) k
        else k)"

definition sys_timerfd_gettime :: "int \<Rightarrow> addr \<Rightarrow> kernel \<Rightarrow> int \<times> (u64 \<times> u64 \<times> u64 \<times> u64) option" where
  "sys_timerfd_gettime fd a k =
    (0, if fd_is 3 FD_TIMER fd k \<and> a \<noteq> 0 then
          let c = f_counter (fds k (nat fd)) in Some (0, 0, c div 1000, (c mod 1000) * 1000000)
        else None)"

end
