(* ===== verification/DescriptorInv.thy ===== *)
theory DescriptorInv
  imports Descriptors
begin

text \<open>
  The invariant of the descriptor tables, pipes and sockets, and that every call of \<open>Descriptors\<close> keeps it.
\<close>

section \<open>The invariant\<close>

named_theorems desc_intros \<open>how the invariant of the descriptor layer is kept\<close>

definition fdent_ok :: "fdent \<Rightarrow> bool" where
  "fdent_ok e \<longleftrightarrow> (f_type e = FD_PIPE \<longrightarrow> in_range MAX_PIPES (f_pipe e)) \<and>
    (f_type e = FD_SOCK \<longrightarrow> in_range MAX_SOCKS (f_sock e)) \<and> length (f_name e) < 256"

definition sock_ok :: "sock \<Rightarrow> bool" where
  "sock_ok s \<longleftrightarrow> ring_ok (s_ring s) \<and> length (s_pending s) \<le> SOCK_QUEUE \<and>
    list_all (in_range MAX_SOCKS) (s_pending s) \<and> length (s_path s) < 256"

definition desc_ok :: "kernel \<Rightarrow> bool" where
  "desc_ok k \<longleftrightarrow> (\<forall>p. ring_ok (p_ring (pipes k p))) \<and> (\<forall>s. sock_ok (socks k s)) \<and>
    (\<forall>t i. fdent_ok (fd_tables k t i))"

lemma desc_okD:
  assumes "desc_ok k"
  shows "ring_ok (p_ring (pipes k p))" "sock_ok (socks k s)" "fdent_ok (fd_tables k t i)" "fdent_ok (fds k i)"
  using assms by (auto simp: desc_ok_def fds_def)

lemma set_fd_ok [desc_intros]: "desc_ok k \<Longrightarrow> fdent_ok e \<Longrightarrow> desc_ok (set_fd i e k)"
  by (auto simp: desc_ok_def set_fd_def fds_def)

lemma set_pipe_ok [desc_intros]: "desc_ok k \<Longrightarrow> ring_ok (p_ring p) \<Longrightarrow> desc_ok (set_pipe i p k)"
  by (auto simp: desc_ok_def set_pipe_def)

lemma set_sock_ok [desc_intros]: "desc_ok k \<Longrightarrow> sock_ok s \<Longrightarrow> desc_ok (set_sock i s k)"
  by (auto simp: desc_ok_def set_sock_def)

lemma desc_ok_same:
  assumes "desc_ok k" "pipes k' = pipes k" "socks k' = socks k" "fd_tables k' = fd_tables k"
  shows "desc_ok k'"
  using assms by (simp add: desc_ok_def)

lemma fds_set [simp]:
  "fds (set_fd i e k) = (fds k)(i := e)" "fds (set_pipe j p k) = fds k" "fds (set_sock j s k) = fds k"
  by (auto simp: fds_def set_fd_def set_pipe_def set_sock_def)

lemma pipes_set [simp]:
  "pipes (set_fd i e k) = pipes k" "pipes (set_pipe j p k) = (pipes k)(j := p)" "pipes (set_sock j s k) = pipes k"
  by (auto simp: set_fd_def set_pipe_def set_sock_def)

lemma socks_set [simp]:
  "socks (set_fd i e k) = socks k" "socks (set_pipe j p k) = socks k" "socks (set_sock j s k) = (socks k)(j := s)"
  by (auto simp: set_fd_def set_pipe_def set_sock_def)

section \<open>Allocation\<close>

lemma find_upt_Some: "find P [a..<b] = Some i \<Longrightarrow> a \<le> i \<and> i < b \<and> P i"
  by (auto simp: find_Some_iff)

lemma alloc_fdD: "alloc_fd k = Some i \<Longrightarrow> 3 \<le> i \<and> i < MAX_FDS \<and> \<not> f_used (fds k i)"
  unfolding alloc_fd_def by (drule find_upt_Some) simp

lemma free_pipeD: "free_pipe k = Some i \<Longrightarrow> i < MAX_PIPES \<and> \<not> p_used (pipes k i)"
  unfolding free_pipe_def by (drule find_upt_Some) simp

lemma sock_allocD: "sock_alloc k = Some i \<Longrightarrow> i < MAX_SOCKS \<and> \<not> s_used (socks k i)"
  unfolding sock_alloc_def by (drule find_upt_Some) simp

lemma sock_by_pathD: "sock_by_path path k = Some i \<Longrightarrow> i < MAX_SOCKS \<and> s_used (socks k i) \<and> s_listening (socks k i)"
  unfolding sock_by_path_def by (cases path; simp; drule find_upt_Some; simp)

lemma alloc_fd_None: "alloc_fd k = None \<longleftrightarrow> (\<forall>i. 3 \<le> i \<and> i < MAX_FDS \<longrightarrow> f_used (fds k i))"
  unfolding alloc_fd_def find_None_iff set_upt atLeastLessThan_iff by blast

section \<open>Entries\<close>

lemma fdent_ok_upd [desc_intros]:
  "fdent_ok e \<Longrightarrow> fdent_ok (e\<lparr>f_used := u\<rparr>)" "fdent_ok e \<Longrightarrow> fdent_ok (e\<lparr>f_flags := x\<rparr>)"
  "fdent_ok e \<Longrightarrow> fdent_ok (e\<lparr>f_counter := n\<rparr>)"
  by (simp_all add: fdent_ok_def)

lemma fdent_ok_new [desc_intros]:
  "fdent_ok e \<Longrightarrow> p < MAX_PIPES \<Longrightarrow> fdent_ok (pipe_end p flags w e)"
  "fdent_ok e \<Longrightarrow> s < MAX_SOCKS \<Longrightarrow> fdent_ok (sock_fd s flags e)"
  by (simp_all add: fdent_ok_def pipe_end_def sock_fd_def in_range_def)

lemma sock_ok_upd [desc_intros]:
  "sock_ok s \<Longrightarrow> sock_ok (s\<lparr>s_used := u\<rparr>)" "sock_ok s \<Longrightarrow> sock_ok (s\<lparr>s_peer := p\<rparr>)"
  "sock_ok s \<Longrightarrow> sock_ok (s\<lparr>s_listening := l\<rparr>)" "sock_ok s \<Longrightarrow> sock_ok (s\<lparr>s_path := take 255 path\<rparr>)"
  "sock_ok s \<Longrightarrow> sock_ok (init_sock p s)" "sock_ok s \<Longrightarrow> ring_ok r \<Longrightarrow> sock_ok (s\<lparr>s_ring := r\<rparr>)"
  by (simp_all add: sock_ok_def init_sock_def ring_ok_def ring_len_def)

lemma fresh_table_ok: "fdent_ok (t i) \<Longrightarrow> fdent_ok (fresh_table t i)"
  by (simp add: fdent_ok_def fresh_table_def)

section \<open>The calls\<close>

lemma syscall_init_ok: "desc_ok k \<Longrightarrow> desc_ok (syscall_init k)"
  by (auto simp: desc_ok_def syscall_init_def fds_def fdent_ok_def sock_ok_def)

lemma bind_ok: "desc_ok k \<Longrightarrow> desc_ok (fds_bind_current k)"
  by (auto simp: fds_bind_current_def desc_ok_def set_pcb_def fresh_table_ok split: option.splits)

lemma close_exec_ok: "desc_ok k \<Longrightarrow> desc_ok (fds_close_exec tab k)" "desc_ok k \<Longrightarrow> desc_ok (fds_cleanup k)"
  by (auto simp: fds_close_exec_def fds_cleanup_def desc_ok_def fdent_ok_def split: option.splits)

lemma close_fd_ok: "desc_ok k \<Longrightarrow> desc_ok (close_fd fd k)"
  unfolding close_fd_def Let_def by (auto intro!: desc_intros dest: desc_okD)

lemma open_dev_ok: "desc_ok k \<Longrightarrow> desc_ok (snd (open_dev path k))"
  by (auto simp: open_dev_def dev_type_def fdent_ok_def intro!: desc_intros split: option.splits if_splits)

lemma dup_ok: "desc_ok k \<Longrightarrow> desc_ok (snd (sys_dup fd k))"
  by (auto simp: sys_dup_def intro!: desc_intros dest: desc_okD split: option.splits)

lemma dup_close_ok: "desc_ok k \<Longrightarrow> desc_ok (dup_close fd k)"
  unfolding dup_close_def Let_def by (auto intro!: desc_intros dest: desc_okD)

lemma dup2_ok: "desc_ok k \<Longrightarrow> desc_ok (snd (sys_dup2 a b k))" "desc_ok k \<Longrightarrow> desc_ok (snd (sys_dup3 a b fl k))"
  using dup_close_ok [of k b]
  by (auto simp: sys_dup2_def sys_dup3_def Let_def intro!: desc_intros dest: desc_okD)

lemma fcntl_ok: "desc_ok k \<Longrightarrow> desc_ok (snd (sys_fcntl fd cmd arg k))"
  by (auto simp: sys_fcntl_def Let_def intro!: desc_intros dest: desc_okD)

lemma pipe2_ok: "desc_ok k \<Longrightarrow> desc_ok (snd (sys_pipe2 out fl k))"
  unfolding sys_pipe2_def Let_def
  by (auto intro!: desc_intros dest: desc_okD free_pipeD simp: new_ring_ok split: option.splits)

lemma on_pipe_ok:
  assumes "desc_ok k" "\<And>r x r'. ring_ok r \<Longrightarrow> h r = (x, r') \<Longrightarrow> ring_ok r'" "on_pipe h p k = (x, k')"
  shows "desc_ok k'"
  using assms desc_okD(1) [OF assms(1), of p] by (auto simp: on_pipe_def intro!: desc_intros split: prod.splits)

lemma on_sock_ok:
  assumes "desc_ok k" "\<And>r x r'. ring_ok r \<Longrightarrow> h r = (x, r') \<Longrightarrow> ring_ok r'" "on_sock h s k = (x, k')"
  shows "desc_ok k'"
proof -
  have "sock_ok (socks k s)" "ring_ok (s_ring (socks k s))" using desc_okD(2) [OF assms(1), of s] by (auto simp: sock_ok_def)
  then show ?thesis using assms by (auto simp: on_sock_def intro!: desc_intros split: prod.splits)
qed

lemma ring_ops_ok:
  "ring_ok r \<Longrightarrow> ring_push bs r = (x, r') \<Longrightarrow> ring_ok r'" "ring_ok r \<Longrightarrow> ring_pop n r = (ys, r') \<Longrightarrow> ring_ok r'"
  using ring_push_queue ring_pop_queue by blast+

lemma channel_ok:
  "desc_ok k \<Longrightarrow> on_pipe (ring_push bs) p k = (x, k') \<Longrightarrow> desc_ok k'"
  "desc_ok k \<Longrightarrow> on_pipe (ring_pop n) p k = (y, k') \<Longrightarrow> desc_ok k'"
  "desc_ok k \<Longrightarrow> on_sock (ring_push bs) p k = (x, k') \<Longrightarrow> desc_ok k'"
  "desc_ok k \<Longrightarrow> on_sock (ring_pop n) p k = (y, k') \<Longrightarrow> desc_ok k'"
  using on_pipe_ok [of k "ring_push bs"] on_pipe_ok [of k "ring_pop n"]
    on_sock_ok [of k "ring_push bs"] on_sock_ok [of k "ring_pop n"] ring_ops_ok by blast+

lemma pipe_write_ok: "desc_ok k \<Longrightarrow> desc_ok (snd (pipe_write fd bs k))"
  by (auto simp: pipe_write_def Let_def dest: channel_ok split: prod.splits)

lemma pipe_wait_ok:
  assumes "\<And>n k. desc_ok k \<Longrightarrow> desc_ok (env n k)" "desc_ok k" "pipe_wait n env p k = Some k'"
  shows "desc_ok k'"
  using assms(2,3)
proof (induction n arbitrary: k)
  case (Suc n)
  then show ?case using Suc.IH [OF assms(1) [OF Suc.prems(1)]] by (auto split: if_splits)
qed simp

lemma pipe_read_ok:
  assumes "\<And>n k. desc_ok k \<Longrightarrow> desc_ok (env n k)" "desc_ok k" "pipe_read n env fd count k = Some (r, k')"
  shows "desc_ok k'"
proof -
  define p where "p = nat (f_pipe (fds k fd))"
  define w where "w = (if f_flags (fds k fd) AND O_NONBLOCK \<noteq> 0 then Some k else pipe_wait n env p k)"
  have "w = Some k1 \<Longrightarrow> desc_ok k1" for k1
    using assms(2) pipe_wait_ok [of env k n p k1, OF assms(1)] by (simp add: w_def split: if_splits)
  moreover have "k' = k \<or> (\<exists>k1 bs. w = Some k1 \<and> on_pipe (ring_pop count) p k1 = (bs, k'))"
    using assms(3) unfolding pipe_read_def Let_def p_def [symmetric] w_def [symmetric]
    by (simp split: if_splits option.splits prod.splits)
  ultimately show ?thesis using assms(2) channel_ok(2) by blast
qed

lemma sock_push_ok: "desc_ok k \<Longrightarrow> desc_ok (snd (sock_push s bs k))"
  by (auto simp: sock_push_def dest: channel_ok split: prod.splits)

lemma sock_pop_ok: "desc_ok k \<Longrightarrow> desc_ok (snd (sock_pop s n k))"
  by (auto simp: sock_pop_def dest: channel_ok split: prod.splits)

lemma socket_ok: "desc_ok k \<Longrightarrow> desc_ok (snd (sys_socket d ty k))"
  unfolding sys_socket_def Let_def
  by (auto intro!: desc_intros dest: desc_okD sock_allocD split: option.splits)

lemma bind_listen_ok: "desc_ok k \<Longrightarrow> desc_ok (snd (sys_bind fd path k))" "desc_ok k \<Longrightarrow> desc_ok (snd (sys_listen fd k))"
  by (auto simp: sys_bind_def sys_listen_def Let_def intro!: desc_intros dest: desc_okD split: option.splits)

lemma connect_ok: "desc_ok k \<Longrightarrow> desc_ok (snd (sys_connect fd path k))"
proof -
  assume k: "desc_ok k"
  have "sock_ok (s\<lparr>s_pending := s_pending s @ [c]\<rparr>)" "sock_ok (s\<lparr>s_peer := p, s_pending := s_pending s @ [c]\<rparr>)"
    if "sock_ok s" "length (s_pending s) < SOCK_QUEUE" "in_range MAX_SOCKS c" for s c p
    using that by (simp_all add: sock_ok_def)
  then show ?thesis
    using k desc_okD(2) [OF k]
    by (auto simp: sys_connect_def Let_def not_le intro!: desc_intros split: option.splits)
qed

lemma accept_ok: "desc_ok k \<Longrightarrow> desc_ok (snd (sys_accept fd fl k))"
proof -
  assume k: "desc_ok k"
  have "sock_ok (s\<lparr>s_pending := rest\<rparr>)" if "sock_ok s" "s_pending s = c # rest" for s c rest
    using that by (simp add: sock_ok_def)
  then show ?thesis
    using k desc_okD(2) [OF k]
    by (auto simp: sys_accept_def Let_def intro!: desc_intros dest: desc_okD sock_allocD split: option.splits list.splits)
qed

lemma sendto_ok: "desc_ok k \<Longrightarrow> desc_ok (snd (sys_sendto fd bs k))" "desc_ok k \<Longrightarrow> desc_ok (snd (sys_recvfrom fd n k))"
  by (auto simp: sys_sendto_def sys_recvfrom_def Let_def intro: sock_push_ok sock_pop_ok)

lemma socketpair_ok: "desc_ok k \<Longrightarrow> desc_ok (snd (sys_socketpair d out k))"
  unfolding sys_socketpair_def Let_def
  by (auto intro!: desc_intros dest: desc_okD sock_allocD split: option.splits)

lemma new_fd_ok: "desc_ok k \<Longrightarrow> (\<And>e. fdent_ok e \<Longrightarrow> fdent_ok (h e)) \<Longrightarrow> desc_ok (snd (new_fd h k))"
  by (auto simp: new_fd_def intro!: desc_intros dest: desc_okD split: option.splits)

lemma event_ok:
  "desc_ok k \<Longrightarrow> desc_ok (snd (sys_eventfd2 i k))" "desc_ok k \<Longrightarrow> desc_ok (snd (sys_timerfd_create k))"
  "desc_ok k \<Longrightarrow> desc_ok (snd (sys_epoll_create k))" "desc_ok k \<Longrightarrow> desc_ok (snd (sys_timerfd_settime fd spec k))"
  by (auto simp: sys_eventfd2_def sys_timerfd_create_def sys_epoll_create_def sys_timerfd_settime_def Let_def
      fdent_ok_def intro!: new_fd_ok set_fd_ok dest: desc_okD(4))

end
