(* ===== verification/DescriptorProps.thy ===== *)
theory DescriptorProps
  imports DescriptorInv
begin

text \<open>
  Properties of descriptors, pipes and sockets: the invariant of every reachable state, the ring buffers as
  bounded queues, and what pairs of calls achieve together.
\<close>

section \<open>Steps\<close>

inductive fd_step :: "kernel \<Rightarrow> kernel \<Rightarrow> bool" where
  "fd_step k (syscall_init k)"
| "fd_step k (fds_bind_current k)"
| "fd_step k (fds_close_exec tab k)"
| "fd_step k (fds_cleanup k)"
| "fd_step k (close_fd fd k)"
| "fd_step k (snd (open_dev path k))"
| "fd_step k (snd (sys_dup fd k))"
| "fd_step k (snd (sys_dup2 fd fd' k))"
| "fd_step k (snd (sys_dup3 fd fd' flags k))"
| "fd_step k (snd (sys_fcntl fd cmd arg k))"
| "fd_step k (snd (sys_pipe2 out flags k))"
| "fd_step k (snd (pipe_write i bs k))"
| "pipe_read 1 (\<lambda>_ k. k) i count k = Some (r, k') \<Longrightarrow> fd_step k k'"
| "fd_step k (snd (sys_socket domain ty k))"
| "fd_step k (snd (sys_bind fd p k))"
| "fd_step k (snd (sys_listen fd k))"
| "fd_step k (snd (sys_connect fd p k))"
| "fd_step k (snd (sys_accept fd fl k))"
| "fd_step k (snd (sys_sendto fd bs k))"
| "fd_step k (snd (sys_recvfrom fd count k))"
| "fd_step k (snd (sys_socketpair domain out k))"
| "fd_step k (snd (sys_eventfd2 init k))"
| "fd_step k (snd (sys_timerfd_create k))"
| "fd_step k (snd (sys_timerfd_settime fd spec k))"
| "fd_step k (snd (sys_epoll_create k))"
| "pipes k' = pipes k \<Longrightarrow> socks k' = socks k \<Longrightarrow> fd_tables k' = fd_tables k \<Longrightarrow> fd_step k k'"

text \<open>A read of a pipe is a step when it returns; until then others make theirs. The last rule is any other
  work of the kernel, which leaves the descriptor layer alone; switching to another process between two
  calls is such a step.\<close>

lemma fd_step_ok: "fd_step k k' \<Longrightarrow> desc_ok k \<Longrightarrow> desc_ok k'"
proof (induction rule: fd_step.induct)
  case (13 i count k r k')
  then show ?case using pipe_read_ok [of "\<lambda>_ k. k" k 1 i count r k'] by simp
qed (simp_all add: syscall_init_ok bind_ok close_exec_ok close_fd_ok open_dev_ok dup_ok dup2_ok fcntl_ok pipe2_ok
    pipe_write_ok socket_ok bind_listen_ok connect_ok accept_ok sendto_ok socketpair_ok event_ok desc_ok_same)

definition cleared :: "kernel \<Rightarrow> bool" where
  "cleared k \<longleftrightarrow> (\<forall>p. rpos (p_ring (pipes k p)) = wpos (p_ring (pipes k p))) \<and>
    (\<forall>s. rpos (s_ring (socks k s)) = wpos (s_ring (socks k s)) \<and> s_pending (socks k s) = [] \<and> s_path (socks k s) = []) \<and>
    (\<forall>t i. f_type (fd_tables k t i) = FD_FILE \<and> f_name (fd_tables k t i) = [])"

lemma cleared_ok: "cleared k \<Longrightarrow> desc_ok k"
  by (simp add: cleared_def desc_ok_def sock_ok_def fdent_ok_def ring_ok_def ring_len_def)

text \<open>A kernel with one running process and nothing open.\<close>

definition bare_kernel :: kernel where
  "bare_kernel =
    \<lparr>heap = \<lparr>mem = \<lambda>_. 0, frames = \<lambda>_. 0, free_area = \<lambda>_. 0, kmalloc_caches = [], pcpu_pages = [],
       pcpu_objects = \<lambda>_. [], cr3 = 0, user_va_next = 0\<rparr>,
     vobjs = \<lambda>_. \<lparr>refcnt = 0, obj_bytes = 0, pages_arr = 0, page_count = 0\<rparr>,
     vmaps = \<lambda>_. \<lparr>entries = [], nentries = 0, min_offset = 0, max_offset = 0\<rparr>,
     pcb_table = (\<lambda>_. zero_pcb\<lparr>pid := -1\<rparr>)(1 := zero_pcb\<lparr>pid := 1, state := PROC_RUNNING\<rparr>),
     current_pid = 1, pcb_count = 2, next_pid = 2, tss_rsp0 = 0, cpu_slot = 1, cpu_rsp = 0, fs_msr = 0,
     g_in_syscall = False,
     fd_tables = \<lambda>_ _. \<lparr>f_used = False, f_type = FD_FILE, f_flags = 0, f_pipe = 0, f_sock = 0, f_name = [],
       f_pos = 0, f_wend = False, f_counter = 0\<rparr>,
     fdtab = MAX_PROC, pipes = \<lambda>_. \<lparr>p_used = False, p_ring = new_ring\<rparr>,
     socks = \<lambda>_. \<lparr>s_used = False, s_path = [], s_listening = False, s_peer = 0, s_nonblock = False,
       s_pending = [], s_ring = new_ring\<rparr>\<rparr>"

section \<open>Pipes\<close>

lemma pipe2_success:
  assumes "sys_pipe2 out flags k = ((0, Some (rfd, wfd)), k1)"
  obtains pi e e' where "pi < MAX_PIPES" "rfd \<noteq> wfd" "fds k1 rfd = pipe_end pi flags False e"
    "fds k1 wfd = pipe_end pi flags True e'" "pipes k1 pi = \<lparr>p_used = True, p_ring = new_ring\<rparr>"
proof -
  obtain pi where pi: "free_pipe k = Some pi" using assms by (auto simp: sys_pipe2_def split: if_splits option.splits)
  obtain r where r: "alloc_fd k = Some r" using assms pi by (auto simp: sys_pipe2_def split: if_splits option.splits)
  let ?k = "set_fd r ((fds k r)\<lparr>f_used := True\<rparr>) k"
  obtain w where w: "alloc_fd ?k = Some w"
    using assms pi r by (auto simp: sys_pipe2_def Let_def split: if_splits option.splits)
  have "\<not> f_used (fds ?k w)" using alloc_fdD [OF w] by blast
  then have rw: "r \<noteq> w" by auto
  show ?thesis
    using assms pi r w rw free_pipeD [OF pi] by (intro that [of pi]) (auto simp: sys_pipe2_def Let_def split: if_splits)
qed

lemma on_pipe_eq:
  "on_pipe h p k = (x, k') \<Longrightarrow>
    h (p_ring (pipes k p)) = (x, p_ring (pipes k' p)) \<and> p_used (pipes k' p) = p_used (pipes k p) \<and> fds k' = fds k"
  by (auto simp: on_pipe_def split: prod.splits)

lemma pipe_write_eq:
  assumes "f_pipe (fds k fd) = int p" "p < MAX_PIPES" "p_used (pipes k p)" "ring_ok (p_ring (pipes k p))"
    "length (ring_list (p_ring (pipes k p))) < 4096" "pipe_write fd bs k = (n, k')"
  shows "\<exists>m. n = int m \<and> ring_push bs (p_ring (pipes k p)) = (m, p_ring (pipes k' p)) \<and>
    p_used (pipes k' p) \<and> fds k' = fds k"
proof -
  have "\<not> ring_full (p_ring (pipes k p))" using assms(5) by (simp add: ring_full_len)
  then obtain m where "n = int m" "on_pipe (ring_push bs) p k = (m, k')"
    using assms(1-3,6) by (auto simp: pipe_write_def in_range_def Let_def split: prod.splits)
  then show ?thesis using on_pipe_eq [of "ring_push bs" p k m k'] assms(3) by simp
qed

lemma pipe_read_eq:
  assumes "f_pipe (fds k fd) = int p" "p < MAX_PIPES" "p_used (pipes k p)"
    "ring_pop count (p_ring (pipes k p)) = (bs, r)"
    "\<not> ring_empty (p_ring (pipes k p)) \<or> f_flags (fds k fd) AND O_NONBLOCK = 0 \<and> \<not> pipe_writers_alive (int p) k"
  shows "\<exists>k'. pipe_read (Suc m) env fd count k = Some ((int (length bs), bs), k')"
  using assms by (auto simp: pipe_read_def in_range_def on_pipe_def Let_def)

lemma pipe_wait_starves:
  assumes "\<And>n k. P k \<Longrightarrow> P (env n k)" "\<And>k. P k \<Longrightarrow> ring_empty (p_ring (pipes k p)) \<and> pipe_writers_alive (int p) k" "P k"
  shows "pipe_wait n env p k = None"
  using assms(3) by (induction n arbitrary: k) (auto simp: assms(1,2))

section \<open>Sockets\<close>

lemma on_sock_eq:
  "on_sock h s k = (x, k') \<Longrightarrow>
    h (s_ring (socks k s)) = (x, s_ring (socks k' s)) \<and> s_used (socks k' s) = s_used (socks k s) \<and>
    s_peer (socks k' s) = s_peer (socks k s) \<and> fds k' = fds k"
  by (auto simp: on_sock_def split: prod.splits)

lemma sock_push_eq:
  assumes "sock_push (int s) bs k = (n, k')" "0 \<le> n"
  shows "\<exists>m. n = int m \<and> ring_push bs (s_ring (socks k s)) = (m, s_ring (socks k' s)) \<and>
    s_used (socks k' s) \<and> s_peer (socks k' s) = s_peer (socks k s) \<and> fds k' = fds k \<and> s < MAX_SOCKS"
proof -
  have g: "s < MAX_SOCKS" "s_used (socks k s)" "\<not> ring_full (s_ring (socks k s))"
    using assms by (auto simp: sock_push_def in_range_def split: if_splits)
  then obtain m where m: "on_sock (ring_push bs) s k = (m, k')" "n = int m"
    using assms by (auto simp: sock_push_def in_range_def split: prod.splits)
  then show ?thesis using on_sock_eq [OF m(1)] g by simp
qed

lemma socketpair_success:
  assumes "sys_socketpair d out k = ((0, Some (a, b)), k1)"
  obtains s e e' t where "s < MAX_SOCKS" "3 \<le> a" "a < MAX_FDS" "fds k1 a = sock_fd s 0 e" "fds k1 b = sock_fd s 0 e'"
    "socks k1 s = init_sock (int s) t"
proof -
  obtain s where s: "sock_alloc k = Some s"
    using assms by (auto simp: sys_socketpair_def Let_def split: if_splits option.splits)
  obtain x where x: "alloc_fd k = Some x"
    using assms by (auto simp: sys_socketpair_def Let_def split: if_splits option.splits)
  let ?k = "set_fd x ((fds k x)\<lparr>f_used := True\<rparr>) k"
  obtain y where y: "alloc_fd ?k = Some y"
    using assms s x by (auto simp: sys_socketpair_def Let_def split: if_splits option.splits)
  have "\<not> f_used (fds ?k y)" using alloc_fdD [OF y] by blast
  then have "x \<noteq> y" by auto
  then show ?thesis
    using assms s x y alloc_fdD [OF x] sock_allocD [OF s]
    by (intro that [of s]) (auto simp: sys_socketpair_def Let_def split: if_splits)
qed

lemma accept_success:
  assumes "sys_accept fd fl k = (n, k')" "0 \<le> n"
  obtains ns where "rpos (s_ring (socks k' ns)) = wpos (s_ring (socks k' ns))" "f_sock (fds k' (nat n)) = int ns"
proof -
  define s where "s = nat (f_sock (fds k (nat fd)))"
  have g: "fd_is 3 FD_SOCK fd k" "in_range MAX_SOCKS (f_sock (fds k (nat fd)))" "s_pending (socks k s) \<noteq> []"
    using assms by (auto simp: sys_accept_def Let_def s_def split: if_splits)
  then obtain cli rest where p: "s_pending (socks k s) = cli # rest" by (cases "s_pending (socks k s)") auto
  define K where "K = set_sock s ((socks k s)\<lparr>s_pending := rest\<rparr>) k"
  have e: "sys_accept fd fl k = (case alloc_fd K of None \<Rightarrow> (-1, K) | Some nfd \<Rightarrow>
      (case sock_alloc K of None \<Rightarrow> (-1, K) | Some ns \<Rightarrow>
         (int nfd, set_fd nfd (sock_fd ns (if fl AND ucast O_NONBLOCK \<noteq> 0 then O_NONBLOCK else 0) (fds K nfd))
           (set_sock (nat cli) ((socks (set_sock ns (init_sock cli (socks K ns)) K) (nat cli))\<lparr>s_peer := int ns\<rparr>)
             (set_sock ns (init_sock cli (socks K ns)) K)))))"
    using g p unfolding sys_accept_def Let_def s_def [symmetric] by (simp add: K_def cong: option.case_cong)
  obtain nfd where nfd: "alloc_fd K = Some nfd" using assms e by (cases "alloc_fd K") auto
  obtain ns where ns: "sock_alloc K = Some ns" using assms e nfd by (cases "sock_alloc K") auto
  define flags where "flags = (if fl AND ucast O_NONBLOCK \<noteq> 0 then O_NONBLOCK else 0)"
  have k': "n = int nfd" "k' = set_fd nfd (sock_fd ns flags (fds K nfd))
      (set_sock (nat cli) ((socks (set_sock ns (init_sock cli (socks K ns)) K) (nat cli))\<lparr>s_peer := int ns\<rparr>)
        (set_sock ns (init_sock cli (socks K ns)) K))"
    using assms(1) nfd ns unfolding e flags_def by (auto simp only: option.case prod.inject)
  have "f_sock (fds k' (nat n)) = int ns" using k' by (simp add: sock_fd_def)
  moreover have "rpos (s_ring (socks k' ns)) = wpos (s_ring (socks k' ns))"
    unfolding k'(2) by (cases "nat cli = ns") (simp_all add: init_sock_def)
  ultimately show ?thesis using that by blast
qed

section \<open>Properties\<close>

text \<open>C3: the descriptor layer stays consistent. In every state reached from cleared tables by the system calls
  on descriptors, pipes and sockets, in any order and whatever their arguments, every ring holds at most 4096
  bytes, every queue of pending connections at most 8 sockets of the table, and every pipe or socket
  descriptor in every table names a pipe or socket of the table.\<close>

theorem descriptors_sound:
  assumes "cleared k0" "fd_step\<^sup>*\<^sup>* k0 k"
  shows "ring_len (p_ring (pipes k p)) \<le> 4096 \<and> ring_len (s_ring (socks k s)) \<le> 4096 \<and>
    length (s_pending (socks k s)) \<le> SOCK_QUEUE \<and> list_all (in_range MAX_SOCKS) (s_pending (socks k s)) \<and>
    (f_type (fd_tables k t i) = FD_PIPE \<longrightarrow> in_range MAX_PIPES (f_pipe (fd_tables k t i))) \<and>
    (f_type (fd_tables k t i) = FD_SOCK \<longrightarrow> in_range MAX_SOCKS (f_sock (fd_tables k t i)))"
proof -
  have "desc_ok k" using assms(2) cleared_ok [OF assms(1)] by induction (auto intro: fd_step_ok)
  then show ?thesis
    using desc_okD(1) [of k p] desc_okD(2) [of k s] desc_okD(3) [of k t i]
    by (auto simp: ring_ok_def sock_ok_def fdent_ok_def)
qed

theorem descriptors_sound_witness:
  "\<exists>k. fd_step\<^sup>*\<^sup>* bare_kernel k \<and> f_type (fd_tables k 64 3) = FD_PIPE \<and> in_range MAX_PIPES (f_pipe (fd_tables k 64 3))"
proof -
  let ?k = "snd (sys_pipe2 1 0 bare_kernel)"
  have "cleared bare_kernel" by (simp add: cleared_def bare_kernel_def new_ring_def)
  moreover have "fd_step\<^sup>*\<^sup>* bare_kernel ?k" by (intro r_into_rtranclp fd_step.intros)
  moreover have "f_type (fd_tables ?k 64 3) = FD_PIPE" by code_simp
  ultimately show ?thesis using descriptors_sound [of bare_kernel ?k 0 0 64 3] by blast
qed

text \<open>C4: the ring buffers of pipes and sockets implement a bounded queue. For every sequence of writes and reads the
  ring reports the same counts and delivers the same bytes as a list of at most 4096 bytes, also when its
  free-running 32-bit positions wrap around.\<close>

theorem ring_refines_queue:
  assumes "ring_ok r" "run_chan ring_push ring_pop ops r = (os, r')"
  shows "run_chan (queue_push 4096) queue_pop ops (ring_list r) = (os, ring_list r') \<and>
    ring_list r @ accepted ops os = delivered os @ ring_list r'"
  using rc.run_queue [OF assms] rc.run_fifo [OF assms] by blast

theorem ring_refines_queue_witness:
  "\<exists>r'. run_chan ring_push ring_pop [Send [1, 2, 3], Recv 2, Send [4], Recv 9]
      \<lparr>rbuf = \<lambda>_. 0, rpos = 0xFFFFFFFF, wpos = 0xFFFFFFFF\<rparr> = ([Sent 3, Got [1, 2], Sent 1, Got [3, 4]], r') \<and>
    run_chan (queue_push 4096) queue_pop [Send [1, 2, 3], Recv 2, Send [4], Recv 9] [] =
      ([Sent 3, Got [1, 2], Sent 1, Got [3, 4]], ring_list r')"
proof -
  let ?r = "\<lparr>rbuf = \<lambda>_. 0, rpos = 0xFFFFFFFF, wpos = 0xFFFFFFFF\<rparr>"
  let ?ops = "[Send [1, 2, 3], Recv 2, Send [4], Recv 9]"
  have "fst (run_chan ring_push ring_pop ?ops ?r) = [Sent 3, Got [1, 2], Sent 1, Got [3, 4]]" by code_simp
  then obtain r' where r': "run_chan ring_push ring_pop ?ops ?r = ([Sent 3, Got [1, 2], Sent 1, Got [3, 4]], r')"
    by (cases "run_chan ring_push ring_pop ?ops ?r") simp
  have "ring_ok ?r" "ring_list ?r = []" by (simp_all add: ring_ok_def ring_list_def ring_len_def)
  then show ?thesis using ring_refines_queue [OF _ r'] r' by auto
qed

text \<open>C17: a message through a new pipe. When \<^verbatim>\<open>SYS_pipe2\<close> (or \<^verbatim>\<open>SYS_pipe\<close>) succeeds, writing up to 4096 bytes to the
  second descriptor writes them all, and the next read of the first returns exactly these bytes, at once.\<close>

theorem pipe_message:
  assumes "sys_pipe2 out flags k = ((0, Some (rfd, wfd)), k1)" "bs \<noteq> []" "length bs \<le> 4096" "length bs \<le> count"
    and "pipe_write wfd bs k1 = (n, k2)"
  shows "n = int (length bs) \<and> (\<exists>k3. pipe_read (Suc m) env rfd count k2 = Some ((int (length bs), bs), k3))"
proof -
  obtain pi e e' where p: "pi < MAX_PIPES" "fds k1 rfd = pipe_end pi flags False e" "fds k1 wfd = pipe_end pi flags True e'"
      "pipes k1 pi = \<lparr>p_used = True, p_ring = new_ring\<rparr>"
    using pipe2_success [OF assms(1)] by blast
  obtain l where l: "n = int l" "ring_push bs new_ring = (l, p_ring (pipes k2 pi))" "p_used (pipes k2 pi)" "fds k2 = fds k1"
    using pipe_write_eq [of k1 wfd pi bs n k2] p assms(5) new_ring_ok by (auto simp: pipe_end_def)
  obtain bs' r' where r': "ring_pop count (p_ring (pipes k2 pi)) = (bs', r')" by fastforce
  have ok: "l = length bs \<and> bs' = bs"
    using rc.send_receive [OF new_ring_ok assms(3) l(2) assms(4) r'] by blast
  have "ring_list (p_ring (pipes k2 pi)) = bs"
    using ring_push_queue [OF new_ring_ok(1) l(2)] ok new_ring_ok(2) by (auto simp: queue_push_def Let_def)
  then have "\<not> ring_empty (p_ring (pipes k2 pi))" using assms(2) by (auto simp: ring_empty_len simp flip: length_ring_list)
  then show ?thesis
    using pipe_read_eq [of k2 rfd pi count bs' r' m env] l p(1,2) r' ok by (auto simp: pipe_end_def)
qed

theorem pipe_message_witness:
  "\<exists>k1 k2 k3. sys_pipe2 1 0 bare_kernel = ((0, Some (3, 4)), k1) \<and> pipe_write 4 [7, 8] k1 = (2, k2) \<and>
    pipe_read 1 (\<lambda>_ k. k) 3 10 k2 = Some ((2, [7, 8]), k3)"
proof -
  have f: "fst (sys_pipe2 1 0 bare_kernel) = (0, Some (3, 4))" by code_simp
  then obtain k1 where k1: "sys_pipe2 1 0 bare_kernel = ((0, Some (3, 4)), k1)"
    by (cases "sys_pipe2 1 0 bare_kernel") simp
  obtain n k2 where k2: "pipe_write 4 [7, 8] k1 = (n, k2)" by fastforce
  show ?thesis
    using pipe_message [OF k1 _ _ _ k2, of 10 0 "\<lambda>_ k. k"] k1 k2 by auto
qed

text \<open>The end of a pipe. When no live process holds the write end of a pipe, a blocking read returns at once:
  the bytes still in the pipe, up to the requested number, and 0 when there are none.\<close>

theorem pipe_read_eof:
  assumes "f_pipe (fds k fd) = int p" "p < MAX_PIPES" "p_used (pipes k p)" "ring_ok (p_ring (pipes k p))"
    and "f_flags (fds k fd) AND O_NONBLOCK = 0" "\<not> pipe_writers_alive (int p) k"
  shows "\<exists>k'. pipe_read (Suc m) env fd count k =
    Some ((int (min count (ring_len (p_ring (pipes k p)))), take count (ring_list (p_ring (pipes k p)))), k')"
proof -
  obtain bs r where r: "ring_pop count (p_ring (pipes k p)) = (bs, r)" by fastforce
  then have "bs = take count (ring_list (p_ring (pipes k p)))"
    using ring_pop_queue [OF assms(4) r] by (simp add: queue_pop_def)
  then show ?thesis using pipe_read_eq [OF assms(1-3) r, of m env] assms(5,6) by (simp add: min.commute)
qed

theorem pipe_read_eof_witness:
  "\<exists>k k'. pipe_read 1 (\<lambda>_ k. k) 3 10 k = Some ((0, []), k')"
proof -
  let ?k = "bare_kernel\<lparr>pipes := \<lambda>_. \<lparr>p_used = True, p_ring = new_ring\<rparr>\<rparr>"
  have f: "f_pipe (fds ?k 3) = int 0" "p_used (pipes ?k 0)" "f_flags (fds ?k 3) AND O_NONBLOCK = 0"
    by (simp_all add: bare_kernel_def fds_def)
  have r: "p_ring (pipes ?k 0) = new_ring" by simp
  have w: "\<not> pipe_writers_alive (int 0) ?k" by code_simp
  have "\<exists>k'. pipe_read (Suc 0) (\<lambda>_ k. k) 3 10 ?k =
      Some ((int (min 10 (ring_len (p_ring (pipes ?k 0)))), take 10 (ring_list (p_ring (pipes ?k 0)))), k')"
    by (rule pipe_read_eof) (use f w in \<open>simp_all add: new_ring_ok\<close>)
  then show ?thesis by (auto simp: new_ring_ok simp flip: length_ring_list)
qed

text \<open>A reader that keeps its own write end waits for ever. When a blocking read finds the pipe empty, and some
  live process (the reader itself, say) has the write end open in its table, and nothing the other processes do
  writes to the pipe or closes that end, the read never returns.\<close>

theorem pipe_read_starves:
  assumes "f_pipe (fds k fd) = int p" "p < MAX_PIPES" "p_used (pipes k p)" "f_flags (fds k fd) AND O_NONBLOCK = 0"
    and "ring_empty (p_ring (pipes k p))" "i < MAX_PROC" "state (pcb_table k i) \<noteq> PROC_EMPTY"
    and "fds_tab (pcb_table k i) = Some t" "table_writes (int p) (fd_tables k t)"
    and "\<And>n k'. p_ring (pipes (env n k') p) = p_ring (pipes k' p)"
    and "\<And>n k'. pcb_table (env n k') i = pcb_table k' i \<and> fd_tables (env n k') t = fd_tables k' t"
  shows "pipe_read n env fd count k = None"
proof -
  let ?P = "\<lambda>k'. p_ring (pipes k' p) = p_ring (pipes k p) \<and> pcb_table k' i = pcb_table k i \<and> fd_tables k' t = fd_tables k t"
  have "ring_empty (p_ring (pipes k' p)) \<and> pipe_writers_alive (int p) k'" if "?P k'" for k'
  proof -
    have "\<exists>i \<in> set [0..<MAX_PROC]. state (pcb_table k' i) \<noteq> PROC_EMPTY \<and>
        (case fds_tab (pcb_table k' i) of None \<Rightarrow> False | Some t \<Rightarrow> table_writes (int p) (fd_tables k' t))"
      by (rule bexI [of _ i]) (use that assms(6-9) in \<open>simp_all only: option.case set_upt atLeastLessThan_iff simp_thms zero_le not_False_eq_True\<close>)
    then show ?thesis using that assms(5) unfolding pipe_writers_alive_def list_ex_iff by simp
  qed
  then have "pipe_wait n env p k = None" using pipe_wait_starves [of ?P env p k n] assms(10,11) by simp
  then show ?thesis using assms(1-5) by (simp add: pipe_read_def in_range_def)
qed

theorem pipe_read_starves_witness:
  "\<exists>k. pipe_read 1000 (\<lambda>_ k. k) 3 10 k = None"
proof -
  let ?t = "(fds bare_kernel)(3 := pipe_end 0 0 False (fds bare_kernel 3), 4 := pipe_end 0 0 True (fds bare_kernel 4))"
  let ?k = "bare_kernel\<lparr>pipes := \<lambda>_. \<lparr>p_used = True, p_ring = new_ring\<rparr>, fdtab := 1, fd_tables := \<lambda>_. ?t,
    pcb_table := (pcb_table bare_kernel)(1 := (pcb_table bare_kernel 1)\<lparr>fds_tab := Some 1\<rparr>)\<rparr>"
  have w: "table_writes (int 0) (fd_tables ?k 1)" by code_simp
  have "pipe_read 1000 (\<lambda>_ k. k) 3 10 ?k = None"
    by (rule pipe_read_starves [of ?k 3 0 1 1])
      (use w in \<open>simp_all add: fds_def pipe_end_def ring_empty_def new_ring_def bare_kernel_def\<close>)
  then show ?thesis by blast
qed

text \<open>\<^verbatim>\<open>SYS_socketpair\<close> connects a socket to itself. Both descriptors it returns name the same socket, which is
  its own peer: what is sent through the first descriptor is received through the first descriptor again.\<close>

theorem socketpair_self:
  assumes "sys_socketpair d out k = ((0, Some (a, b)), k1)"
  shows "f_sock (fds k1 a) = f_sock (fds k1 b) \<and>
    (\<forall>bs n k2. bs \<noteq> [] \<and> length bs \<le> 4096 \<and> sys_sendto (int a) bs k1 = (n, k2) \<longrightarrow>
       n = int (length bs) \<and> fst (sys_recvfrom (int a) (length bs) k2) = (int (length bs), bs))"
proof -
  obtain s e e' t where s: "s < MAX_SOCKS" "3 \<le> a" "a < MAX_FDS" "fds k1 a = sock_fd s 0 e" "fds k1 b = sock_fd s 0 e'"
      "socks k1 s = init_sock (int s) t"
    using socketpair_success [OF assms] by blast
  have sp: "s_peer (socks k1 s) = int s" "s_used (socks k1 s)" using s(6) by (simp_all add: init_sock_def)
  have fi: "fd_is 3 FD_SOCK (int a) k1" using s(2-4) by (simp add: fd_is_def fd_in_def sock_fd_def)
  have r0: "ring_ok (s_ring (socks k1 s))" "ring_list (s_ring (socks k1 s)) = []"
    using s(6) by (simp_all add: init_sock_def ring_ok_def ring_list_def ring_len_def)
  have "n = int (length bs) \<and> fst (sys_recvfrom (int a) (length bs) k2) = (int (length bs), bs)"
    if "bs \<noteq> []" "length bs \<le> 4096" "sys_sendto (int a) bs k1 = (n, k2)" for bs n k2
  proof -
    have p: "sock_push (int s) bs k1 = (n, k2)"
      using that(3) fi s(1,4) sp by (simp add: sys_sendto_def sock_fd_def in_range_def)
    moreover have "\<not> ring_full (s_ring (socks k1 s))" using r0(2) by (simp add: ring_full_len flip: length_ring_list)
    ultimately have "0 \<le> n" using s(1) sp by (auto simp: sock_push_def in_range_def split: prod.splits)
    then obtain l where l: "n = int l" "ring_push bs (s_ring (socks k1 s)) = (l, s_ring (socks k2 s))"
        "s_used (socks k2 s)" "fds k2 = fds k1"
      using sock_push_eq [OF p] by blast
    obtain bs' r' where r': "ring_pop (length bs) (s_ring (socks k2 s)) = (bs', r')" by fastforce
    have ok: "l = length bs \<and> bs' = bs" using rc.send_receive [OF r0 that(2) l(2) order_refl r'] by blast
    have "ring_list (s_ring (socks k2 s)) = bs"
      using ring_push_queue [OF r0(1) l(2)] ok r0(2) by (auto simp: queue_push_def Let_def)
    then have "\<not> ring_empty (s_ring (socks k2 s))" using that(1) by (auto simp: ring_empty_len simp flip: length_ring_list)
    then show ?thesis
      using ok l r' s(1-4)
      by (simp add: sys_recvfrom_def fd_is_def fd_in_def sock_fd_def in_range_def sock_pop_def on_sock_def)
  qed
  then show ?thesis using s(4,5) by (simp add: sock_fd_def)
qed

theorem socketpair_self_witness:
  "\<exists>k1. sys_socketpair 1 1 bare_kernel = ((0, Some (3, 4)), k1) \<and> f_sock (fds k1 3) = f_sock (fds k1 4)"
proof -
  have f: "fst (sys_socketpair 1 1 bare_kernel) = (0, Some (3, 4))" by code_simp
  then obtain k1 where k1: "sys_socketpair 1 1 bare_kernel = ((0, Some (3, 4)), k1)"
    by (cases "sys_socketpair 1 1 bare_kernel") simp
  show ?thesis using socketpair_self [OF k1] k1 by blast
qed

text \<open>\<^verbatim>\<open>SYS_dup2\<close> of an open descriptor onto itself closes it: the call reports success, but afterwards the
  descriptor is free.\<close>

theorem dup2_same_closes:
  assumes "fd_in 3 fd k"
  shows "fst (sys_dup2 fd fd k) = fd \<and> \<not> f_used (fds (snd (sys_dup2 fd fd k)) (nat fd))"
  using assms by (simp add: sys_dup2_def dup_source_def fd_in_def in_range_def dup_close_def Let_def)

theorem dup2_same_closes_witness:
  "\<exists>k. f_used (fds k 3) \<and> fst (sys_dup2 3 3 k) = 3 \<and> \<not> f_used (fds (snd (sys_dup2 3 3 k)) 3)"
proof -
  let ?k = "snd (sys_eventfd2 0 bare_kernel)"
  have "f_used (fds ?k 3)" by code_simp
  then show ?thesis using dup2_same_closes [of 3 ?k] by (auto simp: fd_in_def)
qed

text \<open>\<^verbatim>\<open>SYS_dup2\<close> onto one end of a pipe destroys the pipe for everybody: any other descriptor of that pipe, in
  whatever table, can no longer be written or read.\<close>

theorem dup2_kills_pipe:
  assumes "fd_is 3 FD_PIPE newfd k" "f_pipe (fds k (nat newfd)) = int p" "p < MAX_PIPES"
    and "dup_source oldfd k" "sys_dup2 oldfd newfd k = (r, k')"
    and "f_pipe (fds k' fd) = int p"
  shows "pipe_write fd bs k' = (-1, k') \<and> pipe_read n env fd count k' = Some ((-1, []), k')"
proof -
  have "\<not> p_used (pipes k' p)"
    using assms by (auto simp: sys_dup2_def dup_close_def fd_is_def fd_in_def in_range_def Let_def)
  then show ?thesis using assms(6) by (simp add: pipe_write_def pipe_read_def)
qed

theorem dup2_kills_pipe_witness:
  "\<exists>k k'. sys_dup2 0 4 k = (4, k') \<and> f_wend (fds k 4) \<and> pipe_read 1 (\<lambda>_ k. k) 3 10 k' = Some ((-1, []), k')"
proof -
  let ?k = "snd (sys_pipe2 1 0 bare_kernel)"
  have e: "fd_is 3 FD_PIPE 4 ?k" "f_pipe (fds ?k (nat 4)) = int 0" "dup_source 0 ?k" "f_wend (fds ?k 4)"
    by (code_simp, code_simp, code_simp, code_simp)
  have d: "fst (sys_dup2 0 4 ?k) = 4" "f_pipe (fds (snd (sys_dup2 0 4 ?k)) 3) = int 0" by (code_simp, code_simp)
  obtain k' where k': "sys_dup2 0 4 ?k = (4, k')" using d(1) by (cases "sys_dup2 0 4 ?k") simp
  then show ?thesis
    using dup2_kills_pipe [OF e(1,2) _ e(3) k', of 3 "[]" 1 "\<lambda>_ k. k" 10] d(2) e(4) by auto
qed

text \<open>C24: bytes sent before a connection is accepted never arrive. After \<^verbatim>\<open>SYS_connect\<close> the peer of the client is the
  listening socket itself, so \<^verbatim>\<open>SYS_sendto\<close> puts the bytes into the listener's buffer; the socket \<^verbatim>\<open>SYS_accept\<close>
  creates for the connection starts with an empty buffer.\<close>

theorem connect_data_lost:
  assumes "sys_connect cfd path k = (0, k1)" "sock_by_path path k = Some srv" "ring_ok (s_ring (socks k1 srv))"
    and "sys_sendto cfd bs k1 = (n, k2)" "0 \<le> n" "sys_accept lfd 0 k2 = (nfd, k3)" "0 \<le> nfd"
  shows "ring_list (s_ring (socks k2 srv)) = ring_list (s_ring (socks k1 srv)) @ take (nat n) bs \<and>
    ring_list (s_ring (socks k3 (nat (f_sock (fds k3 (nat nfd)))))) = []"
proof -
  let ?s = "f_sock (fds k (nat cfd))"
  have c: "fd_is 3 FD_SOCK cfd k" "in_range MAX_SOCKS ?s"
    using assms(1,2) by (auto simp: sys_connect_def Let_def split: if_splits)
  then have k1: "fds k1 = fds k" "s_peer (socks k1 (nat ?s)) = int srv"
    using assms(1,2) by (auto simp: sys_connect_def Let_def split: if_splits)
  then have "sock_push (int srv) bs k1 = (n, k2)"
    using assms(4) c by (simp add: sys_sendto_def fd_is_def fd_in_def)
  then obtain m where m: "n = int m" "ring_push bs (s_ring (socks k1 srv)) = (m, s_ring (socks k2 srv))"
    using sock_push_eq assms(5) by blast
  then have first: "ring_list (s_ring (socks k2 srv)) = ring_list (s_ring (socks k1 srv)) @ take (nat n) bs"
    using ring_push_queue [OF assms(3) m(2)] by (auto simp: queue_push_def Let_def)
  obtain ns where "rpos (s_ring (socks k3 ns)) = wpos (s_ring (socks k3 ns))" "f_sock (fds k3 (nat nfd)) = int ns"
    using accept_success [OF assms(6,7)] by blast
  then show ?thesis using first by (simp add: ring_list_def ring_len_def)
qed

theorem connect_data_lost_witness:
  "\<exists>k k1 k2 k3. sys_connect 4 (Some ''/s'') k = (0, k1) \<and> sys_sendto 4 [7, 8] k1 = (2, k2) \<and>
    sys_accept 3 0 k2 = (5, k3) \<and> ring_list (s_ring (socks k2 0)) = [7, 8] \<and>
    ring_list (s_ring (socks k3 (nat (f_sock (fds k3 5))))) = []"
proof -
  let ?k0 = "snd (sys_socket 1 0 bare_kernel)"
  let ?k = "snd (sys_socket 1 0 (snd (sys_listen 3 (snd (sys_bind 3 (Some ''/s'') ?k0)))))"
  let ?c = "sys_connect 4 (Some ''/s'') ?k"
  let ?w = "sys_sendto 4 [7, 8] (snd ?c)"
  have f: "fst ?c = 0" "fst ?w = 2" "fst (sys_accept 3 0 (snd ?w)) = 5" by (code_simp, code_simp, code_simp)
  have b: "sock_by_path (Some ''/s'') ?k = Some 0" by code_simp
  have l: "ring_len (s_ring (socks (snd ?c) 0)) = 0" by code_simp
  obtain k1 k2 k3 where k: "?c = (0, k1)" "sys_sendto 4 [7, 8] k1 = (2, k2)" "sys_accept 3 0 k2 = (5, k3)"
    using f by (metis prod.collapse)
  have "ring_ok (s_ring (socks k1 0))" "ring_list (s_ring (socks k1 0)) = []"
    using l k(1) by (simp_all add: ring_ok_def ring_list_def)
  then show ?thesis using connect_data_lost [OF k(1) b _ k(2) _ k(3)] k by auto
qed

end
