(* ===== verification/Console.thy ===== *)
theory Console
  imports Prelude
begin

text \<open>
  \<^verbatim>\<open>kernel/console.c\<close>: the text console. The framebuffer is what was drawn last in each character cell, the
  serial port the list of the bytes sent to it. A row of \<^verbatim>\<open>scrollback\<close> has 80 cells; the code reaches the
  cell behind the last one of a row, which in the array is the first cell of the next row. \<^verbatim>\<open>char\<close> is
  signed, so bytes from 128 on compare as negative. The redirection buffer is the list of the bytes stored
  in it besides the terminator, and its size.
\<close>

abbreviation CONSOLE_COLS :: nat where "CONSOLE_COLS \<equiv> 80"
abbreviation CONSOLE_ROWS :: nat where "CONSOLE_ROWS \<equiv> 45"
abbreviation SCROLLBACK :: nat where "SCROLLBACK \<equiv> 200"
abbreviation blank :: u8 where "blank \<equiv> 0x20"

record console =
  scrollback :: "nat \<Rightarrow> u8"
  cursor_row :: nat
  cursor_col :: nat
  scroll_start :: nat
  fg_color :: u32
  bg_color :: u32
  cursor_visible :: bool
  term_out :: "(u8 list \<times> int) option"
  shown :: "nat \<Rightarrow> nat \<Rightarrow> u8"
  serial :: "u8 list"

text \<open>The cell at a row and a column of the array, which is laid out row by row.\<close>

definition cell :: "nat \<Rightarrow> nat \<Rightarrow> nat" where "cell r c = r * CONSOLE_COLS + c"

definition console_init :: "console \<Rightarrow> console" where
  "console_init t = t\<lparr>scrollback := (\<lambda>_. blank), cursor_row := 0, cursor_col := 0, scroll_start := 0, shown := (\<lambda>_ _. blank)\<rparr>"

definition console_set_fg :: "u32 \<Rightarrow> console \<Rightarrow> console" where "console_set_fg c t = t\<lparr>fg_color := c\<rparr>"
definition console_set_bg :: "u32 \<Rightarrow> console \<Rightarrow> console" where "console_set_bg c t = t\<lparr>bg_color := c\<rparr>"

definition newline :: "console \<Rightarrow> console" where
  "newline t =
    (let t = t\<lparr>cursor_col := 0, cursor_row := cursor_row t + 1\<rparr> in
     if cursor_row t \<ge> CONSOLE_ROWS then
       t\<lparr>cursor_row := CONSOLE_ROWS - 1,
         scrollback := (\<lambda>a. if a < cell (SCROLLBACK - 1) 0 then scrollback t (a + CONSOLE_COLS)
                            else if a < cell SCROLLBACK 0 then blank else scrollback t a),
         scroll_start := 0\<rparr>
     else t)"

definition abs_row :: "nat \<Rightarrow> console \<Rightarrow> nat" where "abs_row r t = scroll_start t + r"

definition render_row :: "nat \<Rightarrow> console \<Rightarrow> console" where
  "render_row r t =
    (let ar = abs_row r t in
     if ar \<ge> SCROLLBACK then t
     else t\<lparr>shown := (shown t)(r := (\<lambda>c. if c < CONSOLE_COLS then scrollback t (cell ar c) else shown t r c))\<rparr>)"

definition render_all :: "console \<Rightarrow> console" where
  "render_all t = fold render_row [0..<CONSOLE_ROWS] t"

definition console_clear :: "console \<Rightarrow> console" where
  "console_clear t = t\<lparr>scrollback := (\<lambda>_. blank), cursor_row := 0, cursor_col := 0, scroll_start := 0, shown := (\<lambda>_ _. blank)\<rparr>"

definition set_cell :: "nat \<Rightarrow> u8 \<Rightarrow> console \<Rightarrow> console" where
  "set_cell a c t = t\<lparr>scrollback := (scrollback t)(a := c)\<rparr>"

definition serial_putc :: "u8 \<Rightarrow> console \<Rightarrow> console" where
  "serial_putc c t = t\<lparr>serial := serial t @ [c]\<rparr>"

definition console_putchar :: "u8 \<Rightarrow> console \<Rightarrow> console" where
  "console_putchar c t =
    (case term_out t of
       Some (out, mx) \<Rightarrow>
         serial_putc c (if int (length out) < mx - 1 then t\<lparr>term_out := Some (out @ [c], mx)\<rparr> else t)
     | None \<Rightarrow>
         serial_putc c
           (if c = 0x0A then
              render_all (newline (set_cell (cell (abs_row (cursor_row t) t) (cursor_col t)) blank t))
            else if c = 0x08 then
              if cursor_col t > 0 then
                let t = t\<lparr>cursor_col := cursor_col t - 1\<rparr>
                in render_row (cursor_row t) (set_cell (cell (abs_row (cursor_row t) t) (cursor_col t)) blank t)
              else t
            else if sint c \<ge> 0x20 then
              let t = (if cursor_col t \<ge> CONSOLE_COLS then newline t else t);
                  t = render_row (cursor_row t) (set_cell (cell (abs_row (cursor_row t) t) (cursor_col t)) c t)
              in t\<lparr>cursor_col := cursor_col t + 1\<rparr>
            else t))"

definition console_write :: "u8 list \<Rightarrow> console \<Rightarrow> console" where
  "console_write s t = fold console_putchar s t"

definition console_set_output_buffer :: "(u8 list \<times> int) option \<Rightarrow> console \<Rightarrow> console" where
  "console_set_output_buffer b t = t\<lparr>term_out := b\<rparr>"

definition console_show_cursor :: "bool \<Rightarrow> console \<Rightarrow> console" where
  "console_show_cursor b t = t\<lparr>cursor_visible := b\<rparr>"

section \<open>Formatted output\<close>

text \<open>The arguments of \<^verbatim>\<open>console_printf\<close>: strings and numbers. A number is a positive \<^verbatim>\<open>int\<close> while its
  digits are produced; the negation of the least one is negative again.\<close>

datatype parg = PStr "u8 list" | PInt "32 word"

function digits_up :: "32 word \<Rightarrow> u8 list" where
  "digits_up v = (if sint v > 0 then (0x30 + ucast (v mod 10)) # digits_up (v div 10) else [])"
  by pat_completeness auto
termination
proof (relation "measure unat", goal_cases)
  case (2 v)
  then have "v \<noteq> 0" by auto
  then show ?case by (simp add: unat_div unat_gt_0)
qed simp

function hex_up :: "32 word \<Rightarrow> u8 list" where
  "hex_up v = (if v > 0 then (if v mod 16 < 10 then 0x30 + ucast (v mod 16) else 0x61 + ucast (v mod 16) - 10) # hex_up (v div 16) else [])"
  by pat_completeness auto
termination
proof (relation "measure unat", goal_cases)
  case (2 v)
  then show ?case by (simp add: unat_div word_less_nat_alt)
qed simp

definition dec_arg :: "32 word \<Rightarrow> u8 list" where
  "dec_arg v =
    (let sg = (if sint v < 0 then [0x2D] else []); v = (if sint v < 0 then - v else v)
     in sg @ rev ((if v = 0 then [0x30] else []) @ digits_up v))"

definition hex_arg :: "32 word \<Rightarrow> u8 list" where
  "hex_arg v = [0x30, 0x78] @ rev ((if v = 0 then [0x30] else []) @ hex_up v)"

text \<open>The bytes stored in the array \<^verbatim>\<open>buf\<close> of 256 bytes, a \<open>fuel\<close>-free recursion over the format. The test
  that ends the loop early comes only after a conversion.\<close>

fun format_bytes :: "u8 list \<Rightarrow> u8 list \<Rightarrow> parg list \<Rightarrow> u8 list option" where
  "format_bytes buf [] ap = Some buf"
| "format_bytes buf (c # f) ap =
    (if c \<noteq> 0x25 then format_bytes (buf @ [c]) f ap
     else case f of
       [] \<Rightarrow> None
     | d # f \<Rightarrow>
         (let next = (\<lambda>b ap. if length b \<ge> 250 then Some b else format_bytes b f ap) in
          if d = 0x73 then (case ap of PStr s # ap \<Rightarrow> next (buf @ s) ap | _ \<Rightarrow> None)
          else if d = 0x64 then (case ap of PInt v # ap \<Rightarrow> next (buf @ dec_arg v) ap | _ \<Rightarrow> None)
          else if d = 0x78 \<or> d = 0x58 then (case ap of PInt v # ap \<Rightarrow> next (buf @ hex_arg v) ap | _ \<Rightarrow> None)
          else next buf ap))"

text \<open>Writing behind the array has no result.\<close>

definition console_printf :: "u8 list \<Rightarrow> parg list \<Rightarrow> console \<Rightarrow> console option" where
  "console_printf fmt ap t =
    (case format_bytes [] fmt ap of
       None \<Rightarrow> None
     | Some buf \<Rightarrow> if length buf < 256 then Some (console_write (takeWhile (\<lambda>c. c \<noteq> 0) buf) t) else None)"

declare digits_up.simps [simp del] hex_up.simps [simp del]

end
