(* ===== verification/FileCalls.thy ===== *)
theory FileCalls
  imports Vfs Descriptors Console
begin

text \<open>
  The system calls on files, terminals and devices of \<^verbatim>\<open>syscall.c\<close>, composed from the descriptor tables,
  the virtual file system and the console. The keyboard and mouse drivers are written in Zig; their entry
  points are the fields of \<open>dev_api\<close>, over a state of any type \<open>'d\<close>, and \<open>irq\<close> is what an interrupt does to
  it while the kernel waits. The first argument \<open>n\<close> bounds the clusters a directory walk may visit and the
  rounds a blocking call waits; \<open>None\<close> is a call that has not returned by then. Numbers that are printed on
  the serial port for debugging are left out.
\<close>

record 'd dev_api =
  keyboard_avail :: "'d \<Rightarrow> bool"
  keyboard_read :: "'d \<Rightarrow> u8 \<times> 'd"
  kbd_raw_avail :: "'d \<Rightarrow> bool"
  kbd_raw_read :: "'d \<Rightarrow> u8 \<times> 'd"
  mice_avail :: "'d \<Rightarrow> bool"
  mice_read :: "'d \<Rightarrow> u8 \<times> 'd"
  irq :: "'d \<Rightarrow> 'd"

text \<open>The older interface of the ext2 driver, which some calls use directly\<close>

record 'e ext2_old =
  ext2_read_file :: "string \<Rightarrow> nat \<Rightarrow> 'e \<Rightarrow> int \<times> u8 list"
  ext2_stat :: "string \<Rightarrow> 'e \<Rightarrow> u32 option"

record ('e, 'd) sys =
  kern :: kernel
  files :: "'e vfs"
  con :: console
  dev :: 'd
  g_use_ext2 :: bool
  cur_umask :: u32

definition on_kern :: "(kernel \<Rightarrow> 'a \<times> kernel) \<Rightarrow> ('e, 'd) sys \<Rightarrow> 'a \<times> ('e, 'd) sys" where
  "on_kern h s = (case h (kern s) of (r, k) \<Rightarrow> (r, s\<lparr>kern := k\<rparr>))"

definition on_files :: "('e vfs \<Rightarrow> ('a \<times> 'e vfs) option) \<Rightarrow> ('e, 'd) sys \<Rightarrow> ('a \<times> ('e, 'd) sys) option" where
  "on_files h s = map_option (\<lambda>(r, v). (r, s\<lparr>files := v\<rparr>)) (h (files s))"

definition on_fat32 :: "(fat_fs \<Rightarrow> ('a \<times> fat_fs) option) \<Rightarrow> ('e, 'd) sys \<Rightarrow> ('a \<times> ('e, 'd) sys) option" where
  "on_fat32 h s = map_option (\<lambda>(r, f). (r, s\<lparr>files := (files s)\<lparr>fat := f\<rparr>\<rparr>)) (h (fat (files s)))"

definition cur_fd :: "('e, 'd) sys \<Rightarrow> int \<Rightarrow> fdent" where "cur_fd s fd = fds (kern s) (nat fd)"

definition upd_fd :: "int \<Rightarrow> fdent \<Rightarrow> ('e, 'd) sys \<Rightarrow> ('e, 'd) sys" where
  "upd_fd fd e s = s\<lparr>kern := set_fd (nat fd) e (kern s)\<rparr>"

section \<open>Reading and looking up files\<close>

definition fs_read_file :: "'e ext2_old \<Rightarrow> nat \<Rightarrow> string \<Rightarrow> nat \<Rightarrow> ('e, 'd) sys \<Rightarrow> (int \<times> u8 list) option" where
  "fs_read_file old n name count s =
    (if g_use_ext2 s then Some (ext2_read_file old name count (ext (files s)))
     else fat32_read_file n name count (fat (files s)))"

definition vfs_stat_size :: "'e ext2_api \<Rightarrow> nat \<Rightarrow> string \<Rightarrow> ('e, 'd) sys \<Rightarrow> (u32 \<times> u8) option option" where
  "vfs_stat_size api n name s =
    (if g_use_ext2 s then
       Some (map_option (\<lambda>(sz, is_dir). (sz, if is_dir then 0x10 else 0x20)) (ext2new_stat api name (ext (files s))))
     else map_option (map_option (\<lambda>e. (de_size e, de_attr e))) (fat32_stat n name (fat (files s))))"

section \<open>Writing\<close>

definition le64 :: "u8 list \<Rightarrow> u64" where
  "le64 bs = foldr (\<lambda>b v. push_bit 8 v OR ucast b) bs 0"

definition bytes64 :: "u64 \<Rightarrow> u8 list" where
  "bytes64 v = map (\<lambda>i. ucast (drop_bit (8 * i) v)) [0..<8]"

text \<open>The branch of \<^verbatim>\<open>do_write_fd\<close> for files\<close>

definition file_write :: "'e ext2_api \<Rightarrow> nat \<Rightarrow> int \<Rightarrow> u8 list \<Rightarrow> ('e, 'd) sys \<Rightarrow> (int \<times> ('e, 'd) sys) option" where
  "file_write api n fd bs s =
    (let name = f_name (cur_fd s fd); count = length bs in
     if g_use_ext2 s then
       case vfs_stat_size_attr api n name (files s) of
         None \<Rightarrow> None
       | Some st \<Rightarrow>
           (case (if st = None then on_files (vfs_create_file api n name) s else Some (0, s)) of
              None \<Rightarrow> None
            | Some (r, s) \<Rightarrow>
                if r \<noteq> 0 then Some (-1, s)
                else
                  let cursz = (case st of None \<Rightarrow> 0 | Some (sz, _) \<Rightarrow> sz);
                      e = cur_fd s fd;
                      s = (if f_pos e = 0 then upd_fd fd (e\<lparr>f_pos := cursz\<rparr>) s else s)
                  in case on_files (vfs_write_at api n name bs (f_pos (cur_fd s fd))) s of
                       None \<Rightarrow> None
                     | Some (w, s) \<Rightarrow>
                         if w < 0 then Some (-1, s)
                         else let e = cur_fd s fd
                              in Some (int count, upd_fd fd (e\<lparr>f_pos := f_pos e + of_nat count\<rparr>) s))
     else
       case on_fat32 (fat32_write_file n name bs) s of
         None \<Rightarrow> None
       | Some (r, s) \<Rightarrow>
           if r \<ge> 0 then Some (int count, s)
           else case on_fat32 (fat32_create_file n name) s of
             None \<Rightarrow> None
           | Some (c, s) \<Rightarrow>
               if c \<noteq> 0 then Some (-1, s)
               else map_option (\<lambda>(r, s). (if r \<ge> 0 then int count else -1, s)) (on_fat32 (fat32_write_file n name bs) s))"

definition do_write_fd :: "'e ext2_api \<Rightarrow> nat \<Rightarrow> int \<Rightarrow> u8 list \<Rightarrow> ('e, 'd) sys \<Rightarrow> (int \<times> ('e, 'd) sys) option" where
  "do_write_fd api n fd bs s =
    (let k = kern s; e = cur_fd s fd in
     if fd_is 0 FD_PIPE fd k then Some (on_kern (pipe_write (nat fd) bs) s)
     else if fd_is 3 FD_EVENT fd k then
       Some (int (length bs), if length bs \<ge> 8 then upd_fd fd (e\<lparr>f_counter := f_counter e + le64 (take 8 bs)\<rparr>) s else s)
     else if fd_is 3 FD_SOCK fd k then
       let peer = (if in_range MAX_SOCKS (f_sock e) then s_peer (socks k (nat (f_sock e))) else -1)
       in Some (on_kern (sock_push peer bs) s)
     else if fd_in 3 fd k then file_write api n fd bs s
     else if fd = 1 \<or> fd = 2 then Some (int (length bs), s\<lparr>con := fold console_putchar bs (con s)\<rparr>)
     else Some (-1, s))"

definition sys_write :: "'e ext2_api \<Rightarrow> nat \<Rightarrow> int \<Rightarrow> u8 list \<Rightarrow> ('e, 'd) sys \<Rightarrow> (int \<times> ('e, 'd) sys) option" where
  "sys_write api n fd bs s = do_write_fd api n fd bs s"

text \<open>The loop of \<^verbatim>\<open>SYS_writev\<close> with the bytes written so far and whether a write failed\<close>

fun writev_loop ::
    "'e ext2_api \<Rightarrow> nat \<Rightarrow> int \<Rightarrow> u8 list list \<Rightarrow> int \<Rightarrow> ('e, 'd) sys \<Rightarrow> ((int \<times> bool) \<times> ('e, 'd) sys) option" where
  "writev_loop api n fd [] tot s = Some ((tot, False), s)"
| "writev_loop api n fd (v # vs) tot s =
    (case do_write_fd api n fd v s of
       None \<Rightarrow> None
     | Some (r, s) \<Rightarrow> if r < 0 then Some ((tot, True), s) else writev_loop api n fd vs (tot + r) s)"

definition sys_writev :: "'e ext2_api \<Rightarrow> nat \<Rightarrow> int \<Rightarrow> u8 list list \<Rightarrow> ('e, 'd) sys \<Rightarrow> (int \<times> ('e, 'd) sys) option" where
  "sys_writev api n fd iov s =
    map_option (\<lambda>((tot, err), s). (if err \<and> tot = 0 then -1 else tot, s)) (writev_loop api n fd iov 0 s)"

section \<open>Reading\<close>

text \<open>Waiting for a device: each round an interrupt may come.\<close>

fun dev_wait :: "nat \<Rightarrow> ('d \<Rightarrow> bool) \<Rightarrow> ('d \<Rightarrow> 'd) \<Rightarrow> 'd \<Rightarrow> 'd option" where
  "dev_wait 0 avail step d = None"
| "dev_wait (Suc n) avail step d = (if avail d then Some d else dev_wait n avail step (step d))"

text \<open>The loop of a read from the keyboard: the number of characters returned and the bytes stored. The
  character of control-C is stored and not counted.\<close>

fun read_keys :: "'d dev_api \<Rightarrow> nat \<Rightarrow> nat \<Rightarrow> 'd \<Rightarrow> ((nat \<times> u8 list) \<times> 'd) option" where
  "read_keys da n 0 d = Some ((0, []), d)"
| "read_keys da n (Suc count) d =
    (case dev_wait n (keyboard_avail da) (irq da) d of
       None \<Rightarrow> None
     | Some d \<Rightarrow>
         (case keyboard_read da d of (c, d) \<Rightarrow>
            if c = 0x0A then Some ((1, [c]), d)
            else if c = 3 then Some ((0, [c]), d)
            else map_option (\<lambda>((i, bs), d). ((Suc i, c # bs), d)) (read_keys da n count d)))"

text \<open>The raw bytes that are there\<close>

fun drain :: "('d \<Rightarrow> bool) \<Rightarrow> ('d \<Rightarrow> u8 \<times> 'd) \<Rightarrow> nat \<Rightarrow> 'd \<Rightarrow> u8 list \<times> 'd" where
  "drain avail rdd 0 d = ([], d)"
| "drain avail rdd (Suc count) d =
    (if avail d then case rdd d of (c, d) \<Rightarrow> (case drain avail rdd count d of (bs, d) \<Rightarrow> (c # bs, d)) else ([], d))"

definition raw_read ::
    "nat \<Rightarrow> ('d \<Rightarrow> bool) \<Rightarrow> ('d \<Rightarrow> u8 \<times> 'd) \<Rightarrow> ('d \<Rightarrow> 'd) \<Rightarrow> bool \<Rightarrow> nat \<Rightarrow> 'd \<Rightarrow> ((int \<times> u8 list) \<times> 'd) option" where
  "raw_read n avail rdd step nonblock count d =
    (case drain avail rdd count d of (bs, d) \<Rightarrow>
       if bs \<noteq> [] then Some ((int (length bs), bs), d)
       else if nonblock then Some ((-11, []), d)
       else map_option (\<lambda>d. case rdd d of (c, d) \<Rightarrow> ((1, [c]), d)) (dev_wait n avail step d))"

definition on_dev :: "('d \<Rightarrow> ('a \<times> 'd) option) \<Rightarrow> ('e, 'd) sys \<Rightarrow> ('a \<times> ('e, 'd) sys) option" where
  "on_dev h s = map_option (\<lambda>(r, d). (r, s\<lparr>dev := d\<rparr>)) (h (dev s))"

definition nonblocking :: "fdent \<Rightarrow> bool" where "nonblocking e \<longleftrightarrow> f_flags e AND O_NONBLOCK \<noteq> 0"

definition file_read ::
    "'e ext2_api \<Rightarrow> nat \<Rightarrow> int \<Rightarrow> nat \<Rightarrow> ('e, 'd) sys \<Rightarrow> ((int \<times> u8 list) \<times> ('e, 'd) sys) option" where
  "file_read api n fd count s =
    (let e = cur_fd s fd in
     case vfs_read_at api n (f_name e) count (f_pos e) (files s) of
       None \<Rightarrow> None
     | Some (r, bs) \<Rightarrow>
         if r < 0 then Some ((-1, []), s) else Some ((r, bs), upd_fd fd (e\<lparr>f_pos := f_pos e + of_int r\<rparr>) s))"

text \<open>\<open>sched i\<close> is what the other processes do in a round of a blocking read of a pipe.\<close>

definition sys_read ::
    "'e ext2_api \<Rightarrow> 'd dev_api \<Rightarrow> nat \<Rightarrow> (nat \<Rightarrow> kernel \<Rightarrow> kernel) \<Rightarrow> int \<Rightarrow> nat \<Rightarrow> ('e, 'd) sys \<Rightarrow>
      ((int \<times> u8 list) \<times> ('e, 'd) sys) option" where
  "sys_read api da n sched fd count s =
    (let k = kern s; e = cur_fd s fd in
     if fd_is 0 FD_PIPE fd k then
       map_option (\<lambda>(r, k). (r, s\<lparr>kern := k\<rparr>)) (pipe_read n sched (nat fd) count k)
     else if fd = 0 \<and> count > 0 then
       if nonblocking (fds k 0) \<and> \<not> keyboard_avail da (dev s) then Some ((-11, []), s)
       else on_dev (\<lambda>d. map_option (\<lambda>((i, bs), d). ((int i, bs), d)) (read_keys da n count d)) s
     else if fd_is 3 FD_TTY fd k then on_dev (raw_read n (kbd_raw_avail da) (kbd_raw_read da) (irq da) (nonblocking e) count) s
     else if fd_is 3 FD_MICE fd k then on_dev (raw_read n (mice_avail da) (mice_read da) (irq da) (nonblocking e) count) s
     else if fd_is 3 FD_FB fd k then Some ((-1, []), s)
     else if fd_is 3 FD_EVENT fd k then
       if count \<ge> 8 then Some ((int count, bytes64 (f_counter e)), upd_fd fd (e\<lparr>f_counter := 0\<rparr>) s)
       else Some ((int count, []), s)
     else if fd_is 3 FD_TIMER fd k then Some ((int count, if count \<ge> 8 then bytes64 1 else []), s)
     else if fd_is 3 FD_SOCK fd k then Some (on_kern (sock_pop (f_sock e) count) s)
     else if fd_in 3 fd k then file_read api n fd count s
     else Some ((-1, []), s))"

text \<open>\<^verbatim>\<open>readv\<close>: a buffer is its address and its length, the result what is stored at each address.\<close>

fun readv_pipe :: "nat \<Rightarrow> (addr \<times> nat) list \<Rightarrow> kernel \<Rightarrow> (addr \<times> u8 list) list \<times> kernel" where
  "readv_pipe p [] k = ([], k)"
| "readv_pipe p ((base, len) # iov) k =
    (if base = 0 \<or> len = 0 then readv_pipe p iov k
     else case on_pipe (ring_pop len) p k of (bs, k) \<Rightarrow>
       if length bs < len then ([(base, bs)], k)
       else case readv_pipe p iov k of (out, k) \<Rightarrow> ((base, bs) # out, k))"

fun readv_file ::
    "'e ext2_api \<Rightarrow> nat \<Rightarrow> int \<Rightarrow> (addr \<times> nat) list \<Rightarrow> int \<Rightarrow> ('e, 'd) sys \<Rightarrow>
      ((int \<times> (addr \<times> u8 list) list) \<times> ('e, 'd) sys) option" where
  "readv_file api n fd [] tot s = Some ((tot, []), s)"
| "readv_file api n fd ((base, len) # iov) tot s =
    (if base = 0 \<or> len = 0 then readv_file api n fd iov tot s
     else
       let e = cur_fd s fd in
       case vfs_read_at api n (f_name e) len (f_pos e) (files s) of
         None \<Rightarrow> None
       | Some (r, bs) \<Rightarrow>
           if r < 0 then Some ((-1, []), s)
           else
             let s = upd_fd fd (e\<lparr>f_pos := f_pos e + of_int r\<rparr>) s in
             if r < int len then Some ((tot + r, [(base, bs)]), s)
             else map_option (\<lambda>((t, out), s). ((t, (base, bs) # out), s)) (readv_file api n fd iov (tot + r) s))"

definition sys_readv ::
    "'e ext2_api \<Rightarrow> nat \<Rightarrow> int \<Rightarrow> (addr \<times> nat) list \<Rightarrow> ('e, 'd) sys \<Rightarrow>
      ((int \<times> (addr \<times> u8 list) list) \<times> ('e, 'd) sys) option" where
  "sys_readv api n fd iov s =
    (let k = kern s; p = f_pipe (cur_fd s fd) in
     if iov = [] \<or> length iov > 16 then Some ((-1, []), s)
     else if fd_is 3 FD_PIPE fd k then
       if \<not> in_range MAX_PIPES p \<or> \<not> p_used (pipes k (nat p)) then Some ((-1, []), s)
       else case readv_pipe (nat p) iov k of (out, k) \<Rightarrow>
         Some ((int (sum_list (map (length \<circ> snd) out)), out), s\<lparr>kern := k\<rparr>)
     else if fd_in 3 fd k then readv_file api n fd iov 0 s
     else Some ((-1, []), s))"

section \<open>Paths\<close>

text \<open>\<^verbatim>\<open>fixpath\<close> maps the prefix the X server was built with to the root. A path that begins like
  \<^verbatim>\<open>${prefix}\<close> and is shorter than that is read behind its end, which has no result.\<close>

abbreviation XPREFIX :: string where "XPREFIX \<equiv> ''/home/vinberkuko/tipos-musl/prefix''"

definition fixpath :: "string \<Rightarrow> nat \<Rightarrow> string option" where
  "fixpath path buflen =
    (if take 5 path = [CHR ''$'', CHR 0x7B] @ ''pre'' then
       if length path < 9 then None
       else let rest = drop 9 path
            in Some (take (buflen - 1) ((if rest \<noteq> [] \<and> hd rest = CHR ''/'' then [] else ''/'') @ rest))
     else
       let pl = length XPREFIX in
       if take pl path \<noteq> XPREFIX then Some path
       else if length path > pl \<and> path ! pl \<noteq> CHR ''/'' then Some path
       else Some (take (buflen - 1) (CHR ''/'' # drop (Suc pl) path)))"

text \<open>The walk of \<^verbatim>\<open>resolve_at_path\<close> into the directories of a path; empty components are passed over.\<close>

fun at_dirs :: "nat \<Rightarrow> string list \<Rightarrow> fat_fs \<Rightarrow> (bool \<times> fat_fs) option" where
  "at_dirs n [] f = Some (True, f)"
| "at_dirs n (w # ws) f =
    (if w = [] then at_dirs n ws f
     else case fat32_change_dir n w f of
       None \<Rightarrow> None
     | Some (r, f) \<Rightarrow> if r < 0 then Some (False, f) else at_dirs n ws f)"

abbreviation AT_FDCWD :: int where "AT_FDCWD \<equiv> -100"

text \<open>The base name, \<open>None\<close> for failure; the working directory is left at the directory of the file.\<close>

definition resolve_at_path :: "nat \<Rightarrow> int \<Rightarrow> string \<Rightarrow> nat \<Rightarrow> fat_fs \<Rightarrow> (string option \<times> fat_fs) option" where
  "resolve_at_path n dirfd path maxlen f =
    (if path = [] then Some (None, f)
     else case fixpath path 256 of
       None \<Rightarrow> None
     | Some path \<Rightarrow>
         if dirfd \<noteq> AT_FDCWD then Some (None, f)
         else
           let p = take 255 path;
               top = (p \<noteq> [] \<and> hd p = CHR ''/'');
               f = (if top then fat32_set_cwd (root_cluster f) f else f);
               comps = split_path (if top then tl p else p)
           in case at_dirs n (butlast comps) f of
                None \<Rightarrow> None
              | Some (ok, f) \<Rightarrow>
                  Some (if \<not> ok \<or> last comps = [] then None else Some (take (maxlen - 1) (last comps)), f))"

text \<open>The calls save the working directory before they resolve a path and restore it at their end.\<close>

definition with_cwd :: "(fat_fs \<Rightarrow> ('a \<times> fat_fs) option) \<Rightarrow> fat_fs \<Rightarrow> ('a \<times> fat_fs) option" where
  "with_cwd h f = map_option (\<lambda>(r, f'). (r, fat32_set_cwd (fat32_get_cwd f) f')) (h f)"

section \<open>Opening and closing\<close>

definition proc_cwd :: "kernel \<Rightarrow> string" where
  "proc_cwd k = (case process_current k of None \<Rightarrow> ''/'' | Some i \<Rightarrow> cwd (pcb_table k i))"

text \<open>\<^verbatim>\<open>SYS_open\<close> sets the name, the position and the used mark of a free descriptor. The table of the names that
  were opened, which the code keeps to print each once, is left out.\<close>

definition sys_open :: "string \<Rightarrow> ('e, 'd) sys \<Rightarrow> (int \<times> ('e, 'd) sys) option" where
  "sys_open path s =
    (case fixpath path 512 of
       None \<Rightarrow> None
     | Some path \<Rightarrow>
         if str_equal path ''/dev/tty'' \<or> str_equal path ''/dev/stdin'' then Some (0, s)
         else if str_equal path ''/dev/stdout'' then Some (1, s)
         else if str_equal path ''/dev/stderr'' then Some (2, s)
         else case open_dev path (kern s) of (r, k) \<Rightarrow>
           if r \<ge> 0 then Some (r, s\<lparr>kern := k\<rparr>)
           else case alloc_fd k of
             None \<Rightarrow> Some (-1, s)
           | Some fd \<Rightarrow>
               Some (int fd, s\<lparr>kern := set_fd fd ((fds k fd)\<lparr>f_name := take 255 path, f_pos := 0, f_used := True\<rparr>) k\<rparr>))"

definition sys_openat :: "nat \<Rightarrow> int \<Rightarrow> string \<Rightarrow> ('e, 'd) sys \<Rightarrow> (int \<times> ('e, 'd) sys) option" where
  "sys_openat n dirfd path s =
    (case fixpath path VFS_MAX_PATH of
       None \<Rightarrow> None
     | Some path \<Rightarrow>
         (case open_dev path (kern s) of (r, k) \<Rightarrow>
            if r \<ge> 0 then Some (r, s\<lparr>kern := k\<rparr>)
            else case vfs_abs_path (Some (proc_cwd k)) path VFS_MAX_PATH of
              None \<Rightarrow> Some (-1, s)
            | Some abspath \<Rightarrow>
                (case (if g_use_ext2 s then Some (Some (take 254 abspath), fat (files s))
                       else with_cwd (resolve_at_path n dirfd abspath 255) (fat (files s))) of
                   None \<Rightarrow> None
                 | Some (base, f) \<Rightarrow>
                     let s = s\<lparr>files := (files s)\<lparr>fat := f\<rparr>\<rparr> in
                     (case base of
                        None \<Rightarrow> Some (-1, s)
                      | Some base \<Rightarrow>
                          (case alloc_fd k of
                             None \<Rightarrow> Some (-1, s)
                           | Some fd \<Rightarrow>
                               Some (int fd, s\<lparr>kern := set_fd fd ((fds k fd)
                                 \<lparr>f_name := take 255 base, f_type := FD_FILE, f_pos := 0, f_used := True\<rparr>) k\<rparr>))))))"

definition sys_close :: "int \<Rightarrow> ('e, 'd) sys \<Rightarrow> int \<times> ('e, 'd) sys" where
  "sys_close fd s = (0, s\<lparr>kern := close_fd fd (kern s)\<rparr>)"

definition sys_access :: "string \<Rightarrow> int" where "sys_access path = 0"

section \<open>Positions and attributes\<close>

text \<open>What a call stores in the caller's \<^verbatim>\<open>struct stat\<close>: the size in its first field, or the mode and the
  size at the offsets of the C library of the guest.\<close>

datatype stat_out = StSize u32 | StMode u32 u64

definition virtual_dir :: "string \<Rightarrow> bool" where
  "virtual_dir path \<longleftrightarrow> str_equal path ''/tmp/.X11-unix'' \<or> str_equal path ''/tmp''"

abbreviation DIR_MODE :: u32 where "DIR_MODE \<equiv> 0x41ED"
abbreviation REG_MODE :: u32 where "REG_MODE \<equiv> 0x81A4"

definition sys_fstat :: "'e ext2_api \<Rightarrow> nat \<Rightarrow> int \<Rightarrow> ('e, 'd) sys \<Rightarrow> (int \<times> stat_out option) option" where
  "sys_fstat api n fd s =
    (let k = kern s; e = cur_fd s fd in
     if fd_in 3 fd k \<and> f_type e \<in> {FD_FB, FD_TTY, FD_MICE} then Some (0, Some (StSize 0))
     else if fd_in 3 fd k \<and> virtual_dir (f_name e) then Some (0, Some (StMode DIR_MODE 4096))
     else if fd_in 3 fd k then
       map_option (\<lambda>st. case st of None \<Rightarrow> (-1, None) | Some (sz, _) \<Rightarrow> (0, Some (StSize sz))) (vfs_stat_size api n (f_name e) s)
     else if 0 \<le> fd \<and> fd \<le> 2 then Some (0, Some (StSize 0))
     else Some (-1, None))"

definition sys_stat :: "'e ext2_api \<Rightarrow> nat \<Rightarrow> string \<Rightarrow> ('e, 'd) sys \<Rightarrow> (int \<times> stat_out option) option" where
  "sys_stat api n path s =
    (case fixpath path 256 of
       None \<Rightarrow> None
     | Some path \<Rightarrow>
         if virtual_dir path then Some (0, Some (StMode DIR_MODE 4096))
         else case vfs_abs_path (Some (proc_cwd (kern s))) path VFS_MAX_PATH of
           None \<Rightarrow> Some (-1, None)
         | Some absp \<Rightarrow>
             map_option (\<lambda>st. case st of None \<Rightarrow> (-1, None) | Some (sz, _) \<Rightarrow> (0, Some (StSize sz)))
               (vfs_stat_size_attr api n absp (files s)))"

definition sys_lseek :: "'e ext2_api \<Rightarrow> nat \<Rightarrow> int \<Rightarrow> u32 \<Rightarrow> int \<Rightarrow> ('e, 'd) sys \<Rightarrow> (int \<times> ('e, 'd) sys) option" where
  "sys_lseek api n fd off whence s =
    (let e = cur_fd s fd; set = (\<lambda>p. Some (uint p, upd_fd fd (e\<lparr>f_pos := p\<rparr>) s)) in
     if \<not> fd_in 3 fd (kern s) then Some (-1, s)
     else if whence = 0 then set off
     else if whence = 1 then set (f_pos e + off)
     else if whence = 2 then
       (case vfs_stat_size api n (f_name e) s of
          None \<Rightarrow> None
        | Some None \<Rightarrow> Some (uint (f_pos e), s)
        | Some (Some (sz, _)) \<Rightarrow> set (sz + off))
     else Some (-1, s))"

section \<open>Directories\<close>

definition zero_or_error :: "int \<Rightarrow> int" where "zero_or_error r = (if r = 0 then 0 else -1)"

definition sys_unlink :: "nat \<Rightarrow> string \<Rightarrow> ('e, 'd) sys \<Rightarrow> (int \<times> ('e, 'd) sys) option" where
  "sys_unlink n path s = map_option (map_prod zero_or_error id) (on_fat32 (fat32_delete_file n path) s)"

definition sys_mkdir2 :: "nat \<Rightarrow> string \<Rightarrow> ('e, 'd) sys \<Rightarrow> (int \<times> ('e, 'd) sys) option" where
  "sys_mkdir2 n path s =
    (if virtual_dir path then Some (0, s) else map_option (map_prod zero_or_error id) (on_fat32 (fat32_mkdir n path) s))"

definition sys_rmdir2 :: "nat \<Rightarrow> string \<Rightarrow> ('e, 'd) sys \<Rightarrow> (int \<times> ('e, 'd) sys) option" where
  "sys_rmdir2 n path s = map_option (map_prod zero_or_error id) (on_fat32 (fat32_rmdir n path) s)"

text \<open>A path resolved and an operation on its base name in the directory it leads to\<close>

definition at_base :: "nat \<Rightarrow> int \<Rightarrow> string \<Rightarrow> (string \<Rightarrow> fat_fs \<Rightarrow> (int \<times> fat_fs) option) \<Rightarrow> fat_fs \<Rightarrow> (int \<times> fat_fs) option" where
  "at_base n dirfd path h f =
    (case resolve_at_path n dirfd path 256 f of
       None \<Rightarrow> None
     | Some (None, f) \<Rightarrow> Some (-1, f)
     | Some (Some base, f) \<Rightarrow> map_option (map_prod zero_or_error id) (h base f))"

definition sys_mkdirat :: "nat \<Rightarrow> int \<Rightarrow> string \<Rightarrow> ('e, 'd) sys \<Rightarrow> (int \<times> ('e, 'd) sys) option" where
  "sys_mkdirat n dirfd path s =
    (if virtual_dir path then Some (0, s) else on_fat32 (with_cwd (at_base n dirfd path (fat32_mkdir n))) s)"

definition sys_unlinkat :: "nat \<Rightarrow> int \<Rightarrow> string \<Rightarrow> ('e, 'd) sys \<Rightarrow> (int \<times> ('e, 'd) sys) option" where
  "sys_unlinkat n dirfd path s = on_fat32 (with_cwd (at_base n dirfd path (fat32_delete_file n))) s"

definition sys_newfstatat ::
    "'e ext2_old \<Rightarrow> nat \<Rightarrow> int \<Rightarrow> string \<Rightarrow> ('e, 'd) sys \<Rightarrow> ((int \<times> stat_out option) \<times> ('e, 'd) sys) option" where
  "sys_newfstatat old n dirfd path s =
    (if virtual_dir path then Some ((0, Some (StMode DIR_MODE 4096)), s)
     else if g_use_ext2 s then
       (case fixpath path 256 of
          None \<Rightarrow> None
        | Some path \<Rightarrow>
            (case ext2_stat old path (ext (files s)) of
               None \<Rightarrow> Some ((-1, None), s)
             | Some sz \<Rightarrow> Some ((0, Some (StMode REG_MODE (ucast sz))), s)))
     else
       on_fat32 (with_cwd (\<lambda>f.
         case resolve_at_path n dirfd path 256 f of
           None \<Rightarrow> None
         | Some (None, f) \<Rightarrow> Some ((-1, None), f)
         | Some (Some base, f) \<Rightarrow>
             map_option (\<lambda>st. (case st of None \<Rightarrow> (-1, None) | Some e \<Rightarrow> (0, Some (StSize (de_size e))), f)) (fat32_stat n base f))) s)"

definition sys_renameat :: "nat \<Rightarrow> int \<Rightarrow> string \<Rightarrow> int \<Rightarrow> string \<Rightarrow> ('e, 'd) sys \<Rightarrow> (int \<times> ('e, 'd) sys) option" where
  "sys_renameat n dirfd path newdirfd newpath s =
    on_fat32 (with_cwd (\<lambda>f.
      case resolve_at_path n dirfd path 256 f of
        None \<Rightarrow> None
      | Some (None, f) \<Rightarrow> Some (-1, f)
      | Some (Some base, f1) \<Rightarrow>
          let mid = fat32_get_cwd f1 in
          (case resolve_at_path n newdirfd newpath 256 (fat32_set_cwd (fat32_get_cwd f) f1) of
             None \<Rightarrow> None
           | Some (None, f) \<Rightarrow> Some (-1, f)
           | Some (Some newbase, f) \<Rightarrow>
               if fat32_get_cwd f \<noteq> mid then Some (-1, f)
               else map_option (map_prod zero_or_error id) (fat32_rename n base newbase f)))) s"

text \<open>\<^verbatim>\<open>SYS_readdir\<close> restores the working directory only when it could change into the directory.\<close>

definition sys_readdir :: "nat \<Rightarrow> string \<Rightarrow> nat \<Rightarrow> ('e, 'd) sys \<Rightarrow> ((int \<times> (u8 list \<times> u8) list) \<times> ('e, 'd) sys) option" where
  "sys_readdir n path mx s =
    (if mx = 0 then Some ((-1, []), s)
     else on_fat32 (\<lambda>f.
       case fat32_change_dir n path f of
         None \<Rightarrow> None
       | Some (r, f1) \<Rightarrow>
           if r < 0 then Some ((-1, []), f1)
           else map_option (\<lambda>es. ((int (length es), es), fat32_set_cwd (fat32_get_cwd f) f1))
             (fat32_match_prefix n [] (fat32_get_cwd f1) mx f1)) s)"

definition sys_readlink :: "string \<Rightarrow> nat \<Rightarrow> ('e, 'd) sys \<Rightarrow> int \<times> string" where
  "sys_readlink path bufsiz s = do_readlink path bufsiz (kern s)"

text \<open>The fields of \<^verbatim>\<open>struct statfs\<close>\<close>

definition sys_statfs :: "u64 list" where
  "sys_statfs = [0x4D44, 512, 131072, 131072 - 8192, 131072 - 8192, 0, 0]"

section \<open>Waiting for input\<close>

definition fd_readable :: "'d dev_api \<Rightarrow> int \<Rightarrow> ('e, 'd) sys \<Rightarrow> bool" where
  "fd_readable da fd s =
    (let k = kern s; e = cur_fd s fd in
     if fd_is 3 FD_TTY fd k then kbd_raw_avail da (dev s)
     else if fd_is 3 FD_MICE fd k then mice_avail da (dev s)
     else if fd_is 3 FD_SOCK fd k \<and> in_range MAX_SOCKS (f_sock e) then
       let q = socks k (nat (f_sock e)) in rpos (s_ring q) \<noteq> wpos (s_ring q) \<or> s_pending q \<noteq> []
     else False)"

text \<open>One entry of \<^verbatim>\<open>poll\<close>: the number of times it counts\<close>

definition poll_one :: "'d dev_api \<Rightarrow> int \<Rightarrow> ('e, 'd) sys \<Rightarrow> nat" where
  "poll_one da fd s =
    (if fd = 0 \<and> keyboard_avail da (dev s) then 1 else 0) +
    (if fd_is 3 FD_EVENT fd (kern s) \<and> f_counter (cur_fd s fd) > 0 then 1 else 0) +
    (if fd_readable da fd s then 1 else 0)"

text \<open>\<^verbatim>\<open>SYS_poll\<close> and \<^verbatim>\<open>ppoll\<close> look at the first 16 entries; the list holds the \<^verbatim>\<open>revents\<close> stored for them.\<close>

definition sys_poll :: "'d dev_api \<Rightarrow> int list \<Rightarrow> ('e, 'd) sys \<Rightarrow> int \<times> bool list" where
  "sys_poll da pfds s =
    (let ns = map (\<lambda>fd. poll_one da fd s) (take 16 pfds) in (int (sum_list ns), map (\<lambda>c. c > 0) ns))"

text \<open>\<^verbatim>\<open>SYS_select\<close> on the bits of the read set\<close>

definition select_one :: "'d dev_api \<Rightarrow> ('e, 'd) sys \<Rightarrow> nat \<Rightarrow> nat \<times> (nat \<Rightarrow> bool) \<Rightarrow> nat \<times> (nat \<Rightarrow> bool)" where
  "select_one da s i st =
    (case st of (ready, rdd) \<Rightarrow>
       let e = fds (kern s) i;
           readable = f_used e \<and>
             (if f_type e = FD_TTY then kbd_raw_avail da (dev s)
              else if f_type e = FD_MICE then mice_avail da (dev s) else fd_readable da (int i) s)
       in if readable then (Suc ready, rdd(i := True)) else (ready, rdd))"

definition sys_select :: "'d dev_api \<Rightarrow> nat \<Rightarrow> (nat \<Rightarrow> bool) \<Rightarrow> ('e, 'd) sys \<Rightarrow> int \<times> (nat \<Rightarrow> bool)" where
  "sys_select da nfds rdd s =
    (let st = (if keyboard_avail da (dev s) then (1, rdd(0 := True)) else (0, rdd));
         (ready, rdd) = fold (select_one da s) [3..<min nfds MAX_FDS] st
     in (int ready, rdd))"

definition sys_kbhit :: "'d dev_api \<Rightarrow> ('e, 'd) sys \<Rightarrow> int" where
  "sys_kbhit da s = (if keyboard_avail da (dev s) then 1 else 0)"

definition sys_umask :: "u32 \<Rightarrow> ('e, 'd) sys \<Rightarrow> u32 \<times> ('e, 'd) sys" where
  "sys_umask a s = (cur_umask s, s\<lparr>cur_umask := a AND 0x1FF\<rparr>)"

end
