(* ===== verification/LibcString.thy ===== *)
theory LibcString
  imports Prelude
begin

text \<open>
  \<^verbatim>\<open>libc/string.c\<close> and \<^verbatim>\<open>include/ctype.h\<close> of the user-space library, over a store of bytes: a pointer is an
  address, the null pointer is \<open>0\<close>, and two arguments may overlap. A loop that runs to a terminating zero
  does not end when there is none; it is a partial function whose value is then \<open>None\<close>. A loop counter of
  type \<^verbatim>\<open>int\<close> that only counts up to an argument is a natural number, for a negative argument the loop
  does not run. \<^verbatim>\<open>char\<close> is signed: a comparison with an \<^verbatim>\<open>int\<close> argument compares with the signed value.
\<close>

type_synonym cmem = "addr \<Rightarrow> u8"

abbreviation NULL :: addr where "NULL \<equiv> 0"

section \<open>Character classes\<close>

definition isspace :: "u8 \<Rightarrow> bool" where
  "isspace c \<longleftrightarrow> c = 0x20 \<or> c = 0x09 \<or> c = 0x0A \<or> c = 0x0D"

definition isdigit :: "u8 \<Rightarrow> bool" where
  "isdigit c \<longleftrightarrow> sint c \<ge> 0x30 \<and> sint c \<le> 0x39"

definition islower :: "u8 \<Rightarrow> bool" where
  "islower c \<longleftrightarrow> sint c \<ge> 0x61 \<and> sint c \<le> 0x7A"

definition isupper :: "u8 \<Rightarrow> bool" where
  "isupper c \<longleftrightarrow> sint c \<ge> 0x41 \<and> sint c \<le> 0x5A"

definition isalpha :: "u8 \<Rightarrow> bool" where
  "isalpha c \<longleftrightarrow> (sint c \<ge> 0x41 \<and> sint c \<le> 0x5A) \<or> (sint c \<ge> 0x61 \<and> sint c \<le> 0x7A)"

definition isalnum :: "u8 \<Rightarrow> bool" where
  "isalnum c \<longleftrightarrow> isalpha c \<or> isdigit c"

definition isprint :: "u8 \<Rightarrow> bool" where
  "isprint c \<longleftrightarrow> sint c \<ge> 0x20 \<and> sint c \<le> 0x7E"

definition tolower :: "u8 \<Rightarrow> u8" where
  "tolower c = (if isupper c then c + 32 else c)"

definition toupper :: "u8 \<Rightarrow> u8" where
  "toupper c = (if islower c then c - 32 else c)"

section \<open>Strings\<close>

text \<open>The counter of \<^verbatim>\<open>strlen\<close> is an \<^verbatim>\<open>int\<close> in the code and a natural number here: the two differ from strings
  of \<open>2 ^ 31\<close> bytes on.\<close>

partial_function (option) strlen_from :: "cmem \<Rightarrow> addr \<Rightarrow> nat \<Rightarrow> nat option" where
  "strlen_from m s n = (if m (s + of_nat n) \<noteq> 0 then strlen_from m s (Suc n) else Some n)"

definition strlen :: "cmem \<Rightarrow> addr \<Rightarrow> nat option" where
  "strlen m s = strlen_from m s 0"

definition byte_diff :: "u8 \<Rightarrow> u8 \<Rightarrow> int" where
  "byte_diff a b = uint a - uint b"

partial_function (option) strcmp :: "cmem \<Rightarrow> addr \<Rightarrow> addr \<Rightarrow> int option" where
  "strcmp m a b =
    (if m a \<noteq> 0 \<and> m a = m b then strcmp m (a + 1) (b + 1) else Some (byte_diff (m a) (m b)))"

fun strncmp :: "cmem \<Rightarrow> addr \<Rightarrow> addr \<Rightarrow> nat \<Rightarrow> int" where
  "strncmp m a b 0 = 0"
| "strncmp m a b (Suc n) =
    (if m a \<noteq> m b then byte_diff (m a) (m b)
     else if m a = 0 then 0 else strncmp m (a + 1) (b + 1) n)"

partial_function (option) copy_string :: "addr \<Rightarrow> addr \<Rightarrow> cmem \<Rightarrow> cmem option" where
  "copy_string p src m =
    (let c = m src; m = m(p := c) in if c \<noteq> 0 then copy_string (p + 1) (src + 1) m else Some m)"

definition strcpy :: "addr \<Rightarrow> addr \<Rightarrow> cmem \<Rightarrow> cmem option" where
  "strcpy dst src m = copy_string dst src m"

text \<open>The counter of \<^verbatim>\<open>strncpy\<close> is decremented before it is known to be positive: a negative one runs
  through the whole range of \<^verbatim>\<open>int\<close>.\<close>

function strncpy :: "addr \<Rightarrow> addr \<Rightarrow> u32 \<Rightarrow> cmem \<Rightarrow> cmem" where
  "strncpy p src n m =
    (if n = 0 then m
     else let c = m src; m = m(p := c) in if c \<noteq> 0 then strncpy (p + 1) (src + 1) (n - 1) m else m)"
  by pat_completeness auto
termination
  by (relation "measure (\<lambda>(_, _, n, _). unat n)") (auto simp: unat_gt_0 unat_minus_one)

definition strcat :: "addr \<Rightarrow> addr \<Rightarrow> cmem \<Rightarrow> cmem option" where
  "strcat dst src m =
    (case strlen m dst of None \<Rightarrow> None | Some n \<Rightarrow> copy_string (dst + of_nat n) src m)"

partial_function (option) strchr :: "cmem \<Rightarrow> addr \<Rightarrow> int \<Rightarrow> addr option" where
  "strchr m s c =
    (if m s = 0 then Some NULL else if sint (m s) = c then Some s else strchr m (s + 1) c)"

partial_function (option) strrchr_from :: "cmem \<Rightarrow> addr \<Rightarrow> int \<Rightarrow> addr \<Rightarrow> addr option" where
  "strrchr_from m s c p =
    (if m s = 0 then Some p else strrchr_from m (s + 1) c (if sint (m s) = c then s else p))"

definition strrchr :: "cmem \<Rightarrow> addr \<Rightarrow> int \<Rightarrow> addr option" where
  "strrchr m s c = strrchr_from m s c NULL"

partial_function (option) strstr_from :: "cmem \<Rightarrow> addr \<Rightarrow> addr \<Rightarrow> nat \<Rightarrow> addr option" where
  "strstr_from m hay needle nl =
    (if m hay = 0 then Some NULL
     else if strncmp m hay needle nl = 0 then Some hay
     else strstr_from m (hay + 1) needle nl)"

definition strstr :: "cmem \<Rightarrow> addr \<Rightarrow> addr \<Rightarrow> addr option" where
  "strstr m hay needle =
    (case strlen m needle of
       None \<Rightarrow> None
     | Some nl \<Rightarrow> if nl = 0 then Some hay else strstr_from m hay needle nl)"

section \<open>Tokens\<close>

text \<open>The static pointer \<^verbatim>\<open>next\<close> is an argument and a result.\<close>

partial_function (option) skip_delims :: "cmem \<Rightarrow> addr \<Rightarrow> addr \<Rightarrow> addr option" where
  "skip_delims m delim p =
    (if m p = 0 then Some p
     else case strchr m delim (sint (m p)) of
       None \<Rightarrow> None
     | Some q \<Rightarrow> if q \<noteq> NULL then skip_delims m delim (p + 1) else Some p)"

partial_function (option) skip_token :: "cmem \<Rightarrow> addr \<Rightarrow> addr \<Rightarrow> addr option" where
  "skip_token m delim p =
    (if m p = 0 then Some p
     else case strchr m delim (sint (m p)) of
       None \<Rightarrow> None
     | Some q \<Rightarrow> if q = NULL then skip_token m delim (p + 1) else Some p)"

definition strtok :: "addr \<Rightarrow> addr \<Rightarrow> addr \<times> cmem \<Rightarrow> (addr \<times> addr \<times> cmem) option" where
  "strtok str delim st =
    (case st of (nxt, m) \<Rightarrow>
       let nxt = (if str \<noteq> NULL then str else nxt) in
       if nxt = NULL then Some (NULL, nxt, m)
       else case skip_delims m delim nxt of
         None \<Rightarrow> None
       | Some start \<Rightarrow>
           if m start = 0 then Some (NULL, start, m)
           else case skip_token m delim start of
             None \<Rightarrow> None
           | Some p \<Rightarrow> if m p \<noteq> 0 then Some (start, p + 1, m(p := 0)) else Some (start, p, m))"

section \<open>Memory\<close>

definition memset :: "addr \<Rightarrow> int \<Rightarrow> int \<Rightarrow> cmem \<Rightarrow> cmem" where
  "memset s c n m = fold (\<lambda>i m. m(s + of_nat i := of_int c)) [0..<nat n] m"

definition copy_byte :: "addr \<Rightarrow> addr \<Rightarrow> nat \<Rightarrow> cmem \<Rightarrow> cmem" where
  "copy_byte dst src i m = m(dst + of_nat i := m (src + of_nat i))"

definition memcpy :: "addr \<Rightarrow> addr \<Rightarrow> int \<Rightarrow> cmem \<Rightarrow> cmem" where
  "memcpy dst src n m = fold (copy_byte dst src) [0..<nat n] m"

definition memmove :: "addr \<Rightarrow> addr \<Rightarrow> int \<Rightarrow> cmem \<Rightarrow> cmem" where
  "memmove dst src n m =
    (if src > dst then fold (copy_byte dst src) [0..<nat n] m
     else if src \<noteq> dst then fold (copy_byte dst src) (rev [0..<nat n]) m
     else m)"

declare strncpy.simps [simp del]

end
