(* ===== verification/LibcStringProps.thy ===== *)
theory LibcStringProps
  imports LibcString
begin

text \<open>
  What the string functions compute, stated on the contents of the strings: \<open>cstr m s xs\<close> says that the
  bytes \<open>xs\<close>, none of them zero, and a terminating zero stand at \<open>s\<close>.
\<close>

section \<open>Strings in memory\<close>

primrec cstr :: "cmem \<Rightarrow> addr \<Rightarrow> u8 list \<Rightarrow> bool" where
  "cstr m s [] \<longleftrightarrow> m s = 0"
| "cstr m s (x # xs) \<longleftrightarrow> x \<noteq> 0 \<and> m s = x \<and> cstr m (s + 1) xs"

lemma cstr_nonzero: "cstr m s xs \<Longrightarrow> 0 \<notin> set xs"
  by (induction xs arbitrary: s) auto

lemma cstr_drop: "cstr m s xs \<Longrightarrow> k \<le> length xs \<Longrightarrow> cstr m (s + of_nat k) (drop k xs)"
proof (induction xs arbitrary: s k)
  case (Cons x xs)
  then show ?case by (cases k) (auto simp: add.assoc [symmetric])
qed simp

lemma cstr_at: "cstr m s xs \<Longrightarrow> k < length xs \<Longrightarrow> m (s + of_nat k) = xs ! k \<and> xs ! k \<noteq> 0"
proof (induction xs arbitrary: s k)
  case (Cons x xs)
  then show ?case by (cases k) (auto simp: add.assoc [symmetric])
qed simp

lemma cstr_end: "cstr m s xs \<Longrightarrow> m (s + of_nat (length xs)) = 0"
  using cstr_drop [of m s xs "length xs"] by simp

lemma cstrI:
  assumes "\<And>k. k < length xs \<Longrightarrow> m (s + of_nat k) = xs ! k" "m (s + of_nat (length xs)) = 0" "0 \<notin> set xs"
  shows "cstr m s xs"
  using assms
proof (induction xs arbitrary: s)
  case (Cons x xs)
  have "cstr m (s + 1) xs"
    by (rule Cons.IH) (use Cons.prems(1) [of "Suc k" for k] Cons.prems(2,3) in \<open>auto simp: add.assoc\<close>)
  then show ?case using Cons.prems(1) [of 0] Cons.prems(3) by auto
qed simp

lemma cstr_cong:
  assumes "\<And>k. k \<le> length xs \<Longrightarrow> m' (s + of_nat k) = m (s + of_nat k)"
  shows "cstr m' s xs = cstr m s xs"
  using assms
proof (induction xs arbitrary: s)
  case (Cons x xs)
  have "cstr m' (s + 1) xs = cstr m (s + 1) xs"
    by (rule Cons.IH) (use Cons.prems [of "Suc k" for k] in \<open>auto simp: add.assoc\<close>)
  then show ?case using Cons.prems [of 0] by simp
qed (use assms [of 0] in simp)

section \<open>Length and search\<close>

lemma strlen_from_correct: "cstr m s xs \<Longrightarrow> n \<le> length xs \<Longrightarrow> strlen_from m s n = Some (length xs)"
proof (induction "length xs - n" arbitrary: n)
  case 0
  then show ?case using cstr_end [of m s xs] by (subst strlen_from.simps) simp
next
  case (Suc d)
  then have "n < length xs" by simp
  moreover from this have "m (s + of_nat n) \<noteq> 0" using cstr_at [OF Suc.prems(1)] by metis
  moreover have "strlen_from m s (Suc n) = Some (length xs)" using Suc.hyps(1) [of "Suc n"] Suc.hyps(2) Suc.prems \<open>n < length xs\<close> by simp
  ultimately show ?case by (subst strlen_from.simps) simp
qed

lemma strlen_correct: "cstr m s xs \<Longrightarrow> strlen m s = Some (length xs)"
  by (simp add: strlen_def strlen_from_correct)

lemma byte_diff_0 [simp]: "byte_diff a b = 0 \<longleftrightarrow> a = b"
  by (simp add: byte_diff_def word_uint_eq_iff)

lemma strncmp_prefix:
  assumes "cstr m a as" "cstr m b bs" "n = length bs"
  shows "strncmp m a b n = 0 \<longleftrightarrow> (\<exists>zs. as = bs @ zs)"
  using assms
proof (induction bs arbitrary: a b as n)
  case (Cons y bs)
  show ?case
  proof (cases as)
    case Nil
    then show ?thesis using Cons.prems by auto
  next
    case (Cons x as')
    then show ?thesis using Cons.prems Cons.IH [of "a + 1" as' "b + 1" "length bs"] by auto
  qed
qed simp

definition occurs_at :: "u8 list \<Rightarrow> u8 list \<Rightarrow> nat \<Rightarrow> bool" where
  "occurs_at ns hs k \<longleftrightarrow> k \<le> length hs \<and> take (length ns) (drop k hs) = ns"

lemma occurs_prefix: "take (length ns) hs = ns \<longleftrightarrow> (\<exists>zs. hs = ns @ zs)"
  by (metis append_eq_conv_conj append_take_drop_id)

text \<open>The reference: the least position at which the needle occurs.\<close>

definition first_occurrence :: "u8 list \<Rightarrow> u8 list \<Rightarrow> nat option" where
  "first_occurrence ns hs = find (occurs_at ns hs) [0..<Suc (length hs)]"

lemma strstr_from_correct:
  assumes "cstr m h hs" "cstr m n ns" "ns \<noteq> []"
  shows "strstr_from m h n (length ns) =
    Some (case first_occurrence ns hs of None \<Rightarrow> NULL | Some k \<Rightarrow> h + of_nat k)"
  using assms(1)
proof (induction hs arbitrary: h)
  case Nil
  then show ?case using assms(3) by (subst strstr_from.simps) (simp add: first_occurrence_def occurs_at_def)
next
  case (Cons x hs)
  have "strncmp m h n (length ns) = 0 \<longleftrightarrow> occurs_at ns (x # hs) 0"
    using strncmp_prefix [OF Cons.prems assms(2) refl] occurs_prefix [of ns "x # hs"] by (auto simp: occurs_at_def)
  moreover have "first_occurrence ns (x # hs) =
      (if occurs_at ns (x # hs) 0 then Some 0 else map_option Suc (first_occurrence ns hs))"
  proof -
    have "[0..<Suc (length (x # hs))] = 0 # map Suc [0..<Suc (length hs)]"
      unfolding map_Suc_upt by (subst upt_conv_Cons) simp_all
    moreover have "find P (map Suc ys) = map_option Suc (find (P \<circ> Suc) ys)" for P ys
      by (induction ys) auto
    moreover have "occurs_at ns (x # hs) \<circ> Suc = occurs_at ns hs" by (auto simp: occurs_at_def)
    ultimately show ?thesis unfolding first_occurrence_def by (simp del: upt_Suc)
  qed
  moreover have "strstr_from m (h + 1) n (length ns) =
      Some (case first_occurrence ns hs of None \<Rightarrow> NULL | Some k \<Rightarrow> h + 1 + of_nat k)"
    using Cons by simp
  ultimately show ?case using Cons.prems
    by (subst strstr_from.simps) (auto simp: add.assoc split: option.splits)
qed

text \<open>C26: \<^verbatim>\<open>strstr\<close> returns the address of the first occurrence of the needle, the haystack itself for an empty
  needle, and the null pointer when there is none.\<close>

theorem strstr_first:
  assumes "cstr m hay hs" "cstr m needle ns"
  shows "strstr m hay needle =
    Some (case first_occurrence ns hs of None \<Rightarrow> NULL | Some k \<Rightarrow> hay + of_nat k)"
proof (cases "ns = []")
  case True
  have "occurs_at [] hs 0" by (simp add: occurs_at_def)
  moreover have "[0..<Suc (length hs)] = 0 # [1..<Suc (length hs)]" by (subst upt_conv_Cons) simp_all
  ultimately have "first_occurrence [] hs = Some 0" by (simp add: first_occurrence_def del: upt_Suc)
  then show ?thesis using strlen_correct [OF assms(2)] True by (simp add: strstr_def)
next
  case False
  then show ?thesis using strstr_from_correct [OF assms False] strlen_correct [OF assms(2)] by (simp add: strstr_def)
qed

section \<open>Copying\<close>

definition in_area :: "addr \<Rightarrow> nat \<Rightarrow> addr \<Rightarrow> bool" where
  "in_area s n a \<longleftrightarrow> (\<exists>i<n. a = s + of_nat i)"

lemma area_unat:
  assumes "unat s + n \<le> 2 ^ 64" "i < n"
  shows "unat (s + of_nat i :: u64) = unat s + i"
proof -
  have "unat (of_nat i :: u64) = i" by (rule unat_u64) (use assms in simp)
  then show ?thesis using assms by (subst unat_add_lem [THEN iffD1]) simp_all
qed

lemma offset_inj: "i < 2 ^ 32 \<Longrightarrow> j < 2 ^ 32 \<Longrightarrow> a + of_nat i = a + of_nat j \<longleftrightarrow> i = j" for a :: u64
proof -
  assume "i < 2 ^ 32" "j < 2 ^ 32"
  then have "unat (of_nat i :: u64) = i" "unat (of_nat j :: u64) = j" by (simp_all add: unat_u64)
  then have "(of_nat i :: u64) \<noteq> of_nat j" if "i \<noteq> j" using that by metis
  then show ?thesis by auto
qed

definition copied :: "addr \<Rightarrow> addr \<Rightarrow> nat \<Rightarrow> cmem \<Rightarrow> cmem \<Rightarrow> bool" where
  "copied dst src n m m' \<longleftrightarrow>
    (\<forall>i<n. m' (dst + of_nat i) = m (src + of_nat i)) \<and> (\<forall>a. \<not> in_area dst n a \<longrightarrow> m' a = m a)"

lemma copy_byte_at: "copy_byte dst src i m a = (if a = dst + of_nat i then m (src + of_nat i) else m a)"
  by (simp add: copy_byte_def)

lemma copied_0 [simp]: "copied dst src 0 m m"
  by (simp add: copied_def)

lemma in_area_Suc: "in_area s (Suc n) a \<longleftrightarrow> in_area s n a \<or> a = s + of_nat n"
  by (auto simp: in_area_def less_Suc_eq)

lemma not_in_area:
  assumes "unat s + Suc n \<le> 2 ^ 64"
  shows "\<not> in_area s n (s + of_nat n)"
proof
  assume "in_area s n (s + of_nat n)"
  then obtain i where "i < n" "s + of_nat n = s + of_nat i" by (auto simp: in_area_def)
  then show False using area_unat [OF assms, of n] area_unat [OF assms, of i] by simp
qed

text \<open>Copying upwards reads every byte before it is overwritten when the target lies lower, copying
  downwards when it lies higher.\<close>

lemma copy_up:
  assumes "unat dst + n \<le> 2 ^ 64" "unat src + n \<le> 2 ^ 64" "dst < src"
  shows "copied dst src n m (fold (copy_byte dst src) [0..<n] m)"
  using assms(1,2)
proof (induction n)
  case (Suc n)
  define r where "r = fold (copy_byte dst src) [0..<n] m"
  have IH: "copied dst src n m r" using Suc by (simp add: r_def)
  have r: "fold (copy_byte dst src) [0..<Suc n] m = copy_byte dst src n r" by (simp add: r_def)
  have "\<not> in_area dst n (src + of_nat n)"
  proof
    assume "in_area dst n (src + of_nat n)"
    then obtain i where "i < n" "src + of_nat n = dst + of_nat i" by (auto simp: in_area_def)
    then show False
      using area_unat [OF Suc.prems(1), of i] area_unat [OF Suc.prems(2), of n] assms(3) by (simp add: word_less_nat_alt)
  qed
  then have src: "r (src + of_nat n) = m (src + of_nat n)" using IH by (simp add: copied_def)
  have "dst + of_nat i \<noteq> dst + of_nat n" if "i < n" for i
    using not_in_area [OF Suc.prems(1)] that by (auto simp: in_area_def)
  then show ?case unfolding r using IH src by (auto simp: copied_def copy_byte_at less_Suc_eq in_area_Suc)
qed simp

lemma copy_down:
  assumes "unat dst + n \<le> 2 ^ 64" "unat src + n \<le> 2 ^ 64" "src < dst"
  shows "copied dst src n m (fold (copy_byte dst src) (rev [0..<n]) m)"
  using assms(1,2)
proof (induction n arbitrary: m)
  case (Suc n)
  let ?m1 = "copy_byte dst src n m"
  define r where "r = fold (copy_byte dst src) (rev [0..<n]) ?m1"
  have IH: "copied dst src n ?m1 r" using Suc by (simp add: r_def)
  have r: "fold (copy_byte dst src) (rev [0..<Suc n]) m = r" by (simp add: r_def)
  have "?m1 (src + of_nat i) = m (src + of_nat i)" if "i < n" for i
  proof -
    have "src + of_nat i \<noteq> dst + of_nat n"
      using area_unat [OF Suc.prems(1), of n] area_unat [OF Suc.prems(2), of i] that assms(3)
      by (auto simp: word_less_nat_alt)
    then show ?thesis by (simp add: copy_byte_at)
  qed
  then show ?case unfolding r using IH not_in_area [OF Suc.prems(1)]
    by (auto simp: copied_def copy_byte_at less_Suc_eq in_area_Suc)
qed simp

text \<open>C25: \<^verbatim>\<open>memmove\<close> copies correctly also when source and target overlap: afterwards the target holds the bytes
  the source held before, and no other byte has changed, in whichever direction the code copies.\<close>

theorem memmove_correct:
  assumes "unat dst + nat n \<le> 2 ^ 64" "unat src + nat n \<le> 2 ^ 64"
  shows "(\<forall>i<nat n. memmove dst src n m (dst + of_nat i) = m (src + of_nat i)) \<and>
    (\<forall>a. (\<forall>i<nat n. a \<noteq> dst + of_nat i) \<longrightarrow> memmove dst src n m a = m a)"
proof -
  consider "dst < src" | "src < dst" | "src = dst" by (meson linorder_neqE)
  then have "copied dst src (nat n) m (memmove dst src n m)"
  proof cases
    case 1
    then show ?thesis using copy_up [OF assms] by (simp add: memmove_def)
  next
    case 2
    then show ?thesis using copy_down [OF assms] by (simp add: memmove_def)
  next
    case 3
    then show ?thesis by (simp add: memmove_def copied_def)
  qed
  then show ?thesis by (simp add: copied_def in_area_def)
qed

section \<open>Tokens\<close>

definition placed :: "addr \<Rightarrow> nat \<Rightarrow> bool" where
  "placed s n \<longleftrightarrow> s \<noteq> NULL \<and> unat s + n < 2 ^ 64"

lemma placed_not_null:
  assumes "placed s n" "i \<le> n"
  shows "s + of_nat i \<noteq> NULL" "unat (s + of_nat i) = unat s + i"
proof -
  show e: "unat (s + of_nat i) = unat s + i" using area_unat [of s "Suc n" i] assms by (simp add: placed_def)
  have "unat s \<noteq> 0" using assms(1) by (simp add: placed_def unat_eq_0)
  then show "s + of_nat i \<noteq> NULL" using e by (metis add_is_0 unat_0)
qed

lemma placed_inj: "placed s n \<Longrightarrow> i \<le> n \<Longrightarrow> k \<le> n \<Longrightarrow> s + of_nat i = s + of_nat k \<longleftrightarrow> i = k"
  using placed_not_null(2) [of s n i] placed_not_null(2) [of s n k] by (metis add_left_cancel)

lemma placed_suffix: "placed s n \<Longrightarrow> k \<le> n \<Longrightarrow> placed (s + of_nat k) (n - k)"
  using placed_not_null [of s n k] by (simp add: placed_def)

lemma strchr_member:
  assumes "cstr m d ds" "placed d (length ds)"
  shows "\<exists>q. strchr m d (sint c) = Some q \<and> (q = NULL \<longleftrightarrow> c \<notin> set ds)"
  using assms
proof (induction ds arbitrary: d)
  case Nil
  then show ?case by (subst strchr.simps) simp
next
  case (Cons x ds)
  have p: "placed (d + 1) (length ds)" using placed_suffix [OF Cons.prems(2), of 1] by simp
  have "d \<noteq> NULL" using Cons.prems(2) by (simp add: placed_def)
  moreover have "sint x = sint c \<longleftrightarrow> x = c" by (metis signed_word_eqI)
  ultimately show ?case using Cons.IH [of "d + 1"] Cons.prems p by (subst strchr.simps) auto
qed

lemma strchr_member_cases:
  assumes "cstr m d ds" "placed d (length ds)"
  obtains (yes) q where "strchr m d (sint c) = Some q" "q \<noteq> NULL" "c \<in> set ds"
  | (no) "strchr m d (sint c) = Some NULL" "c \<notin> set ds"
  using strchr_member [OF assms, of c] by auto

lemma skip_delims_correct:
  assumes "cstr m d ds" "placed d (length ds)" "cstr m p xs"
  shows "skip_delims m d p = Some (p + of_nat (length (takeWhile (\<lambda>x. x \<in> set ds) xs)))"
  using assms(3)
proof (induction xs arbitrary: p)
  case (Cons x xs)
  from assms(1,2) show ?case
    by (cases rule: strchr_member_cases [where c = x])
      (use Cons in \<open>subst skip_delims.simps, simp add: add.assoc\<close>)+
qed (subst skip_delims.simps, simp)

lemma skip_token_correct:
  assumes "cstr m d ds" "placed d (length ds)" "cstr m p xs"
  shows "skip_token m d p = Some (p + of_nat (length (takeWhile (\<lambda>x. x \<notin> set ds) xs)))"
  using assms(3)
proof (induction xs arbitrary: p)
  case (Cons x xs)
  from assms(1,2) show ?case
    by (cases rule: strchr_member_cases [where c = x])
      (use Cons in \<open>subst skip_token.simps, simp add: add.assoc\<close>)+
qed (subst skip_token.simps, simp)

text \<open>The reference: the maximal runs of bytes that are no delimiters.\<close>

function tokens :: "u8 list \<Rightarrow> u8 list \<Rightarrow> u8 list list" where
  "tokens ds xs =
    (let ys = dropWhile (\<lambda>x. x \<in> set ds) xs
     in if ys = [] then [] else takeWhile (\<lambda>x. x \<notin> set ds) ys # tokens ds (dropWhile (\<lambda>x. x \<notin> set ds) ys))"
  by pat_completeness auto
termination
proof (relation "measure (length \<circ> snd)", goal_cases)
  case (2 ds xs ys)
  then obtain y zs where "ys = y # zs" "y \<notin> set ds" by (metis hd_dropWhile list.collapse)
  moreover have "length ys \<le> length xs" using 2(1) by (simp add: length_dropWhile_le)
  moreover have "length (dropWhile (\<lambda>x. x \<notin> set ds) zs) \<le> length zs" by (rule length_dropWhile_le)
  ultimately show ?case by simp
qed simp

declare tokens.simps [simp del]

lemma tokens_skip: "x \<in> set ds \<Longrightarrow> tokens ds (x # xs) = tokens ds xs"
  by (subst (1 2) tokens.simps) simp

primrec strtok_again :: "nat \<Rightarrow> addr \<Rightarrow> addr \<times> cmem \<Rightarrow> (addr list \<times> cmem) option" where
  "strtok_again 0 d st = Some ([], snd st)"
| "strtok_again (Suc n) d st =
    (case strtok NULL d st of
       None \<Rightarrow> None
     | Some (t, st) \<Rightarrow> (case strtok_again n d st of None \<Rightarrow> None | Some (ts, m) \<Rightarrow> Some (t # ts, m)))"

definition strtok_calls :: "nat \<Rightarrow> addr \<Rightarrow> addr \<Rightarrow> addr \<times> cmem \<Rightarrow> (addr list \<times> cmem) option" where
  "strtok_calls n s d st =
    (case strtok s d st of
       None \<Rightarrow> None
     | Some (t, st) \<Rightarrow> (case strtok_again n d st of None \<Rightarrow> None | Some (ts, m) \<Rightarrow> Some (t # ts, m)))"

lemma strtok_calls_again: "s \<noteq> NULL \<Longrightarrow> strtok_calls n s d (nx, m) = strtok_again (Suc n) d (s, m)"
  by (simp add: strtok_calls_def strtok_def Let_def)

text \<open>One call: it returns a token, ends it with a zero and leaves \<^verbatim>\<open>next\<close> behind it, at the string \<open>r\<close>.\<close>

lemma strtok_token:
  assumes d: "cstr m d ds" "placed d (length ds)" and x: "cstr m s xs" "placed s (length xs)"
    and ys: "dropWhile (\<lambda>x. x \<in> set ds) xs \<noteq> []"
  obtains j t k r m1 where "strtok NULL d (s, m) = Some (s + of_nat j, s + of_nat k, m1)"
    "tokens ds xs = t # tokens ds r" "cstr m1 (s + of_nat j) t" "cstr m1 (s + of_nat k) r"
    "k + length r = length xs" "j + length t \<le> k" "r \<noteq> [] \<Longrightarrow> j + length t < k" "t \<noteq> []"
    "\<And>a. \<not> in_area s (length xs) a \<Longrightarrow> m1 a = m a"
proof -
  define ys where "ys = dropWhile (\<lambda>x. x \<in> set ds) xs"
  define j where "j = length (takeWhile (\<lambda>x. x \<in> set ds) xs)"
  define t where "t = takeWhile (\<lambda>x. x \<notin> set ds) ys"
  define rest where "rest = dropWhile (\<lambda>x. x \<notin> set ds) ys"
  let ?p = "s + of_nat (j + length t)"
  have j: "j \<le> length xs" "ys = drop j xs" "length xs = j + length ys"
    using length_takeWhile_le [of _ xs] arg_cong [OF takeWhile_dropWhile_id, of length "\<lambda>x. x \<in> set ds" xs]
    by (simp_all add: j_def ys_def dropWhile_eq_drop)
  have tr: "ys = t @ rest" by (simp add: t_def rest_def)
  obtain y zs where y: "ys = y # zs" "y \<notin> set ds" using ys unfolding ys_def by (metis hd_dropWhile list.collapse)
  have t: "t \<noteq> []" using y by (simp add: t_def)
  have cy: "cstr m (s + of_nat j) ys" using cstr_drop [OF x(1) j(1)] by (simp add: j(2))
  have sk: "skip_delims m d s = Some (s + of_nat j)" "skip_token m d (s + of_nat j) = Some ?p"
    using skip_delims_correct [OF d x(1)] skip_token_correct [OF d cy]
    by (simp_all add: j_def t_def add.assoc)
  have cr: "cstr m ?p rest"
    using cstr_drop [OF cy, of "length t"] by (simp add: tr add.assoc)
  have ct: "cstr m1 (s + of_nat j) t" if m1: "\<And>a. a \<noteq> ?p \<Longrightarrow> m1 a = m a" "m1 ?p = 0" for m1
  proof (rule cstrI)
    fix i assume i: "i < length t"
    have "s + of_nat (j + i) \<noteq> ?p"
      by (subst placed_inj [OF x(2)]) (use i j(3) tr in auto)
    then show "m1 (s + of_nat j + of_nat i) = t ! i"
      using m1(1) [of "s + of_nat (j + i)"] cstr_at [OF cy, of i] i by (simp add: add.assoc tr nth_append)
  next
    show "m1 (s + of_nat j + of_nat (length t)) = 0" using m1(2) by (simp add: add.assoc)
    show "0 \<notin> set t" using cstr_nonzero [OF cy] by (simp add: tr)
  qed
  have tok: "tokens ds xs = t # tokens ds rest"
    by (subst tokens.simps) (use y in \<open>simp add: ys_def [symmetric] t_def rest_def Let_def\<close>)
  have y0: "m (s + of_nat j) \<noteq> 0" "s \<noteq> NULL" using cy y x(2) by (auto simp: placed_def)
  show thesis
  proof (cases rest)
    case Nil
    then have "m ?p = 0" using cr by simp
    then show thesis
      using that [of j "j + length t" m t "[]"] sk y0 ct [of m] Nil tok t cr j(3) tr by (simp add: strtok_def Let_def)
  next
    case (Cons z r)
    then have z: "m ?p = z" "z \<noteq> 0" "cstr m (?p + 1) r" using cr by auto
    have "z \<in> set ds" using Cons hd_dropWhile [of "\<lambda>x. x \<notin> set ds" ys] by (auto simp: rest_def)
    then have tk: "tokens ds rest = tokens ds r" by (simp add: Cons tokens_skip)
    let ?m1 = "m(?p := 0)"
    have len: "j + length t < length xs" using j(3) tr Cons by simp
    have "?m1 (?p + 1 + of_nat i) = m (?p + 1 + of_nat i)" if "i \<le> length r" for i
    proof -
      have "s + of_nat (Suc (j + length t + i)) \<noteq> ?p"
        by (subst placed_inj [OF x(2)]) (use that j(3) tr Cons in auto)
      then show ?thesis by (simp add: add.assoc add.commute add.left_commute)
    qed
    then have "cstr ?m1 (?p + 1) r" using cstr_cong [of r ?m1 "?p + 1" m] z(3) by blast
    then have r1: "cstr ?m1 (s + of_nat (Suc (j + length t))) r" by (simp add: add.assoc add.commute add.left_commute)
    have "strtok NULL d (s, m) = Some (s + of_nat j, s + of_nat (Suc (j + length t)), ?m1)"
      using sk y0 z(1,2) by (simp add: strtok_def Let_def add.assoc add.commute add.left_commute)
    moreover have "?m1 a = m a" if "\<not> in_area s (length xs) a" for a
    proof -
      have "a \<noteq> ?p" using that len unfolding in_area_def by blast
      then show ?thesis by simp
    qed
    ultimately show thesis
      using that [of j "Suc (j + length t)" ?m1 t r] tok tk ct [of ?m1] r1 j(3) tr Cons t by simp
  qed
qed

lemma area_suffix:
  assumes "k + n \<le> l" "in_area (s + of_nat k) n a"
  shows "in_area s l a"
proof -
  obtain i where "i < n" "a = s + of_nat (k + i)" using assms(2) by (auto simp: in_area_def add.assoc)
  then show ?thesis using assms(1) unfolding in_area_def by (intro exI [of _ "k + i"]) simp
qed

lemma strtok_again_correct:
  assumes "placed d (length ds)"
  shows "cstr m d ds \<Longrightarrow> cstr m s xs \<Longrightarrow> placed s (length xs) \<Longrightarrow>
    (\<And>i. i \<le> length ds \<Longrightarrow> \<not> in_area s (Suc (length xs)) (d + of_nat i)) \<Longrightarrow>
    \<exists>ps m'. strtok_again (Suc (length (tokens ds xs))) d (s, m) = Some (ps @ [NULL], m') \<and>
      list_all2 (cstr m') ps (tokens ds xs) \<and> (\<forall>a. \<not> in_area s (length xs) a \<longrightarrow> m' a = m a)"
proof (induction "length xs" arbitrary: s xs m rule: less_induct)
  case less
  show ?case
  proof (cases "dropWhile (\<lambda>x. x \<in> set ds) xs = []")
    case True
    then have t: "takeWhile (\<lambda>x. x \<in> set ds) xs = xs" by (simp add: takeWhile_eq_all_conv)
    have "strtok NULL d (s, m) = Some (NULL, s + of_nat (length xs), m)"
      using skip_delims_correct [OF less.prems(1) assms less.prems(2), unfolded t] cstr_end [OF less.prems(2)] less.prems(3)
      by (simp add: strtok_def Let_def placed_def)
    moreover have "tokens ds xs = []" by (subst tokens.simps) (use True in simp)
    ultimately show ?thesis by (intro exI [of _ "[]"] exI [of _ m]) simp
  next
    case False
    from strtok_token [OF less.prems(1) assms less.prems(2,3) this] obtain j t k r m1
      where c: "strtok NULL d (s, m) = Some (s + of_nat j, s + of_nat k, m1)"
        and tk: "tokens ds xs = t # tokens ds r" and ct: "cstr m1 (s + of_nat j) t" and cr: "cstr m1 (s + of_nat k) r"
        and len: "k + length r = length xs" "j + length t \<le> k" "r \<noteq> [] \<Longrightarrow> j + length t < k" "t \<noteq> []"
        and m1: "\<And>a. \<not> in_area s (length xs) a \<Longrightarrow> m1 a = m a" by metis
    have lt: "length r < length xs" using len by (cases t) auto
    have cd: "cstr m1 d ds"
      using less.prems(1) cstr_cong [of ds m1 d m] m1 less.prems(4) by (auto simp: in_area_Suc)
    have pl: "placed (s + of_nat k) (length r)" using placed_suffix [OF less.prems(3), of k] by (simp add: len(1) [symmetric])
    have dis: "\<not> in_area (s + of_nat k) (Suc (length r)) (d + of_nat i)" if "i \<le> length ds" for i
      using less.prems(4) [OF that] area_suffix [of k "Suc (length r)" "Suc (length xs)" s] len(1) by auto
    from less.hyps [OF lt cd cr pl dis] obtain ps m' where
      ih: "strtok_again (Suc (length (tokens ds r))) d (s + of_nat k, m1) = Some (ps @ [NULL], m')"
        "list_all2 (cstr m') ps (tokens ds r)" "\<And>a. \<not> in_area (s + of_nat k) (length r) a \<Longrightarrow> m' a = m1 a" by auto
    have "m' (s + of_nat j + of_nat i) = m1 (s + of_nat j + of_nat i)" if "i \<le> length t" for i
    proof (rule ih(3), rule notI)
      assume "in_area (s + of_nat k) (length r) (s + of_nat j + of_nat i)"
      then obtain q where q: "q < length r" "s + of_nat (j + i) = s + of_nat (k + q)" by (auto simp: in_area_def add.assoc)
      then have "j + i = k + q" using placed_inj [OF less.prems(3), of "j + i" "k + q"] that len by auto
      then show False using that len(3) q(1) by (cases r) auto
    qed
    then have "cstr m' (s + of_nat j) t" using cstr_cong [of t m' "s + of_nat j" m1] ct by blast
    moreover have "m' a = m a" if "\<not> in_area s (length xs) a" for a
      using m1 [OF that] ih(3) [of a] area_suffix [of k "length r" "length xs" s a] len(1) that by auto
    ultimately show ?thesis using c tk ih by (intro exI [of _ "(s + of_nat j) # ps"] exI [of _ m']) simp
  qed
qed

text \<open>C27: \<^verbatim>\<open>strtok\<close> splits a string into its tokens. One call with the string and further calls with the null
  pointer return, one after the other, pointers to the maximal runs of bytes that are no delimiters,
  each ended by a zero, and then the null pointer; later calls do not damage earlier tokens, and no
  byte outside the string changes.\<close>

theorem strtok_tokens:
  assumes "cstr m s xs" "placed s (length xs)" "cstr m d ds" "placed d (length ds)"
    "\<forall>i\<le>length ds. \<forall>j\<le>length xs. d + of_nat i \<noteq> s + of_nat j"
  shows "\<exists>ps m'. strtok_calls (length (tokens ds xs)) s d (nx, m) = Some (ps @ [NULL], m') \<and>
    list_all2 (cstr m') ps (tokens ds xs) \<and> (\<forall>a. (\<forall>j<length xs. a \<noteq> s + of_nat j) \<longrightarrow> m' a = m a)"
proof -
  have "\<not> in_area s (Suc (length xs)) (d + of_nat i)" if "i \<le> length ds" for i
    using assms(5) that by (auto simp: in_area_def less_Suc_eq_le)
  from strtok_again_correct [OF assms(4,3,1,2) this] strtok_calls_again [of s] assms(2)
  show ?thesis unfolding in_area_def placed_def by auto
qed

section \<open>Examples\<close>

definition store :: "addr \<Rightarrow> u8 list \<Rightarrow> cmem" where
  "store s bs = (\<lambda>a. if unat a < unat s then 0 else if unat a - unat s < length bs then bs ! (unat a - unat s) else 0)"

theorem strstr_first_witness: "strstr (store 0x100 [1, 2, 1, 3, 0, 1, 3, 0]) 0x100 0x105 = Some 0x102"
proof -
  let ?m = "store 0x100 [1, 2, 1, 3, 0, 1, 3, 0]"
  have "cstr ?m 0x100 [1, 2, 1, 3]" "cstr ?m 0x105 [1, 3]" by code_simp+
  moreover have "first_occurrence [1, 3] [1, 2, 1, 3] = Some 2" by code_simp
  ultimately show ?thesis using strstr_first [of ?m "0x100" "[1, 2, 1, 3]" "0x105" "[1, 3]"] by simp
qed

theorem memmove_correct_witness:
  "memmove 0x101 0x100 3 (store 0x100 [5, 6, 7, 8]) 0x103 = 7 \<and> memmove 0x101 0x100 3 (store 0x100 [5, 6, 7, 8]) 0x100 = 5"
proof -
  let ?m = "store 0x100 [5, 6, 7, 8]"
  have c: "(\<forall>i<nat 3. memmove 0x101 0x100 3 ?m (0x101 + of_nat i) = ?m (0x100 + of_nat i)) \<and>
    (\<forall>a. (\<forall>i<nat 3. a \<noteq> 0x101 + of_nat i) \<longrightarrow> memmove 0x101 0x100 3 ?m a = ?m a)"
    by (rule memmove_correct) simp_all
  from c [THEN conjunct1, THEN spec, of 2]
  have "memmove 0x101 0x100 3 ?m (0x101 + of_nat 2) = ?m (0x100 + of_nat 2)" by simp
  moreover have "memmove 0x101 0x100 3 ?m 0x100 = ?m 0x100"
  proof -
    have "\<forall>i<nat 3. (0x100 :: u64) \<noteq> 0x101 + of_nat i" by (auto simp: numeral_3_eq_3 less_Suc_eq)
    then show ?thesis using c by blast
  qed
  moreover have "?m 0x102 = 7" "?m 0x100 = 5" by code_simp+
  ultimately show ?thesis by simp
qed

lemma areas_apart:
  assumes "placed s n" "placed d k" "unat s + n < unat d" "i \<le> k" "j \<le> n"
  shows "d + of_nat i \<noteq> s + of_nat j"
  using placed_not_null(2) [OF assms(1,5)] placed_not_null(2) [OF assms(2,4)] assms(3,5) by auto

theorem strtok_tokens_witness:
  "\<exists>ps m'. strtok_calls 2 0x100 0x200 (0, (store 0x100 [32, 65, 66, 32, 32, 67])(0x200 := 32)) = Some (ps @ [NULL], m') \<and>
    list_all2 (cstr m') ps [[65, 66], [67]]"
proof -
  let ?m = "(store 0x100 [32, 65, 66, 32, 32, 67])(0x200 := 32)"
  let ?xs = "[32, 65, 66, 32, 32, 67 :: u8]"
  have c: "cstr ?m 0x100 ?xs" "cstr ?m 0x200 [32]" by code_simp+
  have p: "placed 0x100 (length ?xs)" "placed 0x200 (length [32 :: u8])" by (simp_all add: placed_def)
  have d: "\<forall>i\<le>length [32 :: u8]. \<forall>j\<le>length ?xs. (0x200 :: u64) + of_nat i \<noteq> 0x100 + of_nat j"
    using areas_apart [OF p] by simp
  have "tokens [32] ?xs = [[65, 66], [67]]" by (simp add: tokens.simps)
  then show ?thesis using strtok_tokens [OF c(1) p(1) c(2) p(2) d, of 0] by (auto simp: numeral_2_eq_2)
qed

end
