(* ===== verification/LibcStdlib.thy ===== *)
theory LibcStdlib
  imports LibcString
begin

text \<open>
  \<^verbatim>\<open>libc/stdlib.c\<close>: number conversion and the allocator of user programs, a circular first-fit free list
  inside a static array. \<^verbatim>\<open>int\<close> values are 32-bit words read with their sign; where the C code overflows a
  signed integer the model wraps. \<^verbatim>\<open>unsigned long\<close> has 8 bytes, stored little endian. The system call
  instruction is the parameter \<open>sysc\<close>, a function of the call number and the first two arguments on the
  state of the program. \<^verbatim>\<open>exit\<close> does not return and has no counterpart.
\<close>

type_synonym i32 = "32 word"

section \<open>Numbers\<close>

partial_function (option) skip_blanks :: "cmem \<Rightarrow> addr \<Rightarrow> addr option" where
  "skip_blanks m s = (if m s = 0x20 then skip_blanks m (s + 1) else Some s)"

partial_function (option) read_digits :: "cmem \<Rightarrow> addr \<Rightarrow> i32 \<Rightarrow> (i32 \<times> addr) option" where
  "read_digits m s n =
    (if isdigit (m s) then read_digits m (s + 1) (n * 10 + (ucast (m s) - 0x30)) else Some (n, s))"

definition atoi :: "cmem \<Rightarrow> addr \<Rightarrow> i32 option" where
  "atoi m s =
    (case skip_blanks m s of
       None \<Rightarrow> None
     | Some s \<Rightarrow>
         let sign = (if m s = 0x2D then -1 else 1);
             s = (if m s = 0x2D \<or> m s = 0x2B then s + 1 else s)
         in case read_digits m s 0 of None \<Rightarrow> None | Some (n, _) \<Rightarrow> Some (sign * n))"

text \<open>The digits of \<open>u\<close> as the \<^verbatim>\<open>do\<close> loops of the library produce them, the least significant first.\<close>

function low_digits :: "u64 \<Rightarrow> u8 list" where
  "low_digits u = (0x30 + ucast (u mod 10)) # (if u div 10 \<noteq> 0 then low_digits (u div 10) else [])"
  by pat_completeness auto
termination
proof (relation "measure unat", goal_cases)
  case (2 u)
  then have "unat u div 10 \<noteq> 0" by (simp add: unat_div unat_eq_zero [symmetric] del: unat_eq_zero)
  then show ?case by (simp add: unat_div)
qed simp

fun write_bytes :: "addr \<Rightarrow> u8 list \<Rightarrow> cmem \<Rightarrow> cmem" where
  "write_bytes p [] m = m"
| "write_bytes p (b # bs) m = write_bytes (p + 1) bs (m(p := b))"

definition itoa :: "i32 \<Rightarrow> addr \<Rightarrow> cmem \<Rightarrow> cmem" where
  "itoa n buf m =
    (let neg = sint n < 0;
         m = (if neg then m(buf := 0x2D) else m);
         p = (if neg then buf + 1 else buf);
         u = (if neg then - n else n);
         ds = rev (low_digits (ucast u))
     in (write_bytes p ds m)(p + of_nat (length ds) := 0))"

section \<open>The allocator\<close>

abbreviation HEAP_BYTES :: u64 where "HEAP_BYTES \<equiv> 65536"
abbreviation HDR_SZ :: u64 where "HDR_SZ \<equiv> 8"
abbreviation USED :: u64 where "USED \<equiv> 1"
abbreviation AMASK :: u64 where "AMASK \<equiv> NOT USED"
abbreviation MMAP_THRESH :: int where "MMAP_THRESH \<equiv> 2048"

record lheap =
  bytes :: cmem
  heap_base :: addr
  heap_ready :: bool
  freep :: addr

definition ld64 :: "cmem \<Rightarrow> addr \<Rightarrow> u64" where
  "ld64 m a = foldr (\<lambda>i v. push_bit 8 v OR ucast (m (a + of_nat i))) [0..<8] 0"

definition st64 :: "addr \<Rightarrow> u64 \<Rightarrow> cmem \<Rightarrow> cmem" where
  "st64 a v m = fold (\<lambda>i m. m(a + of_nat i := ucast (drop_bit (8 * i) v))) [0..<8] m"

definition hdr :: "lheap \<Rightarrow> addr \<Rightarrow> u64" where "hdr st b = ld64 (bytes st) b"
definition NEXT :: "lheap \<Rightarrow> addr \<Rightarrow> addr" where "NEXT st b = ld64 (bytes st) (b + HDR_SZ)"

definition set_hdr :: "addr \<Rightarrow> u64 \<Rightarrow> lheap \<Rightarrow> lheap" where
  "set_hdr b v st = st\<lparr>bytes := st64 b v (bytes st)\<rparr>"

definition set_NEXT :: "addr \<Rightarrow> addr \<Rightarrow> lheap \<Rightarrow> lheap" where
  "set_NEXT b v st = st\<lparr>bytes := st64 (b + HDR_SZ) v (bytes st)\<rparr>"

text \<open>\<^verbatim>\<open>(int)(*b & AMASK)\<close>\<close>

definition block_size :: "lheap \<Rightarrow> addr \<Rightarrow> i32" where
  "block_size st b = ucast (hdr st b AND AMASK)"

definition ALIGN8 :: "i32 \<Rightarrow> i32" where "ALIGN8 n = (n + 7) AND NOT 7"
definition page_round :: "i32 \<Rightarrow> i32" where "page_round n = (n + 4095) AND NOT 4095"

type_synonym syscall = "nat \<Rightarrow> u64 \<Rightarrow> u64 \<Rightarrow> lheap \<Rightarrow> u64 \<times> lheap"

definition hinit :: "lheap \<Rightarrow> lheap" where
  "hinit st =
    (if heap_ready st then st
     else let st = st\<lparr>heap_ready := True\<rparr>; h = heap_base st;
              st = set_hdr h (HEAP_BYTES - HDR_SZ) st;
              st = set_NEXT h h st
          in st\<lparr>freep := h\<rparr>)"

text \<open>Taking the block \<open>cur\<close>, which follows \<open>prev\<close> on the list.\<close>

definition take_block :: "i32 \<Rightarrow> addr \<Rightarrow> addr \<Rightarrow> lheap \<Rightarrow> addr \<times> lheap" where
  "take_block need prev cur st =
    (let csize = block_size st cur;
         st = (if sint csize \<ge> sint (need + 8 + 16) then
                 let new = cur + scast need;
                     st = set_hdr new (scast (csize - need)) st;
                     st = set_NEXT new (NEXT st cur) st;
                     st = set_hdr cur (scast need OR USED) st
                 in set_NEXT prev new st
               else
                 let st = set_hdr cur (hdr st cur OR USED) st
                 in set_NEXT prev (NEXT st cur) st)
     in (cur + HDR_SZ, st\<lparr>freep := prev\<rparr>))"

partial_function (option) find_block :: "i32 \<Rightarrow> addr \<Rightarrow> addr \<Rightarrow> lheap \<Rightarrow> (addr \<times> lheap) option" where
  "find_block need prev cur st =
    (if sint (block_size st cur) \<ge> sint need then Some (take_block need prev cur st)
     else let next = NEXT st cur in
       if next = freep st then Some (NULL, st) else find_block need cur next st)"

definition malloc :: "syscall \<Rightarrow> i32 \<Rightarrow> lheap \<Rightarrow> (addr \<times> lheap) option" where
  "malloc sysc n st =
    (if sint n \<le> 0 then Some (NULL, st)
     else
       let st = hinit st in
       if sint n \<ge> MMAP_THRESH then
         let total = page_round (n + 8) in
         case sysc 197 0 (scast total) st of (h, st) \<Rightarrow>
           if h = 0 then Some (NULL, st)
           else Some (h + HDR_SZ, set_hdr h (scast total OR USED) st)
       else
         let need = ALIGN8 n + 8
         in find_block need (freep st) (NEXT st (freep st)) st)"

partial_function (option) find_place :: "addr \<Rightarrow> addr \<Rightarrow> addr \<Rightarrow> lheap \<Rightarrow> (addr \<times> addr) option" where
  "find_place h prev cur st =
    (if h > prev \<and> h < cur then Some (prev, cur)
     else if prev > cur \<and> (h > prev \<or> h < cur) then Some (prev, cur)
     else let next = NEXT st cur in
       if cur = freep st then Some (cur, next) else find_place h cur next st)"

definition free :: "syscall \<Rightarrow> addr \<Rightarrow> lheap \<Rightarrow> lheap option" where
  "free sysc p st =
    (if p = NULL then Some st
     else
       let h = p - HDR_SZ in
       if h < heap_base st \<or> h \<ge> heap_base st + HEAP_BYTES then
         Some (snd (sysc 73 h (scast (block_size st h)) st))
       else
         let st = set_hdr h (hdr st h AND NOT USED) st in
         case find_place h (freep st) (NEXT st (freep st)) st of
           None \<Rightarrow> None
         | Some (prev, cur) \<Rightarrow>
             let st = set_NEXT h cur st;
                 st = set_NEXT prev h st;
                 st = (if h + scast (block_size st h) = cur then
                         let st = set_hdr h ((hdr st h AND AMASK) + (hdr st cur AND AMASK)) st
                         in set_NEXT h (NEXT st cur) st
                       else st);
                 st = (if prev + scast (block_size st prev) = h then
                         let st = set_hdr prev ((hdr st prev AND AMASK) + (hdr st h AND AMASK)) st
                         in set_NEXT prev (NEXT st h) st
                       else st)
             in Some (st\<lparr>freep := prev\<rparr>))"

definition calloc :: "syscall \<Rightarrow> i32 \<Rightarrow> i32 \<Rightarrow> lheap \<Rightarrow> (addr \<times> lheap) option" where
  "calloc sysc n sz st =
    (let total = n * sz in
     case malloc sysc total st of
       None \<Rightarrow> None
     | Some (p, st) \<Rightarrow>
         Some (p, if p \<noteq> NULL then st\<lparr>bytes := memset p 0 (sint total) (bytes st)\<rparr> else st))"

definition realloc :: "syscall \<Rightarrow> addr \<Rightarrow> i32 \<Rightarrow> lheap \<Rightarrow> (addr \<times> lheap) option" where
  "realloc sysc p n st =
    (if p = NULL then malloc sysc n st
     else if sint n \<le> 0 then map_option (Pair NULL) (free sysc p st)
     else
       let old = block_size st (p - HDR_SZ) - 8 in
       if sint old \<ge> sint n then Some (p, st)
       else case malloc sysc n st of
         None \<Rightarrow> None
       | Some (new, st) \<Rightarrow>
           if new = NULL then Some (NULL, st)
           else let cnt = (if sint old < sint n then sint old else sint n);
                    st = st\<lparr>bytes := memcpy new p cnt (bytes st)\<rparr>
                in map_option (Pair new) (free sysc p st))"

definition mmap :: "syscall \<Rightarrow> i32 \<Rightarrow> lheap \<Rightarrow> addr \<times> lheap" where
  "mmap sysc len st = sysc 197 0 (scast (page_round len)) st"

definition munmap :: "syscall \<Rightarrow> addr \<Rightarrow> i32 \<Rightarrow> lheap \<Rightarrow> i32 \<times> lheap" where
  "munmap sysc a len st = (case sysc 73 a (scast (page_round len)) st of (r, st) \<Rightarrow> (ucast r, st))"

definition strdup :: "syscall \<Rightarrow> addr \<Rightarrow> lheap \<Rightarrow> (addr \<times> lheap) option" where
  "strdup sysc s st =
    (if s = NULL then Some (NULL, st)
     else case strlen (bytes st) s of
       None \<Rightarrow> None
     | Some n \<Rightarrow>
         (case malloc sysc (of_nat n + 1) st of
            None \<Rightarrow> None
          | Some (p, st) \<Rightarrow>
              if p = NULL then Some (NULL, st)
              else Some (p, st\<lparr>bytes := fold (copy_byte p s) [0..<Suc n] (bytes st)\<rparr>)))"

declare low_digits.simps [simp del]

end
