(* ===== verification/LibcStdlibProps.thy ===== *)
theory LibcStdlibProps
  imports LibcStringProps LibcStdlib
begin

text \<open>
  Number conversion and the allocator of the user-space library.
\<close>

section \<open>Digits\<close>

abbreviation digit :: "u8 \<Rightarrow> bool" where
  "digit c \<equiv> c = 0x30 \<or> c = 0x31 \<or> c = 0x32 \<or> c = 0x33 \<or> c = 0x34 \<or> c = 0x35 \<or> c = 0x36 \<or> c = 0x37 \<or> c = 0x38 \<or> c = 0x39"

lemma digit_of_nat: "d < 10 \<Longrightarrow> digit (0x30 + of_nat d) \<and> ucast (0x30 + of_nat d :: u8) - 0x30 = (of_nat d :: i32)"
proof -
  assume "d < 10"
  then have "d = 0 \<or> d = 1 \<or> d = 2 \<or> d = 3 \<or> d = 4 \<or> d = 5 \<or> d = 6 \<or> d = 7 \<or> d = 8 \<or> d = 9" by arith
  then show ?thesis by (elim disjE) simp_all
qed

lemma digit_facts: "digit c \<Longrightarrow> isdigit c \<and> c \<noteq> 0 \<and> c \<noteq> 0x20 \<and> c \<noteq> 0x2D \<and> c \<noteq> 0x2B"
  by (elim disjE) (simp_all add: isdigit_def)

lemma last_digit: "0x30 + ucast (u mod 10 :: u64) = (0x30 + of_nat (unat u mod 10) :: u8)"
proof -
  have "(ucast (u mod 10) :: u8) = of_nat (unat (u mod 10))" by (simp add: unsigned_ucast_eq)
  then show ?thesis by (simp add: unat_mod)
qed

lemma low_digits_digit: "c \<in> set (low_digits u) \<Longrightarrow> digit c"
proof (induction u rule: low_digits.induct)
  case (1 u)
  then show ?case using digit_of_nat [of "unat u mod 10"]
    by (subst (asm) low_digits.simps) (auto simp: last_digit split: if_splits)
qed

definition digits_value :: "i32 \<Rightarrow> u8 list \<Rightarrow> i32" where
  "digits_value n ds = foldl (\<lambda>n d. n * 10 + (ucast d - 0x30)) n ds"

lemma low_digits_value: "digits_value 0 (rev (low_digits u)) = of_nat (unat u)"
proof (induction u rule: low_digits.induct)
  case (1 u)
  have d: "unat (u div 10) = unat u div 10" by (simp add: unat_div)
  have "digits_value 0 (rev (if u div 10 \<noteq> 0 then low_digits (u div 10) else [])) = of_nat (unat u div 10)"
  proof (cases "u div 10 = 0")
    case True
    then have "unat u div 10 = 0" using d by simp
    then show ?thesis using True by (simp add: digits_value_def)
  next
    case False
    then show ?thesis using 1 d by simp
  qed
  then have "digits_value 0 (rev (low_digits u)) = of_nat (unat u div 10) * 10 + of_nat (unat u mod 10)"
    using digit_of_nat [of "unat u mod 10"]
    by (subst low_digits.simps) (simp add: digits_value_def last_digit)
  also have "\<dots> = of_nat (unat u div 10 * 10 + unat u mod 10)" by (simp only: of_nat_add of_nat_mult of_nat_numeral)
  also have "unat u div 10 * 10 + unat u mod 10 = unat u" by simp
  finally show ?case .
qed

lemma low_digits_length: "unat u < 10 ^ k \<Longrightarrow> 0 < k \<Longrightarrow> length (low_digits u) \<le> k"
proof (induction k arbitrary: u)
  case (Suc k)
  show ?case
  proof (cases "u div 10 = 0")
    case True
    then show ?thesis by (subst low_digits.simps) simp
  next
    case False
    have d: "unat (u div 10) = unat u div 10" by (simp add: unat_div)
    then have "unat u div 10 \<noteq> 0" using False by (metis unat_eq_zero)
    then have "k \<noteq> 0" using Suc.prems(1) by (cases k) auto
    moreover have "unat (u div 10) < 10 ^ k" using Suc.prems(1) d by (simp add: less_mult_imp_div_less mult.commute)
    ultimately show ?thesis using Suc.IH [of "u div 10"] by (subst low_digits.simps) simp
  qed
qed simp

section \<open>Printing and reading\<close>

lemma write_bytes_other: "(\<And>i. i < length bs \<Longrightarrow> a \<noteq> p + of_nat i) \<Longrightarrow> write_bytes p bs m a = m a"
proof (induction bs arbitrary: p m)
  case (Cons b bs)
  have "a \<noteq> p + 1 + of_nat i" if "i < length bs" for i using Cons.prems [of "Suc i"] that by (simp add: add.assoc)
  then have "write_bytes (p + 1) bs (m(p := b)) a = (m(p := b)) a" by (rule Cons.IH)
  also have "\<dots> = m a" using Cons.prems [of 0] by simp
  finally show ?case by simp
qed simp

lemma write_bytes_at:
  assumes "placed p (length bs)" "i < length bs"
  shows "write_bytes p bs m (p + of_nat i) = bs ! i"
  using assms
proof (induction bs arbitrary: p m i)
  case (Cons b bs)
  have pl: "placed (p + 1) (length bs)" using placed_suffix [OF Cons.prems(1), of 1] by simp
  show ?case
  proof (cases i)
    case 0
    have "p \<noteq> p + 1 + of_nat j" if "j < length bs" for j
      using placed_inj [OF Cons.prems(1), of 0 "Suc j"] that by (simp add: add.assoc)
    then show ?thesis using write_bytes_other [of bs p "p + 1" "m(p := b)"] 0 by simp
  next
    case (Suc j)
    then show ?thesis using Cons.prems(2) Cons.IH [OF pl, of j] by (simp add: add.assoc del: fun_upd_apply)
  qed
qed simp

lemma write_bytes_cstr:
  assumes "placed p (length bs)" "0 \<notin> set bs"
  shows "cstr ((write_bytes p bs m)(p + of_nat (length bs) := 0)) p bs"
proof (rule cstrI)
  fix i assume i: "i < length bs"
  then have "p + of_nat i \<noteq> p + of_nat (length bs)" using placed_inj [OF assms(1), of i "length bs"] by simp
  then show "((write_bytes p bs m)(p + of_nat (length bs) := 0)) (p + of_nat i) = bs ! i"
    using write_bytes_at [OF assms(1) i] by simp
qed (use assms(2) in auto)

lemma read_digits_correct:
  "cstr m s ds \<Longrightarrow> \<forall>c\<in>set ds. digit c \<Longrightarrow> read_digits m s n = Some (digits_value n ds, s + of_nat (length ds))"
proof (induction ds arbitrary: s n)
  case Nil
  then show ?case by (subst read_digits.simps) (simp add: isdigit_def digits_value_def)
next
  case (Cons d ds)
  then have "isdigit (m s)" using digit_facts [of d] by simp
  then show ?case using Cons by (subst read_digits.simps) (simp add: digits_value_def add.assoc)
qed

lemma itoa_cstr:
  assumes "placed buf 12"
  obtains ds where "cstr (itoa n buf m) buf (if sint n < 0 then 0x2D # ds else ds)" "ds \<noteq> []" "\<forall>c\<in>set ds. digit c"
    "digits_value 0 ds = (if sint n < 0 then - n else n)"
proof -
  define u where "u = (if sint n < 0 then - n else n)"
  define ds where "ds = rev (low_digits (ucast u))"
  have u32: "unat u < 2 ^ 32" using unsigned_less [of u] by simp
  then have u: "unat (ucast u :: u64) = unat u" by (simp add: unsigned_ucast_eq take_bit_nat_eq_self)
  have ne: "ds \<noteq> []" unfolding ds_def by (subst low_digits.simps) simp
  have dig: "\<forall>c\<in>set ds. digit c" using low_digits_digit by (auto simp: ds_def)
  then have nz: "0 \<notin> set ds" using digit_facts by blast
  have val: "digits_value 0 ds = u" unfolding ds_def low_digits_value u by simp
  have len: "length ds \<le> 10" unfolding ds_def using low_digits_length [of "ucast u" 10] u u32 by simp
  show thesis
  proof (cases "sint n < 0")
    case True
    have e: "itoa n buf m = (write_bytes (buf + 1) ds (m(buf := 0x2D)))(buf + 1 + of_nat (length ds) := 0)"
      using True by (simp add: itoa_def Let_def ds_def u_def)
    have pl: "placed (buf + 1) (length ds)"
      using placed_suffix [OF assms, of 1] len by (simp add: placed_def)
    have "buf \<noteq> buf + 1 + of_nat i" if "i \<le> length ds" for i
      using placed_inj [OF assms, of 0 "Suc i"] that len by (simp add: add.assoc)
    then have "itoa n buf m buf = 0x2D"
      unfolding e using write_bytes_other [of ds buf "buf + 1" "m(buf := 0x2D)"] by simp
    moreover have "cstr (itoa n buf m) (buf + 1) ds" unfolding e by (rule write_bytes_cstr [OF pl nz])
    ultimately show thesis using that [of ds] ne dig val True by (simp add: u_def)
  next
    case False
    have e: "itoa n buf m = (write_bytes buf ds m)(buf + of_nat (length ds) := 0)"
      using False by (simp add: itoa_def Let_def ds_def u_def)
    have "placed buf (length ds)" using assms len by (simp add: placed_def)
    then have "cstr (itoa n buf m) buf ds" unfolding e by (rule write_bytes_cstr [OF _ nz])
    then show thesis using that [of ds] ne dig val False by (simp add: u_def)
  qed
qed

text \<open>C28: \<^verbatim>\<open>atoi\<close> reads back every \<^verbatim>\<open>int\<close> that \<^verbatim>\<open>itoa\<close> prints, the least one included, when the buffer has
  room for the 12 bytes the code asks for.\<close>

theorem atoi_itoa:
  assumes "placed buf 12"
  shows "atoi (itoa n buf m) buf = Some n"
proof -
  from assms obtain ds where ds: "cstr (itoa n buf m) buf (if sint n < 0 then 0x2D # ds else ds)" "ds \<noteq> []"
    "\<forall>c\<in>set ds. digit c" "digits_value 0 ds = (if sint n < 0 then - n else n)" by (rule itoa_cstr)
  let ?m = "itoa n buf m"
  obtain c cs where cs: "ds = c # cs" using ds(2) by (cases ds) auto
  have c: "c \<noteq> 0x20" "c \<noteq> 0x2D" "c \<noteq> 0x2B" using ds(3) digit_facts [of c] by (auto simp: cs)
  have first: "?m buf = (if sint n < 0 then 0x2D else c)" using ds(1) cs by (auto split: if_splits)
  then have "skip_blanks ?m buf = Some buf" using c(1) by (subst skip_blanks.simps) simp
  moreover have "read_digits ?m (if sint n < 0 then buf + 1 else buf) 0 =
      Some (digits_value 0 ds, (if sint n < 0 then buf + 1 else buf) + of_nat (length ds))"
    by (rule read_digits_correct) (use ds(1,3) in \<open>auto split: if_splits\<close>)
  ultimately show ?thesis using first c ds(4) by (auto simp: atoi_def Let_def)
qed

theorem atoi_itoa_witness: "atoi (itoa (- 2147483648) 0x1000 (\<lambda>_. 0)) 0x1000 = Some (- 2147483648)"
  by (rule atoi_itoa) (simp add: placed_def)

section \<open>The allocator\<close>

text \<open>Values of several bytes, in memory from the least significant byte on\<close>

lemma store_bytes_other:
  "(\<And>i. i < n \<Longrightarrow> x \<noteq> a + of_nat i) \<Longrightarrow> fold (\<lambda>i m. m(a + of_nat i := g i)) [0..<n] m x = m x" for a :: u64
  by (induction n) simp_all

lemma store_bytes_at:
  "i < n \<Longrightarrow> n < 2 ^ 32 \<Longrightarrow> fold (\<lambda>i m. m(a + of_nat i := g i)) [0..<n] m (a + of_nat i) = g i" for a :: u64
proof (induction n)
  case (Suc n)
  then show ?case using offset_inj [of i n a] by (cases "i = n") simp_all
qed simp

lemma byte_join:
  "push_bit 8 (drop_bit (8 * Suc k) v) OR ucast (ucast (drop_bit (8 * k) v) :: u8) = drop_bit (8 * k) v" for v :: "'a::len word"
proof (rule bit_eqI)
  fix n
  have "8 * Suc k + (n - 8) = 8 * k + n" if "8 \<le> n" using that by simp
  then show "bit (push_bit 8 (drop_bit (8 * Suc k) v) OR ucast (ucast (drop_bit (8 * k) v) :: u8)) n = bit (drop_bit (8 * k) v) n"
    by (cases "8 \<le> n") (auto simp: bit_simps dest: bit_imp_le_length)
qed

lemma load_bytes:
  fixes v :: "'a::len word" and a :: u64
  assumes "8 * n = LENGTH('a)" "\<And>i. i < n \<Longrightarrow> m (a + of_nat i) = (ucast (drop_bit (8 * i) v) :: u8)"
  shows "foldr (\<lambda>i x. push_bit 8 x OR ucast (m (a + of_nat i))) [0..<n] 0 = v"
proof -
  have "foldr (\<lambda>i x. push_bit 8 x OR ucast (m (a + of_nat i))) [k..<n] 0 = drop_bit (8 * k) v" if "k \<le> n" for k
    using that
  proof (induction "n - k" arbitrary: k)
    case 0
    then have k: "k = n" by simp
    have "drop_bit (8 * n) v = 0" by (rule bit_eqI) (auto simp: bit_simps assms(1) dest: bit_imp_le_length)
    then show ?case by (simp add: k)
  next
    case (Suc d)
    then have k: "k < n" "Suc k \<le> n" by simp_all
    have "foldr (\<lambda>i x. push_bit 8 x OR ucast (m (a + of_nat i))) [Suc k..<n] 0 = drop_bit (8 * Suc k) v"
      using Suc.hyps(1) [of "Suc k"] Suc.hyps(2) k(2) by simp
    then show ?case using byte_join [of k v] assms(2) [OF k(1)] by (subst upt_conv_Cons [OF k(1)]) (simp del: mult_Suc_right)
  qed
  from this [of 0] show ?thesis by simp
qed

lemma st64_other: "(\<And>i. i < 8 \<Longrightarrow> x \<noteq> a + of_nat i) \<Longrightarrow> st64 a v m x = m x"
  unfolding st64_def by (rule store_bytes_other)

lemma ld64_st64 [simp]: "ld64 (st64 a v m) a = v"
  unfolding ld64_def st64_def by (rule load_bytes) (simp_all add: store_bytes_at del: fun_upd_apply)

lemma ld64_cong: "(\<And>i. i < 8 \<Longrightarrow> m' (a + of_nat i) = m (a + of_nat i)) \<Longrightarrow> ld64 m' a = ld64 m a"
  unfolding ld64_def by (rule foldr_cong) simp_all

lemma next_field_apart: "i < 8 \<Longrightarrow> j < 8 \<Longrightarrow> a + of_nat i \<noteq> a + 8 + of_nat j" for a :: u64
  using offset_inj [of i "8 + j" a] by (simp add: add.assoc)

lemma hdr_set_NEXT [simp]: "hdr (set_NEXT b v st) b = hdr st b"
  unfolding hdr_def set_NEXT_def using next_field_apart [of _ _ b] by (auto intro!: ld64_cong st64_other)

lemma hinit_fresh:
  assumes "\<not> heap_ready st"
  shows "freep (hinit st) = heap_base st" "NEXT (hinit st) (heap_base st) = heap_base st"
    "block_size (hinit st) (heap_base st) = 65528" "heap_ready (hinit st)"
proof -
  let ?st = "set_NEXT (heap_base st) (heap_base st) (set_hdr (heap_base st) 65528 (st\<lparr>heap_ready := True\<rparr>))"
  have e: "hinit st = ?st\<lparr>freep := heap_base st\<rparr>" using assms by (simp add: hinit_def Let_def)
  have h: "hdr (s\<lparr>freep := f\<rparr>) b = hdr s b" "NEXT (s\<lparr>freep := f\<rparr>) b = NEXT s b" for s f b
    by (simp_all add: hdr_def NEXT_def)
  show "freep (hinit st) = heap_base st" "heap_ready (hinit st)" by (simp_all add: e set_NEXT_def set_hdr_def)
  show "NEXT (hinit st) (heap_base st) = heap_base st" unfolding e h by (simp add: NEXT_def set_NEXT_def)
  have "hdr (set_hdr b v s) b = v" for b v s by (simp add: hdr_def set_hdr_def)
  then have "hdr (hinit st) (heap_base st) = 65528" by (simp only: e h hdr_set_NEXT)
  moreover have "ucast ((65528 :: u64) AND AMASK) = (65528 :: i32)" by code_simp
  ultimately show "block_size (hinit st) (heap_base st) = 65528" by (simp only: block_size_def)
qed

lemma request_size:
  assumes "0 < sint n" "sint n < 2048"
  shows "sint (ALIGN8 n + 8) \<le> 65528"
proof -
  have "uint n = sint n" using assms by (simp add: uint_sint take_bit_int_eq_self)
  then have "sint n = int (unat n)" by simp
  then have n: "unat n < 2048" using assms(2) by linarith
  have "ALIGN8 n \<le> n + 7" by (simp add: ALIGN8_def word_and_le2)
  then have "unat (ALIGN8 n) \<le> unat (n + 7)" by (simp add: word_le_nat_alt)
  moreover have "unat (n + 7) = unat n + 7" using n by (subst unat_add_lem [THEN iffD1]) simp_all
  ultimately have "unat (ALIGN8 n) \<le> 2054" using n by simp
  then have "unat (ALIGN8 n + 8) = unat (ALIGN8 n) + 8" by (subst unat_add_lem [THEN iffD1]) simp_all
  then have u: "unat (ALIGN8 n + 8) \<le> 2062" using \<open>unat (ALIGN8 n) \<le> 2054\<close> by simp
  then have "sint (ALIGN8 n + 8) = int (unat (ALIGN8 n + 8))" by (intro sint_small) simp
  then show ?thesis using u by linarith
qed

lemma take_block_result: "fst (take_block need prev c st) = c + HDR_SZ" "freep (snd (take_block need prev c st)) = prev"
  "heap_ready (snd (take_block need prev c st)) = heap_ready st"
  by (auto simp: take_block_def Let_def set_hdr_def set_NEXT_def)

lemma malloc_first_fit:
  assumes "heap_ready st" "0 < sint n" "sint n < 2048" "sint (block_size st (NEXT st (freep st))) \<ge> sint (ALIGN8 n + 8)"
  shows "malloc sysc n st = Some (take_block (ALIGN8 n + 8) (freep st) (NEXT st (freep st)) st)"
  using assms by (simp add: malloc_def hinit_def Let_def find_block.simps [of _ "freep st"])

lemma malloc_fresh:
  assumes "\<not> heap_ready st" "0 < sint n" "sint n < 2048"
  shows "malloc sysc n st = Some (take_block (ALIGN8 n + 8) (heap_base st) (heap_base st) (hinit st))"
proof -
  note h = hinit_fresh [OF assms(1)]
  have "hinit (hinit st) = hinit st" using h(4) by (simp add: hinit_def [of "hinit st"])
  then have "malloc sysc n st = malloc sysc n (hinit st)" using assms(2) by (simp add: malloc_def)
  then show ?thesis using malloc_first_fit [of "hinit st" n] h assms(2,3) request_size [OF assms(2,3)] by simp
qed

text \<open>C29: The allocator of the C library takes user data for list pointers. After the first allocation the
  list still starts at the block that was handed out, whose link field is the first eight bytes of the
  caller's memory: whatever address a program stores there is where the next allocation looks for a
  block, and when the word at that address looks like the header of a block that is large enough, the
  allocation returns it, wherever it lies.\<close>

theorem malloc_follows_user_data:
  assumes "\<not> heap_ready st" "0 < sint n" "sint n < 2048" "malloc sysc n st = Some (p, st1)"
    and "st2 = st1\<lparr>bytes := st64 p v (bytes st1)\<rparr>"
    and "0 < sint k" "sint k < 2048" "sint (block_size st2 v) \<ge> sint (ALIGN8 k + 8)"
  shows "p = heap_base st + 8 \<and> (\<exists>st3. malloc sysc k st2 = Some (v + 8, st3))"
proof -
  note h = hinit_fresh [OF assms(1)]
  have t: "take_block (ALIGN8 n + 8) (heap_base st) (heap_base st) (hinit st) = (p, st1)"
    using assms(4) malloc_fresh [OF assms(1-3)] by simp
  have p: "p = heap_base st + 8" "freep st1 = heap_base st" "heap_ready st1"
    using take_block_result [of "ALIGN8 n + 8" "heap_base st" "heap_base st" "hinit st"] t h(4) by simp_all
  have "heap_ready st2" "freep st2 = heap_base st" "NEXT st2 (heap_base st) = v"
    using p by (simp_all add: assms(5) NEXT_def)
  then have "malloc sysc k st2 = Some (take_block (ALIGN8 k + 8) (heap_base st) v st2)"
    using malloc_first_fit [of st2 k] assms(6-8) by simp
  then show ?thesis using p(1) take_block_result(1) [of "ALIGN8 k + 8" "heap_base st" v st2]
    by (cases "take_block (ALIGN8 k + 8) (heap_base st) v st2") simp
qed

text \<open>A node whose first field points to itself is enough: the next block overlaps the first one.\<close>

theorem malloc_follows_user_data_witness:
  "\<exists>st1 st3. let st = \<lparr>bytes = (\<lambda>_. 0), heap_base = 0x10000, heap_ready = False, freep = 0\<rparr> in
    malloc (\<lambda>_ _ _ s. (0, s)) 64 st = Some (0x10008, st1) \<and>
    malloc (\<lambda>_ _ _ s. (0, s)) 64 (st1\<lparr>bytes := st64 0x10008 0x10008 (bytes st1)\<rparr>) = Some (0x10010, st3)"
proof -
  let ?st = "\<lparr>bytes = (\<lambda>_. 0), heap_base = 0x10000, heap_ready = False, freep = 0\<rparr>"
  let ?s = "\<lambda>_ _ _ s. (0, s)"
  have st: "\<not> heap_ready ?st" "0 < sint (64 :: i32)" "sint (64 :: i32) < 2048" by simp_all
  obtain p st1 where t: "take_block (ALIGN8 64 + 8) (heap_base ?st) (heap_base ?st) (hinit ?st) = (p, st1)" by fastforce
  then have m: "malloc ?s 64 ?st = Some (p, st1)" using malloc_fresh [OF st] by simp
  let ?st2 = "st1\<lparr>bytes := st64 p 0x10008 (bytes st1)\<rparr>"
  have p: "p = 0x10008" using take_block_result(1) [of "ALIGN8 64 + 8" "heap_base ?st" "heap_base ?st" "hinit ?st"] t by simp
  have "hdr ?st2 0x10008 = 0x10008" by (simp add: hdr_def p)
  moreover have "sint (ucast ((0x10008 :: u64) AND AMASK) :: i32) \<ge> sint (ALIGN8 64 + 8)" by code_simp
  ultimately have b: "sint (block_size ?st2 0x10008) \<ge> sint (ALIGN8 64 + 8)" by (simp only: block_size_def)
  from malloc_follows_user_data [OF st m refl st(2,3) b] show ?thesis using m p by (auto simp: Let_def)
qed

end
