(* ===== verification/FileProps.thy ===== *)
theory FileProps
  imports FileCalls Fat32Facts DescriptorProps LibcStdlibProps
begin

text \<open>
  The system calls on files across the layers below them: what a read, a write and an open through a
  descriptor do on a FAT32 volume, the counters behind event descriptors, and the results of \<^verbatim>\<open>poll\<close> and
  \<^verbatim>\<open>select\<close>.
\<close>

section \<open>Descriptors\<close>

lemma fds_set_fd [simp]: "fds (set_fd i e k) = (fds k)(i := e)"
  by (simp add: fds_def set_fd_def)

lemma cur_fd_upd [simp]: "cur_fd (upd_fd fd e s) fd = e"
  by (simp add: cur_fd_def upd_fd_def)

lemma upd_fd_files [simp]: "files (upd_fd fd e s) = files s" "dev (upd_fd fd e s) = dev s" "g_use_ext2 (upd_fd fd e s) = g_use_ext2 s"
  by (simp_all add: upd_fd_def)

lemma fd_in_upd: "f_used e \<Longrightarrow> fd_in lo fd (kern s) \<Longrightarrow> fd_in lo fd (kern (upd_fd fd e s))"
  by (simp add: fd_in_def upd_fd_def)

lemma fd_is_upd: "f_used e \<Longrightarrow> f_type e = ty \<Longrightarrow> fd_in lo fd (kern s) \<Longrightarrow> fd_is lo ty fd (kern (upd_fd fd e s))"
  by (simp add: fd_is_def fd_in_def upd_fd_def)

lemma fd_is_unique: "fd_is lo ty fd k \<Longrightarrow> fd_is lo' ty' fd k \<Longrightarrow> ty = ty'"
  by (simp add: fd_is_def)

lemma fd_is_in: "fd_is lo ty fd k \<Longrightarrow> fd_in lo fd k \<and> f_used (fds k (nat fd)) \<and> f_type (fds k (nat fd)) = ty"
  by (simp add: fd_is_def fd_in_def)

lemma sys_read_file: "fd_is 3 FD_FILE fd (kern s) \<Longrightarrow> sys_read api da n sched fd count s = file_read api n fd count s"
  by (auto simp: sys_read_def Let_def fd_is_def fd_in_def)

lemma do_write_file: "fd_is 3 FD_FILE fd (kern s) \<Longrightarrow> do_write_fd api n fd bs s = file_write api n fd bs s"
  by (auto simp: do_write_fd_def Let_def fd_is_def fd_in_def)

text \<open>A small machine for the examples: one process, whose descriptor 3 is of type \<open>ty\<close> and names the file of
  \<open>demo_files\<close>, and devices that have nothing to read.\<close>

definition quiet_dev :: "unit dev_api" where
  "quiet_dev = \<lparr>keyboard_avail = \<lambda>_. False, keyboard_read = \<lambda>d. (0, d), kbd_raw_avail = \<lambda>_. False,
    kbd_raw_read = \<lambda>d. (0, d), mice_avail = \<lambda>_. False, mice_read = \<lambda>d. (0, d), irq = \<lambda>d. d\<rparr>"

definition no_ext2 :: "unit ext2_api" where
  "no_ext2 = \<lparr>ext2new_mount = \<lambda>e. (-1, e), ext2new_stat = \<lambda>_ _. None, ext2new_read_at = \<lambda>_ _ _ _. (-1, []),
    ext2_create_file = \<lambda>_ e. (-1, e), ext2_write_at = \<lambda>_ _ _ e. (-1, e)\<rparr>"

definition demo_sys :: "fd_type \<Rightarrow> (unit, unit) sys" where
  "demo_sys ty =
    \<lparr>kern = set_fd 3 \<lparr>f_used = True, f_type = ty, f_flags = 0, f_pipe = 0, f_sock = 0, f_name = ''A'',
       f_pos = 0, f_wend = False, f_counter = 5\<rparr> bare_kernel,
     files = \<lparr>fat = demo_files, ext = (), g_vfs_backend = 1\<rparr>,
     con = \<lparr>scrollback = \<lambda>_. blank, cursor_row = 0, cursor_col = 0, scroll_start = 0, fg_color = 0, bg_color = 0,
       cursor_visible = True, term_out = None, shown = \<lambda>_ _. blank, serial = []\<rparr>,
     dev = (), g_use_ext2 = False, cur_umask = 0\<rparr>"

lemma demo_sys_parts:
  "files (demo_sys ty) = \<lparr>fat = demo_files, ext = (), g_vfs_backend = 1\<rparr>" "\<not> g_use_ext2 (demo_sys ty)"
  "fd_is 3 ty 3 (kern (demo_sys ty))" "f_counter (cur_fd (demo_sys ty) 3) = 5" "f_name (cur_fd (demo_sys ty) 3) = ''A''"
  by (simp_all add: demo_sys_def fd_is_def fd_in_def cur_fd_def)

section \<open>Reading a file\<close>

text \<open>\<open>k\<close> reads of \<open>count\<close> bytes one after the other\<close>

primrec read_times ::
    "'e ext2_api \<Rightarrow> 'd dev_api \<Rightarrow> nat \<Rightarrow> (nat \<Rightarrow> kernel \<Rightarrow> kernel) \<Rightarrow> int \<Rightarrow> nat \<Rightarrow> nat \<Rightarrow> ('e, 'd) sys \<Rightarrow>
      ((int \<times> u8 list) list \<times> ('e, 'd) sys) option" where
  "read_times api da n sched fd count 0 s = Some ([], s)"
| "read_times api da n sched fd count (Suc k) s =
    (case sys_read api da n sched fd count s of
       None \<Rightarrow> None
     | Some (r, s) \<Rightarrow> map_option (\<lambda>(rs, s). (r # rs, s)) (read_times api da n sched fd count k s))"

text \<open>C37: On a FAT32 volume the position of a descriptor advances but is not used: when a read of \<open>count\<close>
  bytes of the file of the descriptor succeeds, with \<open>r\<close> bytes \<open>bs\<close> from the start of the file, then any
  number of calls of \<^verbatim>\<open>SYS_read\<close> all return these bytes again, whatever the position is, while the position
  moves on by \<open>r\<close> every time. The second part of a file is never delivered, and a program that reads
  until it gets nothing does not stop when the file is not empty.\<close>

theorem fat_read_repeats:
  assumes "g_vfs_backend (files s) \<noteq> 0" "fd_is 3 FD_FILE fd (kern s)"
    and "fat32_read_file n (f_name (cur_fd s fd)) count (fat (files s)) = Some (r, bs)" "0 \<le> r"
  shows "\<exists>s'. read_times api da n sched fd count k s = Some (replicate k (r, bs), s') \<and>
    f_pos (cur_fd s' fd) = f_pos (cur_fd s fd) + of_nat k * of_int r"
  using assms
proof (induction k arbitrary: s)
  case 0
  then show ?case by simp
next
  case (Suc k)
  let ?e = "cur_fd s fd"
  let ?s = "upd_fd fd (?e\<lparr>f_pos := f_pos ?e + of_int r\<rparr>) s"
  have fd: "cur_fd ?s fd = ?e\<lparr>f_pos := f_pos ?e + of_int r\<rparr>"
    using Suc.prems(2) by (simp add: cur_fd_def upd_fd_def)
  have "file_read api n fd count s = Some ((r, bs), ?s)"
    using Suc.prems(1,3,4) by (simp add: file_read_def vfs_read_at_def Let_def)
  then have r: "sys_read api da n sched fd count s = Some ((r, bs), ?s)" using sys_read_file [OF Suc.prems(2)] by metis
  have f: "fd_is 3 FD_FILE fd (kern ?s)"
    by (rule fd_is_upd) (use fd_is_in [OF Suc.prems(2)] in \<open>simp_all add: cur_fd_def\<close>)
  have v: "files ?s = files s" by simp
  obtain s' where "read_times api da n sched fd count k ?s = Some (replicate k (r, bs), s')"
      "f_pos (cur_fd s' fd) = f_pos (cur_fd ?s fd) + of_nat k * of_int r"
    using Suc.IH [OF _ f] Suc.prems(1,3,4) unfolding v fd by auto
  then show ?case using r fd by (auto simp: algebra_simps)
qed

theorem fat_read_repeats_witness:
  "\<exists>s'. read_times no_ext2 quiet_dev 2 (\<lambda>_ k. k) 3 4 5 (demo_sys FD_FILE) = Some (replicate 5 (1, [0]), s') \<and>
    f_pos (cur_fd s' 3) = f_pos (cur_fd (demo_sys FD_FILE) 3) + 5"
proof -
  have "fat32_read_file 2 ''A'' 4 demo_files = Some (1, [0])" by code_simp
  then show ?thesis
    using fat_read_repeats [of "demo_sys FD_FILE" 3 2 4 1 "[0]" no_ext2 quiet_dev "\<lambda>_ k. k" 5] demo_sys_parts by simp
qed

section \<open>Opening a file\<close>

definition ordinary_path :: "string \<Rightarrow> bool" where
  "ordinary_path p \<longleftrightarrow> dev_type p = None \<and>
    \<not> str_equal p ''/dev/tty'' \<and> \<not> str_equal p ''/dev/stdin'' \<and> \<not> str_equal p ''/dev/stdout'' \<and> \<not> str_equal p ''/dev/stderr''"

text \<open>C38: \<^verbatim>\<open>SYS_open\<close> does not set the type of the descriptor it hands out. A descriptor that was an end of a
  pipe and was closed is a pipe again when the next file is opened: the program reads and writes the pipe
  where it believes to use the file.\<close>

theorem open_after_pipe:
  assumes "fd_is 3 FD_PIPE fd (kern s)" "alloc_fd (kern (snd (sys_close fd s))) = Some (nat fd)"
    and "fixpath path 512 = Some p" "ordinary_path p"
  shows "\<exists>s'. sys_open path (snd (sys_close fd s)) = Some (fd, s') \<and> fd_is 3 FD_PIPE fd (kern s') \<and>
    (\<forall>bs. do_write_fd api n fd bs s' = Some (on_kern (pipe_write (nat fd) bs) s')) \<and>
    f_pipe (cur_fd s' fd) = f_pipe (cur_fd s fd) \<and> f_name (cur_fd s' fd) = take 255 p"
proof -
  let ?k = "kern (snd (sys_close fd s))"
  have fd: "3 \<le> fd" "fd < int MAX_FDS" "f_used (fds (kern s) (nat fd))" "f_type (fds (kern s) (nat fd)) = FD_PIPE"
    using assms(1) by (simp_all add: fd_is_def fd_in_def)
  have k: "fds ?k (nat fd) = (fds (kern s) (nat fd))\<lparr>f_used := False\<rparr>"
    using fd by (simp add: sys_close_def close_fd_def fd_in_def)
  have "open_dev p ?k = (-1, ?k)" using assms(4) by (simp add: ordinary_path_def open_dev_def)
  then have o: "sys_open path (snd (sys_close fd s)) = Some (fd, (snd (sys_close fd s))
      \<lparr>kern := set_fd (nat fd) ((fds ?k (nat fd))\<lparr>f_name := take 255 p, f_pos := 0, f_used := True\<rparr>) ?k\<rparr>)"
    using assms(2-4) fd(1) by (simp add: sys_open_def ordinary_path_def)
  then show ?thesis using fd k by (simp add: fd_is_def fd_in_def do_write_fd_def Let_def cur_fd_def)
qed

theorem open_after_pipe_witness:
  "\<exists>s'. sys_open ''/A'' (snd (sys_close 3 (demo_sys FD_PIPE))) = Some (3, s') \<and> fd_is 3 FD_PIPE 3 (kern s') \<and>
    f_name (cur_fd s' 3) = ''/A''"
proof -
  have "alloc_fd (kern (snd (sys_close 3 (demo_sys FD_PIPE)))) = Some (nat 3)" by code_simp
  moreover have "fixpath ''/A'' 512 = Some ''/A''" by code_simp
  moreover have "ordinary_path ''/A''" by code_simp
  ultimately show ?thesis using open_after_pipe [of 3 "demo_sys FD_PIPE" "''/A''" "''/A''" no_ext2 2] demo_sys_parts(3)
    by (auto simp: numeral_eq_Suc)
qed

lemma split_path_noslash: "w \<in> set (split_path p) \<Longrightarrow> CHR ''/'' \<notin> set w"
proof (induction p arbitrary: w)
  case (Cons c p)
  have "split_path p \<noteq> []" by (induction p) auto
  then obtain x xs where x: "split_path p = x # xs" by (cases "split_path p") auto
  then show ?case using Cons by (auto split: if_splits)
qed simp

lemma split_path_nonempty: "split_path p \<noteq> []"
  by (cases p) auto

lemma resolve_base:
  assumes "resolve_at_path n dirfd path mx f = Some (Some base, f')" "1 < mx"
  shows "CHR ''/'' \<notin> set base \<and> base \<noteq> []"
proof -
  obtain q where q: "base = take (mx - 1) (last (split_path q))" "last (split_path q) \<noteq> []"
    using assms(1) by (auto simp: resolve_at_path_def Let_def split: if_splits option.splits prod.splits)
  have "CHR ''/'' \<notin> set (last (split_path q))" using split_path_noslash [of "last (split_path q)" q] split_path_nonempty by simp
  then show ?thesis using q assms(2) by (auto dest: in_set_takeD)
qed

text \<open>Opened through \<^verbatim>\<open>SYS_openat\<close> on a FAT32 volume, a descriptor forgets the directory of its file: the
  name it keeps has no slash, and what is read through it is the file of that name in the directory that is
  current at the time of the read.\<close>

theorem openat_forgets_directory:
  assumes "\<not> g_use_ext2 s" "fixpath path VFS_MAX_PATH = Some p" "dev_type p = None"
    and "sys_openat n dirfd path s = Some (fd, s')" "0 \<le> fd" "g_vfs_backend (files s') \<noteq> 0"
  shows "CHR ''/'' \<notin> set (f_name (cur_fd s' fd)) \<and>
    vfs_read_at api n (f_name (cur_fd s' fd)) count pos (files s') =
      (case find_entry n (current_dir_cluster (fat (files s'))) (f_name (cur_fd s' fd)) (fat (files s')) of
         None \<Rightarrow> None
       | Some None \<Rightarrow> Some (-1, [])
       | Some (Some e) \<Rightarrow>
           if de_cluster e = 0 then Some (0, [])
           else read_chain (Suc (min count (unat (de_size e)))) (de_cluster e) (min count (unat (de_size e))) (fat (files s')))"
proof -
  have od: "open_dev p (kern s) = (-1, kern s)" using assms(3) by (simp add: open_dev_def)
  obtain a base f fd' where b: "resolve_at_path n dirfd a 255 (fat (files s)) = Some (Some base, f)"
    "fd = int fd'" "f_name (fds (kern s') fd') = take 255 base"
    using assms(1,2,4,5) od
    by (auto simp: sys_openat_def with_cwd_def Let_def split: option.splits prod.splits if_splits)
  have n: "CHR ''/'' \<notin> set base" "base \<noteq> []" using resolve_base [OF b(1)] by simp_all
  have nm: "f_name (cur_fd s' fd) = take 255 base" using b(2,3) by (simp add: cur_fd_def)
  have l: "CHR ''/'' \<notin> set (take 255 base)" "take 255 base \<noteq> []" "length (take 255 base) < 256" using n by (auto dest: in_set_takeD)
  show ?thesis unfolding nm using l(1) lookup_plain [OF l, of n "fat (files s')"] assms(6)
    by (auto simp: vfs_read_at_def fat32_read_file_def Let_def split: option.splits)
qed

theorem openat_forgets_directory_witness:
  "\<exists>s'. sys_openat 2 AT_FDCWD ''/A'' (demo_sys FD_FILE) = Some (4, s') \<and> CHR ''/'' \<notin> set (f_name (cur_fd s' 4))"
proof -
  have "map_option (\<lambda>(r, s). (r, g_vfs_backend (files s))) (sys_openat 2 AT_FDCWD ''/A'' (demo_sys FD_FILE)) = Some (4, 1)"
    by code_simp
  then obtain s' where s': "sys_openat 2 AT_FDCWD ''/A'' (demo_sys FD_FILE) = Some (4, s')" "g_vfs_backend (files s') = 1"
    by (auto split: prod.splits)
  have f: "fixpath ''/A'' VFS_MAX_PATH = Some ''/A''" "dev_type ''/A'' = None" by (code_simp, code_simp)
  show ?thesis using openat_forgets_directory [OF demo_sys_parts(2) f s'(1)] s' by simp
qed

section \<open>Writing a file\<close>

text \<open>C36: A write to a file on a FAT32 volume replaces the whole file, whatever was written through the
  descriptor before and wherever it stands. For a file of the current directory found by its short name,
  whose clusters form a chain apart from the directory's, and a volume that takes the write: after a
  write of \<open>bs\<close> the size in the file's entry is the number of bytes of \<open>bs\<close>, and a read of that name with
  any position and any buffer of at least that size returns \<open>bs\<close> and nothing else.\<close>

theorem fat_write_replaces:
  assumes "fat_wf (fat (files s))" "fchain (fat (files s)) (current_dir_cluster (fat (files s))) ds" "length ds < n"
    and "\<not> g_use_ext2 s" "g_vfs_backend (files s) \<noteq> 0" "fd_is 3 FD_FILE fd (kern s)" "name = f_name (cur_fd s fd)"
    and "CHR ''/'' \<notin> set name" "name \<noteq> []" "length name < 256"
    and "find_entry n (current_dir_cluster (fat (files s))) name (fat (files s)) = Some (Some e)" "de_name e = name_to_83 name"
    and "de_cluster e \<noteq> 0 \<longrightarrow> file_chain (fat (files s)) (de_cluster e) cs ds"
    and "length bs < 2 ^ 31" "fat32_write_file n name bs (fat (files s)) = Some (r, f')" "0 \<le> r"
  shows "\<exists>s'. do_write_fd api n fd bs s = Some (int (length bs), s') \<and>
    (\<forall>pos count. length bs \<le> count \<longrightarrow>
       vfs_read_at api n name count pos (files s') = Some (int (length bs), bs)) \<and>
    (\<exists>e'. fat32_stat n name (fat (files s')) = Some (Some e') \<and> de_size e' = of_nat (length bs))"
proof -
  have w: "r = int (length bs) \<and>
      (\<forall>len. length bs \<le> len \<longrightarrow> fat32_read_file n name len f' = Some (int (length bs), bs)) \<and>
      (\<exists>e'. fat32_stat n name f' = Some (Some e') \<and> de_size e' = of_nat (length bs))"
    by (rule write_then_read [OF assms(1-3,8-12) _ assms(14-16)]) (use assms(13) in simp)
  have "do_write_fd api n fd bs s = Some (int (length bs), s\<lparr>files := (files s)\<lparr>fat := f'\<rparr>\<rparr>)"
    using do_write_file [OF assms(6), of api n bs] assms(4,15,16) assms(7)
    by (simp add: file_write_def on_fat32_def Let_def)
  then show ?thesis using w assms(5) by (simp add: vfs_read_at_def)
qed

theorem fat_write_replaces_witness:
  "\<exists>s'. do_write_fd no_ext2 2 3 (replicate 600 7) (demo_sys FD_FILE) = Some (600, s') \<and>
    vfs_read_at no_ext2 2 ''A'' 4096 512 (files s') = Some (600, replicate 600 7)"
proof -
  obtain f' where f': "fat32_write_file 2 ''A'' (replicate 600 7) demo_files = Some (600, f')"
    using map_option_Some_fst [OF demo_write] by blast
  obtain e where e: "find_entry 2 2 ''A'' demo_files = Some (Some e)" "de_name e = name_to_83 ''A''" "de_cluster e = 3"
    using demo_find by (cases "find_entry 2 2 ''A'' demo_files"; cases "the (find_entry 2 2 ''A'' demo_files)") auto
  have c: "current_dir_cluster demo_files = 2" by (simp add: demo_files_def demo_volume_def)
  show ?thesis
    using fat_write_replaces [of "demo_sys FD_FILE" "[2]" 2 3 "''A''" e "[3]" "replicate 600 7" 600 f' no_ext2]
      demo_files_wf(2) demo_files_chain e f' c demo_sys_parts by auto
qed

section \<open>Directories\<close>

text \<open>\<^verbatim>\<open>SYS_readdir\<close> of an absolute path that does not lead to a directory moves the working directory of
  the volume to its root: it fails before the place where it restores the directory.\<close>

theorem readdir_moves_cwd:
  assumes "path = CHR ''/'' # rest" "rest \<noteq> []" "0 < mx"
    and "sys_readdir n path mx s = Some ((-1, es), s')"
  shows "current_dir_cluster (fat (files s')) = root_cluster (fat (files s))"
proof -
  let ?f = "fat32_set_cwd (root_cluster (fat (files s))) (fat (files s))"
  have c: "fat32_change_dir n path (fat (files s)) =
      (case find_entry n (current_dir_cluster ?f) rest ?f of
         None \<Rightarrow> None
       | Some None \<Rightarrow> Some (FAT_ERR_NOTFOUND, ?f)
       | Some (Some e) \<Rightarrow>
           if de_attr e AND 0x10 = 0 then Some (FAT_ERR_NOTDIR, ?f)
           else Some (0, fat32_set_cwd (if de_cluster e = 0 then root_cluster ?f else de_cluster e) ?f))"
    using assms(1,2) by (simp add: fat32_change_dir_def Let_def cong: if_cong option.case_cong)
  have "fat (files s') = ?f" using assms(3,4) unfolding sys_readdir_def on_fat32_def c
    by (auto split: option.splits if_splits)
  then show ?thesis by (simp add: fat32_set_cwd_def)
qed

theorem readdir_moves_cwd_witness:
  "\<exists>s'. sys_readdir 2 ''/B'' 4 (demo_sys FD_FILE) = Some ((-1, []), s') \<and>
    current_dir_cluster (fat (files s')) = root_cluster demo_files"
proof -
  have "map_option fst (sys_readdir 2 ''/B'' 4 (demo_sys FD_FILE)) = Some (-1, [])" by code_simp
  from map_option_Some_fst [OF this] obtain s' where
    s': "sys_readdir 2 ''/B'' 4 (demo_sys FD_FILE) = Some ((-1, []), s')" by blast
  show ?thesis using readdir_moves_cwd [OF refl _ _ s'] s' demo_sys_parts(1) by simp
qed

section \<open>Event descriptors\<close>

lemma le64_bytes64: "le64 (bytes64 v) = v"
proof -
  define m :: cmem where "m = (\<lambda>a. ucast (drop_bit (8 * unat a) v))"
  have at: "m (0 + of_nat i) = ucast (drop_bit (8 * i) v)" if "i < 8" for i using that by (simp add: m_def unat_u64)
  have "foldr (\<lambda>i x. push_bit 8 x OR ucast (m (0 + of_nat i))) [0..<8] 0 = v" by (rule load_bytes) (use at in simp_all)
  moreover have "le64 (bytes64 v) = foldr (\<lambda>i x. push_bit 8 x OR ucast (m (0 + of_nat i))) [0..<8] 0"
    unfolding le64_def bytes64_def foldr_map comp_def by (rule foldr_cong) (use at in simp_all)
  ultimately show ?thesis by simp
qed

lemma event_write:
  assumes "fd_is 3 FD_EVENT fd (kern s)" "e = cur_fd s fd"
  shows "do_write_fd api n fd (bytes64 v) s = Some (8, upd_fd fd (e\<lparr>f_counter := f_counter e + v\<rparr>) s)"
proof -
  have "length (bytes64 v) = 8" by (simp add: bytes64_def)
  then show ?thesis using assms by (auto simp: do_write_fd_def Let_def fd_is_def fd_in_def le64_bytes64)
qed

text \<open>C39: An event descriptor adds up what is written to it, modulo 2 to the 64, and a read takes the sum: after
  writes of \<open>vs\<close> a read returns the counter plus all of them and leaves the counter at zero.\<close>

theorem eventfd_sum:
  assumes "fd_is 3 FD_EVENT fd (kern s)"
  shows "\<exists>s1 s2. writev_loop api n fd (map bytes64 vs) 0 s = Some ((8 * int (length vs), False), s1) \<and>
    sys_read api da n sched fd 8 s1 = Some ((8, bytes64 (f_counter (cur_fd s fd) + sum_list vs)), s2) \<and>
    f_counter (cur_fd s2 fd) = 0"
proof -
  have "\<exists>s1. writev_loop api n fd (map bytes64 vs) t s = Some ((t + 8 * int (length vs), False), s1) \<and>
      fd_is 3 FD_EVENT fd (kern s1) \<and> f_counter (cur_fd s1 fd) = f_counter (cur_fd s fd) + sum_list vs" for t
    using assms
  proof (induction vs arbitrary: s t)
    case Nil
    then show ?case by simp
  next
    case (Cons v vs)
    let ?e = "cur_fd s fd"
    let ?s = "upd_fd fd (?e\<lparr>f_counter := f_counter ?e + v\<rparr>) s"
    have "fd_is 3 FD_EVENT fd (kern ?s)"
      by (rule fd_is_upd) (use fd_is_in [OF Cons.prems] in \<open>simp_all add: cur_fd_def\<close>)
    from Cons.IH [OF this, of "t + 8"] show ?case using event_write [OF Cons.prems refl, of api n v]
      by (auto simp: add.assoc algebra_simps)
  qed
  from this [of 0] obtain s1 where s1: "writev_loop api n fd (map bytes64 vs) 0 s = Some ((8 * int (length vs), False), s1)"
    "fd_is 3 FD_EVENT fd (kern s1)" "f_counter (cur_fd s1 fd) = f_counter (cur_fd s fd) + sum_list vs" by auto
  have "sys_read api da n sched fd 8 s1 = Some ((8, bytes64 (f_counter (cur_fd s1 fd))), upd_fd fd ((cur_fd s1 fd)\<lparr>f_counter := 0\<rparr>) s1)"
    using s1(2) by (auto simp: sys_read_def Let_def fd_is_def fd_in_def)
  then show ?thesis using s1(1,3) by simp
qed

theorem eventfd_sum_witness:
  "\<exists>s1 s2. writev_loop no_ext2 2 3 [bytes64 (-1), bytes64 7] 0 (demo_sys FD_EVENT) = Some ((16, False), s1) \<and>
    sys_read no_ext2 quiet_dev 2 (\<lambda>_ k. k) 3 8 s1 = Some ((8, bytes64 11), s2)"
  using eventfd_sum [OF demo_sys_parts(3) [of FD_EVENT], of no_ext2 2 "[-1, 7]" quiet_dev "\<lambda>_ k. k"] demo_sys_parts(4) [of FD_EVENT] by auto

section \<open>Waiting\<close>



text \<open>\<^verbatim>\<open>SYS_poll\<close> returns the number of entries it marks as readable, and looks at the first sixteen entries
  only.\<close>

theorem poll_counts:
  "fst (sys_poll da pfds s) = int (length (filter id (snd (sys_poll da pfds s)))) \<and>
    length (snd (sys_poll da pfds s)) = min 16 (length pfds)"
proof -
  have one: "poll_one da fd s = 0 \<or> poll_one da fd s = 1" for fd
    by (auto simp: poll_one_def fd_readable_def fd_is_def fd_in_def Let_def)
  have "sum_list (map (\<lambda>fd. poll_one da fd s) xs) = length (filter id (map (\<lambda>c. c > 0) (map (\<lambda>fd. poll_one da fd s) xs)))" for xs
  proof (induction xs)
    case (Cons x xs)
    then show ?case using one [of x] by auto
  qed simp
  then show ?thesis by (auto simp: sys_poll_def Let_def)
qed

end
