(* ===== verification/LibcStdio.thy ===== *)
theory LibcStdio
  imports LibcStdlib "HOL-Library.Signed_Division"
begin

text \<open>
  \<^verbatim>\<open>libc/stdio.c\<close>: the wrappers of the system calls, characters and lines, and formatted input and output.
  A program is its memory and the state of the kernel behind it; the instruction \<^verbatim>\<open>int 0x80\<close> is the parameter
  \<open>sysc\<close>, which may read and write both. A \<^verbatim>\<open>char\<close> variable whose address is passed to the kernel lives at
  the address \<open>loc\<close>, the static \<^verbatim>\<open>FILE\<close> of \<^verbatim>\<open>fopen\<close> at \<open>sf\<close>. The variable arguments are a list of
  64-bit values; taking an argument that is not there has no result. Arrays of digits that never leave
  a function are lists.
\<close>

type_synonym 'k prog = "cmem \<times> 'k"
type_synonym 'k int80 = "nat \<Rightarrow> u64 \<Rightarrow> u64 \<Rightarrow> u64 \<Rightarrow> 'k prog \<Rightarrow> u64 \<times> 'k prog"

section \<open>System calls\<close>

text \<open>The result of the call is cut to an \<^verbatim>\<open>int\<close>, an \<^verbatim>\<open>int\<close> argument is sign-extended to a \<^verbatim>\<open>long\<close>.\<close>

definition as_int :: "u64 \<times> 'k prog \<Rightarrow> i32 \<times> 'k prog" where "as_int r = (ucast (fst r), snd r)"

definition open_file :: "'k int80 \<Rightarrow> addr \<Rightarrow> i32 \<Rightarrow> 'k prog \<Rightarrow> i32 \<times> 'k prog" where
  "open_file sysc path flags st = as_int (sysc 5 path (scast flags) 0 st)"
definition close_file :: "'k int80 \<Rightarrow> i32 \<Rightarrow> 'k prog \<Rightarrow> i32 \<times> 'k prog" where
  "close_file sysc fd st = as_int (sysc 6 (scast fd) 0 0 st)"
definition read_file :: "'k int80 \<Rightarrow> i32 \<Rightarrow> addr \<Rightarrow> i32 \<Rightarrow> 'k prog \<Rightarrow> i32 \<times> 'k prog" where
  "read_file sysc fd buf count st = as_int (sysc 3 (scast fd) buf (scast count) st)"
definition write_file :: "'k int80 \<Rightarrow> i32 \<Rightarrow> addr \<Rightarrow> i32 \<Rightarrow> 'k prog \<Rightarrow> i32 \<times> 'k prog" where
  "write_file sysc fd buf count st = as_int (sysc 4 (scast fd) buf (scast count) st)"
definition lseek :: "'k int80 \<Rightarrow> i32 \<Rightarrow> i32 \<Rightarrow> i32 \<Rightarrow> 'k prog \<Rightarrow> i32 \<times> 'k prog" where
  "lseek sysc fd off whence st = as_int (sysc 199 (scast fd) (scast off) (scast whence) st)"
definition unlink :: "'k int80 \<Rightarrow> addr \<Rightarrow> 'k prog \<Rightarrow> i32 \<times> 'k prog" where
  "unlink sysc path st = as_int (sysc 10 path 0 0 st)"
definition mkdir :: "'k int80 \<Rightarrow> addr \<Rightarrow> 'k prog \<Rightarrow> i32 \<times> 'k prog" where
  "mkdir sysc path st = as_int (sysc 136 path 0 0 st)"
definition rmdir :: "'k int80 \<Rightarrow> addr \<Rightarrow> 'k prog \<Rightarrow> i32 \<times> 'k prog" where
  "rmdir sysc path st = as_int (sysc 137 path 0 0 st)"
definition stat :: "'k int80 \<Rightarrow> addr \<Rightarrow> addr \<Rightarrow> 'k prog \<Rightarrow> i32 \<times> 'k prog" where
  "stat sysc path buf st = as_int (sysc 188 path buf 0 st)"
definition fstat :: "'k int80 \<Rightarrow> i32 \<Rightarrow> addr \<Rightarrow> 'k prog \<Rightarrow> i32 \<times> 'k prog" where
  "fstat sysc fd buf st = as_int (sysc 189 (scast fd) buf 0 st)"
definition kbhit :: "'k int80 \<Rightarrow> 'k prog \<Rightarrow> i32 \<times> 'k prog" where
  "kbhit sysc st = as_int (sysc 198 0 0 0 st)"

section \<open>Characters and lines\<close>

text \<open>\<^verbatim>\<open>write(fd, &c, 1)\<close> for a local \<open>c\<close>\<close>

definition write_char :: "'k int80 \<Rightarrow> addr \<Rightarrow> i32 \<Rightarrow> u8 \<Rightarrow> 'k prog \<Rightarrow> i32 \<times> 'k prog" where
  "write_char sysc loc fd c st = (case st of (m, k) \<Rightarrow> write_file sysc fd loc 1 (m(loc := c), k))"

definition putchar :: "'k int80 \<Rightarrow> addr \<Rightarrow> u8 \<Rightarrow> 'k prog \<Rightarrow> 'k prog" where
  "putchar sysc loc c st = snd (write_char sysc loc 1 c st)"

definition puts :: "'k int80 \<Rightarrow> addr \<Rightarrow> addr \<Rightarrow> 'k prog \<Rightarrow> 'k prog option" where
  "puts sysc newline s st =
    (case strlen (fst st) s of
       None \<Rightarrow> None
     | Some n \<Rightarrow> Some (snd (write_file sysc 1 newline 1 (snd (write_file sysc 1 s (of_nat n) st)))))"

definition getchar :: "'k int80 \<Rightarrow> addr \<Rightarrow> 'k prog \<Rightarrow> u8 \<times> 'k prog" where
  "getchar sysc loc st = (case snd (read_file sysc 0 loc 1 st) of (m, k) \<Rightarrow> (m loc, m, k))"

partial_function (option) gets_from :: "'k int80 \<Rightarrow> addr \<Rightarrow> addr \<Rightarrow> i32 \<Rightarrow> 'k prog \<Rightarrow> 'k prog option" where
  "gets_from sysc loc buf i st =
    (case getchar sysc loc st of (c, m, k) \<Rightarrow>
       if c = 0x0A then Some (m(buf + scast i := 0), k)
       else if c = 0x08 then gets_from sysc loc buf (if sint i > 0 then i - 1 else i) (m, k)
       else gets_from sysc loc buf (i + 1) (m(buf + scast i := c), k))"

definition gets :: "'k int80 \<Rightarrow> addr \<Rightarrow> addr \<Rightarrow> 'k prog \<Rightarrow> (addr \<times> 'k prog) option" where
  "gets sysc loc buf st = map_option (Pair buf) (gets_from sysc loc buf 0 st)"

section \<open>Streams\<close>

text \<open>A \<^verbatim>\<open>FILE\<close> is one \<^verbatim>\<open>int\<close> in memory.\<close>

definition ld32 :: "cmem \<Rightarrow> addr \<Rightarrow> i32" where
  "ld32 m a = foldr (\<lambda>i v. push_bit 8 v OR ucast (m (a + of_nat i))) [0..<4] 0"

definition st32 :: "addr \<Rightarrow> i32 \<Rightarrow> cmem \<Rightarrow> cmem" where
  "st32 a v m = fold (\<lambda>i m. m(a + of_nat i := ucast (drop_bit (8 * i) v))) [0..<4] m"

definition fopen :: "'k int80 \<Rightarrow> addr \<Rightarrow> addr \<Rightarrow> 'k prog \<Rightarrow> addr \<times> 'k prog" where
  "fopen sysc sf path st =
    (case open_file sysc path 0 st of (fd, m, k) \<Rightarrow>
       if sint fd < 0 then (NULL, m, k) else (sf, st32 sf fd m, k))"

definition fclose :: "'k int80 \<Rightarrow> addr \<Rightarrow> 'k prog \<Rightarrow> i32 \<times> 'k prog" where
  "fclose sysc f st = close_file sysc (ld32 (fst st) f) st"

text \<open>The division of two \<^verbatim>\<open>int\<close> values; a zero divisor traps.\<close>

definition blocks_of :: "i32 \<Rightarrow> i32 \<Rightarrow> i32 option" where
  "blocks_of r sz = (if sint r \<le> 0 then Some 0 else if sz = 0 then None else Some (of_int (sint r sdiv sint sz)))"

definition fread :: "'k int80 \<Rightarrow> addr \<Rightarrow> i32 \<Rightarrow> i32 \<Rightarrow> addr \<Rightarrow> 'k prog \<Rightarrow> (i32 \<times> 'k prog) option" where
  "fread sysc buf sz count f st =
    (case read_file sysc (ld32 (fst st) f) buf (sz * count) st of (r, st) \<Rightarrow>
       map_option (\<lambda>b. (b, st)) (blocks_of r sz))"

definition fwrite :: "'k int80 \<Rightarrow> addr \<Rightarrow> i32 \<Rightarrow> i32 \<Rightarrow> addr \<Rightarrow> 'k prog \<Rightarrow> (i32 \<times> 'k prog) option" where
  "fwrite sysc buf sz count f st =
    (case write_file sysc (ld32 (fst st) f) buf (sz * count) st of (r, st) \<Rightarrow>
       map_option (\<lambda>b. (b, st)) (blocks_of r sz))"

function fgets_from :: "'k int80 \<Rightarrow> addr \<Rightarrow> addr \<Rightarrow> i32 \<Rightarrow> addr \<Rightarrow> nat \<Rightarrow> 'k prog \<Rightarrow> nat \<times> 'k prog" where
  "fgets_from sysc loc buf n f i st =
    (if int i < sint (n - 1) then
       case read_file sysc (ld32 (fst st) f) loc 1 st of (r, m, k) \<Rightarrow>
         if sint r \<le> 0 then (i, m, k)
         else let c = m loc; m = m(buf + of_nat i := c) in
           if c = 0x0A then (Suc i, m, k) else fgets_from sysc loc buf n f (Suc i) (m, k)
     else (i, st))"
  by pat_completeness auto
termination
  by (relation "measure (\<lambda>(_, _, _, n, _, i, _). nat (sint (n - 1) - int i))") auto

definition fgets :: "'k int80 \<Rightarrow> addr \<Rightarrow> addr \<Rightarrow> i32 \<Rightarrow> addr \<Rightarrow> 'k prog \<Rightarrow> addr \<times> 'k prog" where
  "fgets sysc loc buf n f st =
    (case fgets_from sysc loc buf n f 0 st of (i, m, k) \<Rightarrow>
       (if i > 0 then buf else NULL, m(buf + of_nat i := 0), k))"

definition fputs :: "'k int80 \<Rightarrow> addr \<Rightarrow> addr \<Rightarrow> 'k prog \<Rightarrow> (i32 \<times> 'k prog) option" where
  "fputs sysc s f st =
    (case strlen (fst st) s of
       None \<Rightarrow> None
     | Some n \<Rightarrow> (case write_file sysc (ld32 (fst st) f) s (of_nat n) st of (r, st) \<Rightarrow> Some (if sint r > 0 then 0 else -1, st)))"

definition fputc :: "'k int80 \<Rightarrow> addr \<Rightarrow> i32 \<Rightarrow> addr \<Rightarrow> 'k prog \<Rightarrow> i32 \<times> 'k prog" where
  "fputc sysc loc c f st =
    (case write_char sysc loc (ld32 (fst st) f) (ucast c) st of (r, st) \<Rightarrow> (if r = 1 then c else -1, st))"

section \<open>Formatted input\<close>

text \<open>One conversion of \<^verbatim>\<open>sscanf\<close>; \<open>v\<close> is the pointer taken from the arguments.\<close>

definition scan_dec :: "addr \<Rightarrow> addr \<Rightarrow> cmem \<Rightarrow> (addr \<times> cmem) option" where
  "scan_dec v s m =
    (case skip_blanks m s of
       None \<Rightarrow> None
     | Some s \<Rightarrow>
         let sign = (if m s = 0x2D then -1 else 1);
             s = (if m s = 0x2D \<or> m s = 0x2B then s + 1 else s)
         in case read_digits m s 0 of None \<Rightarrow> None | Some (n, s) \<Rightarrow> Some (s, st32 v (sign * n) m))"

partial_function (option) scan :: "addr \<Rightarrow> addr \<Rightarrow> u64 list \<Rightarrow> nat \<Rightarrow> cmem \<Rightarrow> (nat \<times> cmem) option" where
  "scan s fmt ap matched m =
    (if m fmt = 0 then Some (matched, m)
     else if m fmt = 0x20 then scan s (fmt + 1) ap matched m
     else if m fmt \<noteq> 0x25 then
       if m s = m fmt then scan (s + 1) (fmt + 1) ap matched m else Some (matched, m)
     else let fmt = fmt + 1 in
       if m fmt = 0x64 then
         case ap of
           [] \<Rightarrow> None
         | v # ap \<Rightarrow> (case scan_dec v s m of None \<Rightarrow> None | Some (s, m) \<Rightarrow> scan s (fmt + 1) ap (Suc matched) m)
       else if m fmt = 0x63 then
         case ap of [] \<Rightarrow> None | v # ap \<Rightarrow> scan (s + 1) (fmt + 1) ap (Suc matched) (m(v := m s))
       else scan s (fmt + 1) ap matched m)"

definition sscanf :: "addr \<Rightarrow> addr \<Rightarrow> u64 list \<Rightarrow> cmem \<Rightarrow> (nat \<times> cmem) option" where
  "sscanf s fmt ap m = scan s fmt ap 0 m"

section \<open>Formatted output to a buffer\<close>

definition hex_char :: "u64 \<Rightarrow> u8" where
  "hex_char d = (if d < 10 then 0x30 + ucast d else 0x61 + ucast (d - 10))"

function low_hex :: "u64 \<Rightarrow> u8 list" where
  "low_hex v = hex_char (v AND 0xF) # (if drop_bit 4 v \<noteq> 0 then low_hex (drop_bit 4 v) else [])"
  by pat_completeness auto
termination
proof (relation "measure unat", goal_cases)
  case (2 v)
  then have "v \<noteq> 0" by auto
  then have "unat v > 0" by (simp add: unat_gt_0)
  then show ?case by (simp add: drop_bit_eq_div unat_div)
qed simp

fun put_limited :: "addr \<Rightarrow> int \<Rightarrow> u8 list \<Rightarrow> nat \<times> cmem \<Rightarrow> nat \<times> cmem" where
  "put_limited buf n [] pm = pm"
| "put_limited buf n (b # bs) (p, m) =
    (if int p < n - 1 then put_limited buf n bs (Suc p, m(buf + of_nat p := b)) else (p, m))"

partial_function (option) put_string :: "addr \<Rightarrow> int \<Rightarrow> addr \<Rightarrow> nat \<Rightarrow> cmem \<Rightarrow> (nat \<times> cmem) option" where
  "put_string buf n s p m =
    (if m s \<noteq> 0 \<and> int p < n - 1 then put_string buf n (s + 1) (Suc p) (m(buf + of_nat p := m s)) else Some (p, m))"

definition put_byte :: "addr \<Rightarrow> u8 \<Rightarrow> nat \<times> cmem \<Rightarrow> nat \<times> cmem" where
  "put_byte buf b pm = (case pm of (p, m) \<Rightarrow> (Suc p, m(buf + of_nat p := b)))"

text \<open>The bytes of \<^verbatim>\<open>"(null)"\<close>\<close>

definition null_text :: "u8 list" where "null_text = [0x28, 0x6E, 0x75, 0x6C, 0x6C, 0x29]"

definition int_arg :: "bool \<Rightarrow> u64 \<Rightarrow> u64" where
  "int_arg lflag a = (if lflag then a else scast (ucast a :: i32))"
definition uint_arg :: "bool \<Rightarrow> u64 \<Rightarrow> u64" where
  "uint_arg lflag a = (if lflag then a else ucast (ucast a :: u32))"

text \<open>The \<^verbatim>\<open>switch\<close> on the conversion character \<open>c\<close>\<close>

definition put_conversion ::
  "addr \<Rightarrow> int \<Rightarrow> u8 \<Rightarrow> bool \<Rightarrow> u64 list \<Rightarrow> nat \<times> cmem \<Rightarrow> (u64 list \<times> nat \<times> cmem) option" where
  "put_conversion buf n c lflag ap pm =
    (if c = 0x64 then
       case ap of
         [] \<Rightarrow> None
       | a # ap \<Rightarrow>
           let v = int_arg lflag a;
               pm = (if sint v < 0 then put_byte buf 0x2D pm else pm);
               v = (if sint v < 0 then - v else v)
           in Some (ap, put_limited buf n (rev (low_digits v)) pm)
     else if c = 0x75 then
       case ap of [] \<Rightarrow> None | a # ap \<Rightarrow> Some (ap, put_limited buf n (rev (low_digits (uint_arg lflag a))) pm)
     else if c = 0x78 \<or> c = 0x58 then
       case ap of [] \<Rightarrow> None | a # ap \<Rightarrow> Some (ap, put_limited buf n (rev (low_hex (uint_arg lflag a))) pm)
     else if c = 0x73 then
       case ap of
         [] \<Rightarrow> None
       | s # ap \<Rightarrow>
           if s = NULL then Some (ap, put_limited buf n null_text pm)
           else map_option (Pair ap) (put_string buf n s (fst pm) (snd pm))
     else if c = 0x63 then
       case ap of [] \<Rightarrow> None | a # ap \<Rightarrow> Some (ap, put_byte buf (ucast a) pm)
     else if c = 0x25 then Some (ap, put_byte buf 0x25 pm)
     else let pm = put_byte buf 0x25 pm in Some (ap, if c \<noteq> 0 then put_byte buf c pm else pm))"

partial_function (option) skip_l :: "cmem \<Rightarrow> addr \<Rightarrow> bool \<Rightarrow> (bool \<times> addr) option" where
  "skip_l m f lflag = (if m f = 0x6C then skip_l m (f + 1) True else Some (lflag, f))"

partial_function (option) format_from ::
  "addr \<Rightarrow> int \<Rightarrow> addr \<Rightarrow> u64 list \<Rightarrow> nat \<Rightarrow> cmem \<Rightarrow> (nat \<times> cmem) option" where
  "format_from buf n f ap p m =
    (if m f \<noteq> 0 \<and> int p < n - 1 then
       if m f \<noteq> 0x25 then format_from buf n (f + 1) ap (Suc p) (m(buf + of_nat p := m f))
       else case skip_l m (f + 1) False of
         None \<Rightarrow> None
       | Some (lflag, f) \<Rightarrow>
           (case put_conversion buf n (m f) lflag ap (p, m) of
              None \<Rightarrow> None
            | Some (ap, p, m) \<Rightarrow> format_from buf n (f + 1) ap p m)
     else Some (p, m))"

definition vsnprintf :: "addr \<Rightarrow> i32 \<Rightarrow> addr \<Rightarrow> u64 list \<Rightarrow> cmem \<Rightarrow> (nat \<times> cmem) option" where
  "vsnprintf buf n fmt ap m =
    (if buf = NULL \<or> sint n \<le> 0 then Some (0, m)
     else case format_from buf (sint n) fmt ap 0 m of
       None \<Rightarrow> None
     | Some (p, m) \<Rightarrow> Some (p, m(buf + of_nat p := 0)))"

definition sprintf :: "addr \<Rightarrow> addr \<Rightarrow> u64 list \<Rightarrow> cmem \<Rightarrow> (nat \<times> cmem) option" where
  "sprintf buf fmt ap m = vsnprintf buf 4096 fmt ap m"

section \<open>Formatted output to a stream\<close>

definition print_dec :: "'k int80 \<Rightarrow> addr \<Rightarrow> u64 \<Rightarrow> 'k prog \<Rightarrow> 'k prog" where
  "print_dec sysc loc n st = fold (putchar sysc loc) (rev (low_digits n)) st"

definition print_hex :: "'k int80 \<Rightarrow> addr \<Rightarrow> u64 \<Rightarrow> 'k prog \<Rightarrow> 'k prog" where
  "print_hex sysc loc n st = fold (putchar sysc loc) (rev (low_hex n)) st"

text \<open>\<^verbatim>\<open>while (*s) put(*s++)\<close>\<close>

partial_function (option) put_all :: "(u8 \<Rightarrow> 'k prog \<Rightarrow> 'k prog) \<Rightarrow> addr \<Rightarrow> 'k prog \<Rightarrow> 'k prog option" where
  "put_all put s st = (if fst st s \<noteq> 0 then put_all put (s + 1) (put (fst st s) st) else Some st)"

text \<open>The digit loop of \<^verbatim>\<open>fprintf\<close> runs while \<^verbatim>\<open>b > buf\<close>, which holds after every round.\<close>

partial_function (option) fprintf_digits :: "u32 \<Rightarrow> u8 list \<Rightarrow> u8 list option" where
  "fprintf_digits u b =
    (let b = (0x30 + ucast (u mod 10)) # b; u = u div 10 in if length b > 0 then fprintf_digits u b else Some b)"

definition fprintf_conversion ::
  "(u8 \<Rightarrow> 'k prog \<Rightarrow> 'k prog) \<Rightarrow> u8 \<Rightarrow> u64 list \<Rightarrow> 'k prog \<Rightarrow> (u64 list \<times> 'k prog) option" where
  "fprintf_conversion put c ap st =
    (if c = 0x64 then
       case ap of
         [] \<Rightarrow> None
       | a # ap \<Rightarrow>
           let v = (ucast a :: i32);
               st = (if sint v < 0 then put 0x2D st else st);
               v = (if sint v < 0 then - v else v)
           in case fprintf_digits v [] of None \<Rightarrow> None | Some b \<Rightarrow> Some (ap, fold put b st)
     else if c = 0x73 then
       case ap of [] \<Rightarrow> None | s # ap \<Rightarrow> map_option (Pair ap) (put_all put s st)
     else if c = 0x63 then
       case ap of [] \<Rightarrow> None | a # ap \<Rightarrow> Some (ap, put (ucast a) st)
     else if c = 0x25 then Some (ap, put 0x25 st)
     else Some (ap, st))"

partial_function (option) fprintf_from ::
  "(u8 \<Rightarrow> 'k prog \<Rightarrow> 'k prog) \<Rightarrow> addr \<Rightarrow> u64 list \<Rightarrow> 'k prog \<Rightarrow> 'k prog option" where
  "fprintf_from put p ap st =
    (if fst st p = 0 then Some st
     else if fst st p \<noteq> 0x25 then fprintf_from put (p + 1) ap (put (fst st p) st)
     else case fprintf_conversion put (fst st (p + 1)) ap st of
       None \<Rightarrow> None
     | Some (ap, st) \<Rightarrow> fprintf_from put (p + 2) ap st)"

definition fprintf :: "'k int80 \<Rightarrow> addr \<Rightarrow> addr \<Rightarrow> addr \<Rightarrow> u64 list \<Rightarrow> 'k prog \<Rightarrow> (i32 \<times> 'k prog) option" where
  "fprintf sysc loc f fmt ap st =
    map_option (Pair 0) (fprintf_from (\<lambda>c st. snd (fputc sysc loc (scast c) f st)) fmt ap st)"

definition printf_conversion ::
  "'k int80 \<Rightarrow> addr \<Rightarrow> u8 \<Rightarrow> u64 list \<Rightarrow> 'k prog \<Rightarrow> (u64 list \<times> 'k prog) option" where
  "printf_conversion sysc loc c ap st =
    (if c = 0x64 then
       case ap of
         [] \<Rightarrow> None
       | a # ap \<Rightarrow>
           let v = (ucast a :: i32);
               st = (if sint v < 0 then putchar sysc loc 0x2D st else st);
               v = (if sint v < 0 then - v else v)
           in Some (ap, print_dec sysc loc (ucast v) st)
     else if c = 0x75 then
       case ap of [] \<Rightarrow> None | a # ap \<Rightarrow> Some (ap, print_dec sysc loc (ucast (ucast a :: u32)) st)
     else if c = 0x78 \<or> c = 0x58 then
       case ap of [] \<Rightarrow> None | a # ap \<Rightarrow> Some (ap, print_hex sysc loc (ucast (ucast a :: u32)) st)
     else if c = 0x73 then
       case ap of [] \<Rightarrow> None | s # ap \<Rightarrow> map_option (Pair ap) (put_all (putchar sysc loc) s st)
     else if c = 0x63 then
       case ap of [] \<Rightarrow> None | a # ap \<Rightarrow> Some (ap, putchar sysc loc (ucast a) st)
     else if c = 0x25 then Some (ap, putchar sysc loc 0x25 st)
     else Some (ap, st))"

partial_function (option) printf_from ::
  "'k int80 \<Rightarrow> addr \<Rightarrow> addr \<Rightarrow> u64 list \<Rightarrow> 'k prog \<Rightarrow> 'k prog option" where
  "printf_from sysc loc p ap st =
    (if fst st p = 0 then Some st
     else if fst st p \<noteq> 0x25 then printf_from sysc loc (p + 1) ap (putchar sysc loc (fst st p) st)
     else case printf_conversion sysc loc (fst st (p + 1)) ap st of
       None \<Rightarrow> None
     | Some (ap, st) \<Rightarrow> printf_from sysc loc (p + 2) ap st)"

definition printf :: "'k int80 \<Rightarrow> addr \<Rightarrow> addr \<Rightarrow> u64 list \<Rightarrow> 'k prog \<Rightarrow> (i32 \<times> 'k prog) option" where
  "printf sysc loc fmt ap st = map_option (Pair 0) (printf_from sysc loc fmt ap st)"

declare low_hex.simps [simp del] fgets_from.simps [simp del]

end
