(* ===== verification/LibcStdioProps.thy ===== *)
theory LibcStdioProps
  imports LibcStdlibProps LibcStdio
begin

text \<open>
  What formatted output produces: a format is read as a list of directives, \<open>render\<close> gives the text they
  stand for, and \<^verbatim>\<open>vsnprintf\<close> and \<^verbatim>\<open>printf\<close> are related to it.
\<close>

section \<open>Formats and their text\<close>

text \<open>A number of \<open>l\<close> modifiers, then the conversion.\<close>

datatype directive = Chr u8 | Dec nat | Uns nat | Hex nat bool | Str | Cha | Percent

fun code :: "directive \<Rightarrow> u8 list" where
  "code (Chr c) = [c]"
| "code (Dec k) = 0x25 # replicate k 0x6C @ [0x64]"
| "code (Uns k) = 0x25 # replicate k 0x6C @ [0x75]"
| "code (Hex k up) = 0x25 # replicate k 0x6C @ [if up then 0x58 else 0x78]"
| "code Str = [0x25, 0x73]"
| "code Cha = [0x25, 0x63]"
| "code Percent = [0x25, 0x25]"

definition format :: "directive list \<Rightarrow> u8 list" where "format ds = concat (map code ds)"

text \<open>Literal characters are not the percent sign.\<close>

fun plain :: "directive \<Rightarrow> bool" where
  "plain (Chr c) \<longleftrightarrow> c \<noteq> 0x25"
| "plain d \<longleftrightarrow> True"

fun dec_text :: "nat \<Rightarrow> u8 list" where
  "dec_text n = (if n < 10 then [] else dec_text (n div 10)) @ [0x30 + of_nat (n mod 10)]"

fun hex_text :: "nat \<Rightarrow> u8 list" where
  "hex_text n = (if n < 16 then [] else hex_text (n div 16)) @
    [if n mod 16 < 10 then 0x30 + of_nat (n mod 16) else 0x61 + of_nat (n mod 16 - 10)]"

declare dec_text.simps [simp del] hex_text.simps [simp del]

definition int_text :: "int \<Rightarrow> u8 list" where
  "int_text i = (if i < 0 then 0x2D # dec_text (nat (- i)) else dec_text (nat i))"

fun takes_arg :: "directive \<Rightarrow> bool" where
  "takes_arg (Chr c) = False"
| "takes_arg Percent = False"
| "takes_arg d = True"

text \<open>\<open>str s\<close> is the contents of the string at \<open>s\<close>.\<close>

fun dir_text :: "(addr \<Rightarrow> u8 list) \<Rightarrow> directive \<Rightarrow> u64 \<Rightarrow> u8 list" where
  "dir_text str (Chr c) a = [c]"
| "dir_text str Percent a = [0x25]"
| "dir_text str (Dec k) a = int_text (if 0 < k then sint a else sint (ucast a :: i32))"
| "dir_text str (Uns k) a = dec_text (if 0 < k then unat a else unat (ucast a :: u32))"
| "dir_text str (Hex k up) a = hex_text (if 0 < k then unat a else unat (ucast a :: u32))"
| "dir_text str Cha a = [ucast a]"
| "dir_text str Str a = (if a = NULL then null_text else str a)"

fun render :: "(addr \<Rightarrow> u8 list) \<Rightarrow> directive list \<Rightarrow> u64 list \<Rightarrow> u8 list option" where
  "render str [] ap = Some []"
| "render str (d # ds) ap =
    (if takes_arg d then case ap of [] \<Rightarrow> None | a # ap \<Rightarrow> map_option (append (dir_text str d a)) (render str ds ap)
     else map_option (append (dir_text str d 0)) (render str ds ap))"

text \<open>The addresses passed for string conversions\<close>

fun string_args :: "directive list \<Rightarrow> u64 list \<Rightarrow> addr set" where
  "string_args [] ap = {}"
| "string_args (d # ds) ap =
    (if takes_arg d then case ap of [] \<Rightarrow> {} | a # ap \<Rightarrow> (if d = Str then {a} else {}) \<union> string_args ds ap
     else string_args ds ap)"

section \<open>Digits\<close>

lemma low_digits_text: "rev (low_digits u) = dec_text (unat u)"
proof (induction u rule: low_digits.induct)
  case (1 u)
  have d: "unat (u div 10) = unat u div 10" by (simp add: unat_div)
  then have "u div 10 = 0 \<longleftrightarrow> unat u < 10" by (metis div_less_iff_less_mult less_one mult_1 unat_eq_zero zero_less_numeral)
  then show ?case using 1 d by (subst low_digits.simps, subst dec_text.simps) (simp add: last_digit)
qed

lemma hex_char_text: "hex_char (v AND 0xF) =
    (if unat v mod 16 < 10 then 0x30 + of_nat (unat v mod 16) else 0x61 + of_nat (unat v mod 16 - 10))"
proof -
  have "v AND 0xF = take_bit 4 v" by (simp add: take_bit_eq_mask mask_numeral)
  then have "v AND 0xF = v mod 16" by (simp add: take_bit_eq_mod)
  then have u: "unat (v AND 0xF) = unat v mod 16" by (simp add: unat_mod)
  define d where "d = unat v mod 16"
  have "d < 16" by (simp add: d_def)
  then have "unat (of_nat d :: u64) = d" by (simp add: unat_u64)
  then have "unat (v AND 0xF) = unat (of_nat d :: u64)" using u by (simp add: d_def)
  then have v: "v AND 0xF = of_nat d" by (rule unsigned_word_eqI)
  from \<open>d < 16\<close> have "d = 0 \<or> d = 1 \<or> d = 2 \<or> d = 3 \<or> d = 4 \<or> d = 5 \<or> d = 6 \<or> d = 7 \<or> d = 8 \<or> d = 9 \<or>
    d = 10 \<or> d = 11 \<or> d = 12 \<or> d = 13 \<or> d = 14 \<or> d = 15" by arith
  then show ?thesis unfolding v d_def [symmetric] by (elim disjE) (simp_all add: hex_char_def)
qed

lemma low_hex_text: "rev (low_hex v) = hex_text (unat v)"
proof (induction v rule: low_hex.induct)
  case (1 v)
  have d: "unat (drop_bit 4 v) = unat v div 16" by (simp add: drop_bit_eq_div unat_div)
  then have "drop_bit 4 v = 0 \<longleftrightarrow> unat v < 16" by (metis div_less_iff_less_mult less_one mult_1 unat_eq_zero zero_less_numeral)
  then show ?case using 1 d by (subst low_hex.simps, subst hex_text.simps) (simp add: hex_char_text)
qed

lemma neg_unat: "sint v < 0 \<Longrightarrow> unat (- v) = nat (- sint v)" for v :: "'a::len word"
proof -
  assume s: "sint v < 0"
  have "uint (word_of_int k :: 'a word) = take_bit LENGTH('a) k" for k by (simp add: unsigned_of_int)
  from this [of "- sint v"] have "uint (- v) = take_bit LENGTH('a) (- sint v)" by simp
  moreover have "- sint v \<le> 2 ^ (LENGTH('a) - 1)" using sint_greater_eq [of v] by simp
  then have "- sint v < 2 ^ LENGTH('a)" by (rule le_less_trans) simp
  ultimately have "uint (- v) = - sint v" using s by (simp add: take_bit_int_eq_self)
  then show ?thesis by (metis nat_uint_eq)
qed

lemma nonneg_unat: "0 \<le> sint v \<Longrightarrow> unat v = nat (sint v)" for v :: "'a::len word"
proof -
  assume "0 \<le> sint v"
  moreover have "sint v < 2 ^ LENGTH('a)" using sint_less [of v] by (rule less_trans) simp
  ultimately have "uint v = sint v" by (simp add: uint_sint take_bit_int_eq_self)
  then show ?thesis by (metis nat_uint_eq)
qed

section \<open>Filling the buffer\<close>

definition filled :: "addr \<Rightarrow> nat \<Rightarrow> cmem \<Rightarrow> u8 list \<Rightarrow> cmem \<Rightarrow> bool" where
  "filled buf N m xs mm \<longleftrightarrow>
    (\<forall>i<length xs. mm (buf + of_nat i) = xs ! i) \<and> (\<forall>a. \<not> in_area buf N a \<longrightarrow> mm a = m a)"

lemma filled_snoc:
  assumes "filled buf N m xs mm" "length xs < N" "N < 2 ^ 32"
  shows "filled buf N m (xs @ [b]) (mm(buf + of_nat (length xs) := b))"
proof -
  have "in_area buf N (buf + of_nat (length xs))" using assms(2) unfolding in_area_def by blast
  moreover have "buf + of_nat i \<noteq> buf + of_nat (length xs)" if "i < length xs" for i
    using offset_inj [of i "length xs" buf] that assms(2,3) by simp
  ultimately show ?thesis using assms(1) by (auto simp: filled_def nth_append less_Suc_eq)
qed

lemma filled_prefix: "filled buf N m (xs @ ys) mm \<Longrightarrow> filled buf N m xs mm"
  unfolding filled_def by (metis length_append nth_append trans_less_add1)

lemma put_limited_filled:
  assumes "N = nat n" "N < 2 ^ 32" "filled buf N m xs mm" "length xs \<le> N - 1"
  shows "\<exists>mm'. put_limited buf n bs (length xs, mm) = (length (take (N - 1) (xs @ bs)), mm') \<and>
    filled buf N m (take (N - 1) (xs @ bs)) mm'"
  using assms(3,4)
proof (induction bs arbitrary: xs mm)
  case Nil
  then show ?case by simp
next
  case (Cons b bs)
  show ?case
  proof (cases "length xs < N - 1")
    case True
    then have "int (length xs) < n - 1" using assms(1) by linarith
    moreover have "filled buf N m (xs @ [b]) (mm(buf + of_nat (length xs) := b))"
      using filled_snoc [OF Cons.prems(1) _ assms(2)] True by simp
    ultimately show ?thesis using Cons.IH [of "xs @ [b]" "mm(buf + of_nat (length xs) := b)"] True
      by (simp del: fun_upd_apply take_append)
  next
    case False
    then have "length xs = N - 1" "\<not> int (length xs) < n - 1" using Cons.prems(2) assms(1) by linarith+
    then show ?thesis using Cons.prems(1) by simp
  qed
qed

lemma put_string_filled:
  assumes "N = nat n" "N < 2 ^ 32" "filled buf N m xs mm" "length xs \<le> N - 1"
    "cstr m s bs" "\<forall>i\<le>length bs. \<not> in_area buf N (s + of_nat i)"
  shows "\<exists>mm'. put_string buf n s (length xs) mm = Some (length (take (N - 1) (xs @ bs)), mm') \<and>
    filled buf N m (take (N - 1) (xs @ bs)) mm'"
  using assms(3-)
proof (induction bs arbitrary: s xs mm)
  case Nil
  then have "mm s = 0" using Nil.prems(4) [rule_format, of 0] by (simp add: filled_def)
  then show ?case using Nil by (subst put_string.simps) simp
next
  case (Cons b bs)
  have b: "mm s = b" "b \<noteq> 0" using Cons.prems(1,3,4) by (auto simp: filled_def dest: spec [of _ 0])
  show ?case
  proof (cases "length xs < N - 1")
    case True
    then have "int (length xs) < n - 1" using assms(1) by linarith
    moreover have "filled buf N m (xs @ [b]) (mm(buf + of_nat (length xs) := b))"
      using filled_snoc [OF Cons.prems(1) _ assms(2)] True by simp
    moreover have "\<forall>i\<le>length bs. \<not> in_area buf N (s + 1 + of_nat i)"
      using Cons.prems(4) by (auto simp: add.assoc dest: spec [of _ "Suc i" for i])
    ultimately show ?thesis using Cons.IH [of "xs @ [b]" "mm(buf + of_nat (length xs) := b)" "s + 1"] True Cons.prems(3) b
      by (subst put_string.simps) (simp del: fun_upd_apply take_append)
  next
    case False
    then have "length xs = N - 1" "\<not> int (length xs) < n - 1" using Cons.prems(2) assms(1) by linarith+
    then show ?thesis using Cons.prems(1) by (subst put_string.simps) simp
  qed
qed

section \<open>One directive\<close>

fun modifiers :: "directive \<Rightarrow> nat" where
  "modifiers (Dec k) = k"
| "modifiers (Uns k) = k"
| "modifiers (Hex k up) = k"
| "modifiers d = 0"

lemma code_shape: "\<not> (\<exists>c. d = Chr c) \<Longrightarrow> code d = 0x25 # replicate (modifiers d) 0x6C @ [last (code d)] \<and> last (code d) \<noteq> 0x6C"
  by (cases d) simp_all

lemma skip_l_correct:
  "cstr m f (replicate k 0x6C @ c # r) \<Longrightarrow> c \<noteq> 0x6C \<Longrightarrow> skip_l m f b = Some (b \<or> 0 < k, f + of_nat k)"
proof (induction k arbitrary: f b)
  case 0
  then show ?case by (subst skip_l.simps) simp
next
  case (Suc k)
  then show ?case by (subst skip_l.simps) (simp add: add.assoc)
qed

lemma sint_int_arg: "sint (int_arg l a) = (if l then sint a else sint (ucast a :: i32))"
proof -
  have "sint (scast w :: u64) = sint w" for w :: i32
    using sint_greater_eq [of w] sint_less [of w] by (simp add: signed_scast_eq signed_take_bit_int_eq_self)
  then show ?thesis by (simp add: int_arg_def)
qed

lemma unat_widen: "unat (ucast w :: u64) = unat w" for w :: u32
proof -
  have "unat w < 2 ^ 32" using unsigned_less [of w] by simp
  then have "unat w < 2 ^ 64" by simp
  then show ?thesis by (simp add: unsigned_ucast_eq take_bit_nat_eq_self)
qed

lemma unat_uint_arg: "unat (uint_arg l a) = (if l then unat a else unat (ucast a :: u32))"
  using unat_widen [of "ucast a"] by (cases l) (simp_all only: uint_arg_def if_True if_False)

text \<open>\<open>appended N xs bs\<close> is what of \<open>xs @ bs\<close> fits into a buffer of \<open>N\<close> bytes besides the terminator.\<close>

abbreviation appended :: "nat \<Rightarrow> u8 list \<Rightarrow> u8 list \<Rightarrow> u8 list" where
  "appended N xs bs \<equiv> take (N - 1) (xs @ bs)"

lemma put_dec_filled:
  assumes "N = nat n" "N < 2 ^ 32" "filled buf N m xs mm" "length xs < N - 1"
  shows "\<exists>mm'. put_limited buf n (rev (low_digits (if sint v < 0 then - v else v)))
        (if sint v < 0 then put_byte buf 0x2D (length xs, mm) else (length xs, mm)) =
      (length (appended N xs (int_text (sint v))), mm') \<and> filled buf N m (appended N xs (int_text (sint v))) mm'"
proof (cases "sint v < 0")
  case True
  then have t: "int_text (sint v) = 0x2D # rev (low_digits (- v))" by (simp add: int_text_def low_digits_text neg_unat)
  have "filled buf N m (xs @ [0x2D]) (mm(buf + of_nat (length xs) := 0x2D))"
    using filled_snoc [OF assms(3) _ assms(2)] assms(4) by simp
  from put_limited_filled [OF assms(1,2) this, of "rev (low_digits (- v))"] show ?thesis
    using True assms(4) by (simp add: t put_byte_def del: take_append fun_upd_apply)
next
  case False
  then have "int_text (sint v) = rev (low_digits v)" by (simp add: int_text_def low_digits_text nonneg_unat)
  then show ?thesis using False put_limited_filled [OF assms(1-3), of "rev (low_digits v)"] assms(4)
    by (simp del: take_append)
qed

lemma put_byte_filled:
  assumes "N < 2 ^ 32" "filled buf N m xs mm" "length xs < N - 1"
  shows "\<exists>mm'. put_byte buf b (length xs, mm) = (length (appended N xs [b]), mm') \<and> filled buf N m (appended N xs [b]) mm'"
proof -
  have "appended N xs [b] = xs @ [b]" using assms(3) by simp
  then show ?thesis using filled_snoc [OF assms(2) _ assms(1), of b] assms(3) by (simp add: put_byte_def)
qed

lemma put_conversion_filled:
  assumes "N = nat n" "N < 2 ^ 32" "filled buf N m xs mm" "length xs < N - 1" "takes_arg d"
    "d = Str \<Longrightarrow> a \<noteq> NULL \<Longrightarrow> cstr m a (str a) \<and> (\<forall>i\<le>length (str a). \<not> in_area buf N (a + of_nat i))"
  shows "\<exists>mm'. put_conversion buf n (last (code d)) (0 < modifiers d) (a # ap) (length xs, mm) =
      Some (ap, length (appended N xs (dir_text str d a)), mm') \<and> filled buf N m (appended N xs (dir_text str d a)) mm'"
proof -
  have l: "length xs \<le> N - 1" using assms(4) by simp
  note put = put_limited_filled [OF assms(1-3) l]
  show ?thesis
  proof (cases d)
    case (Dec k)
    then show ?thesis using put_dec_filled [OF assms(1-4), of "int_arg (0 < k) a"]
      by (simp add: put_conversion_def Let_def sint_int_arg del: take_append cong: if_cong)
  next
    case (Uns k)
    then show ?thesis using put [of "rev (low_digits (uint_arg (0 < k) a))"]
      by (simp add: put_conversion_def low_digits_text unat_uint_arg del: take_append)
  next
    case (Hex k up)
    then show ?thesis using put [of "rev (low_hex (uint_arg (0 < k) a))"]
      by (cases up) (simp_all add: put_conversion_def low_hex_text unat_uint_arg del: take_append)
  next
    case Str
    show ?thesis
    proof (cases "a = NULL")
      case True
      then show ?thesis using put [of null_text] Str by (simp add: put_conversion_def del: take_append)
    next
      case False
      then have "cstr m a (str a)" "\<forall>i\<le>length (str a). \<not> in_area buf N (a + of_nat i)" using assms(6) Str by auto
      from put_string_filled [OF assms(1-3) l this] show ?thesis using Str False
        by (auto simp add: put_conversion_def simp del: take_append)
    qed
  next
    case Cha
    then show ?thesis using put_byte_filled [OF assms(2-4), of "ucast a"]
      by (simp add: put_conversion_def del: take_append)
  qed (use assms(5) in simp_all)
qed

lemma put_percent_filled:
  assumes "N < 2 ^ 32" "filled buf N m xs mm" "length xs < N - 1"
  shows "\<exists>mm'. put_conversion buf n 0x25 l ap (length xs, mm) = Some (ap, length (appended N xs [0x25]), mm') \<and>
    filled buf N m (appended N xs [0x25]) mm'"
  using put_byte_filled [OF assms, of "0x25"] by (simp add: put_conversion_def del: take_append)

section \<open>A whole format\<close>

lemma filled_cstr:
  assumes "filled buf N m xs mm" "cstr m f fs" "\<forall>i\<le>length fs. \<not> in_area buf N (f + of_nat i)"
  shows "cstr mm f fs"
  using assms(2) cstr_cong [of fs mm f m] assms(1,3) by (simp add: filled_def)

lemma conversion_read:
  assumes "cstr mm f (code d @ r)" "\<not> (\<exists>c. d = Chr c)"
  shows "mm f = 0x25" "skip_l mm (f + 1) False = Some (0 < modifiers d, f + 1 + of_nat (modifiers d))"
    "mm (f + 1 + of_nat (modifiers d)) = last (code d)"
    "f + 1 + of_nat (modifiers d) + 1 = f + of_nat (length (code d))"
proof -
  define c where "c = last (code d)"
  have d: "code d = 0x25 # replicate (modifiers d) 0x6C @ [c]" "c \<noteq> 0x6C" using code_shape [OF assms(2)] by (simp_all add: c_def)
  then have s: "mm f = 0x25" "cstr mm (f + 1) (replicate (modifiers d) 0x6C @ c # r)" using assms(1) by simp_all
  show "mm f = 0x25" by (rule s(1))
  show "skip_l mm (f + 1) False = Some (0 < modifiers d, f + 1 + of_nat (modifiers d))"
    using skip_l_correct [OF s(2) d(2)] by simp
  have "cstr mm (f + 1 + of_nat (modifiers d)) (c # r)" using cstr_drop [OF s(2), of "modifiers d"] by simp
  then show "mm (f + 1 + of_nat (modifiers d)) = last (code d)" by (simp add: c_def)
  show "f + 1 + of_nat (modifiers d) + 1 = f + of_nat (length (code d))" by (simp add: d(1) algebra_simps)
qed

lemma appended_again: "take n (take n (xs @ bs) @ cs) = take n (xs @ bs @ cs)"
  by (cases "n \<le> length xs"; cases "n \<le> length xs + length bs") (simp_all add: min_def)

definition strings_ok :: "addr \<Rightarrow> nat \<Rightarrow> cmem \<Rightarrow> (addr \<Rightarrow> u8 list) \<Rightarrow> addr set \<Rightarrow> bool" where
  "strings_ok buf N m str S \<longleftrightarrow>
    (\<forall>s\<in>S. s \<noteq> NULL \<longrightarrow> cstr m s (str s) \<and> (\<forall>i\<le>length (str s). \<not> in_area buf N (s + of_nat i)))"

lemma directive_step:
  assumes N: "N = nat n" "N < 2 ^ 32"
    and c: "cstr mm f (code d @ r)" "plain d" "filled buf N m xs mm" "length xs < N - 1"
    and a: "render str (d # ds) ap = Some out" "strings_ok buf N m str (string_args (d # ds) ap)"
  obtains ap' out' bs mm' where "render str ds ap' = Some out'" "out = bs @ out'"
    "strings_ok buf N m str (string_args ds ap')" "filled buf N m (appended N xs bs) mm'"
    "format_from buf n f ap (length xs) mm =
      format_from buf n (f + of_nat (length (code d))) ap' (length (appended N xs bs)) mm'"
proof -
  have room: "int (length xs) < n - 1" using N(1) c(4) by linarith
  show ?thesis
  proof (cases "\<exists>c. d = Chr c")
    case True
    then obtain ch where d: "d = Chr ch" by blast
    have ch: "mm f = ch" "ch \<noteq> 0" "ch \<noteq> 0x25" using c(1,2) d by simp_all
    obtain out' where o: "render str ds ap = Some out'" "out = [ch] @ out'" using a(1) d by auto
    have fl: "filled buf N m (appended N xs [ch]) (mm(buf + of_nat (length xs) := ch))"
      using filled_snoc [OF c(3) _ N(2), of ch] c(4) by simp
    show ?thesis
    proof (rule that [OF o _ fl])
      show "format_from buf n f ap (length xs) mm =
        format_from buf n (f + of_nat (length (code d))) ap (length (appended N xs [ch])) (mm(buf + of_nat (length xs) := ch))"
        using c(4) by (subst format_from.simps) (simp add: ch room d del: fun_upd_apply)
    qed (use a(2) d in simp)
  next
    case False
    note rd = conversion_read [OF c(1) False]
    have go: "format_from buf n f ap (length xs) mm = format_from buf n (f + of_nat (length (code d))) ap' p' mm'"
      if "put_conversion buf n (last (code d)) (0 < modifiers d) ap (length xs, mm) = Some (ap', p', mm')" for ap' p' mm'
      unfolding rd(4) [symmetric] using that rd(1-3) room by (subst format_from.simps) simp
    show ?thesis
    proof (cases "takes_arg d")
      case True
      then obtain x ap' out' where o: "ap = x # ap'" "render str ds ap' = Some out'" "out = dir_text str d x @ out'"
        using a(1) by (auto split: list.splits)
      have s: "strings_ok buf N m str (string_args ds ap')" using a(2) True o(1) by (simp add: strings_ok_def)
      have "cstr m x (str x) \<and> (\<forall>i\<le>length (str x). \<not> in_area buf N (x + of_nat i))" if "d = Str" "x \<noteq> NULL"
        using a(2) that o(1) by (simp add: strings_ok_def)
      from put_conversion_filled [where str = str, OF N c(3,4) True this] obtain mm' where
        "put_conversion buf n (last (code d)) (0 < modifiers d) ap (length xs, mm) =
          Some (ap', length (appended N xs (dir_text str d x)), mm')"
        and "filled buf N m (appended N xs (dir_text str d x)) mm'" using o(1) by blast
      from that [OF o(2,3) s this(2) go [OF this(1)]] show ?thesis .
    next
      case no_arg: False
      then have d: "d = Percent" using False by (cases d) auto
      from put_percent_filled [OF N(2) c(3,4)] obtain mm' where
        m: "put_conversion buf n (last (code d)) (0 < modifiers d) ap (length xs, mm) = Some (ap, length (appended N xs [0x25]), mm')"
          "filled buf N m (appended N xs [0x25]) mm'" unfolding d by (metis code.simps(7) last.simps list.distinct(1))
      obtain out' where o: "render str ds ap = Some out'" "out = [0x25] @ out'" using a(1) d by auto
      have s: "strings_ok buf N m str (string_args ds ap)" using a(2) d by simp
      from that [OF o s m(2) go [OF m(1)]] show ?thesis .
    qed
  qed
qed

lemma format_from_filled:
  assumes N: "N = nat n" "N < 2 ^ 32"
  shows "\<forall>d\<in>set ds. plain d \<Longrightarrow> cstr m f (format ds) \<Longrightarrow> \<forall>i\<le>length (format ds). \<not> in_area buf N (f + of_nat i) \<Longrightarrow>
    render str ds ap = Some out \<Longrightarrow> strings_ok buf N m str (string_args ds ap) \<Longrightarrow>
    filled buf N m xs mm \<Longrightarrow> length xs \<le> N - 1 \<Longrightarrow>
    \<exists>mm'. format_from buf n f ap (length xs) mm = Some (length (appended N xs out), mm') \<and> filled buf N m (appended N xs out) mm'"
proof (induction ds arbitrary: f ap out xs mm)
  case Nil
  then have "mm f = 0" using filled_cstr [OF Nil.prems(6), of f "[]"] by (simp add: format_def)
  then show ?case using Nil.prems by (subst format_from.simps) simp
next
  case (Cons d ds)
  have fmt: "format (d # ds) = code d @ format ds" by (simp add: format_def)
  have c: "cstr mm f (code d @ format ds)" using filled_cstr [OF Cons.prems(6) Cons.prems(2,3)] fmt by simp
  have rest: "cstr m (f + of_nat (length (code d))) (format ds)" "\<forall>i\<le>length (format ds). \<not> in_area buf N (f + of_nat (length (code d)) + of_nat i)"
  proof -
    show "cstr m (f + of_nat (length (code d))) (format ds)" using cstr_drop [OF Cons.prems(2), of "length (code d)"] fmt by simp
    show "\<forall>i\<le>length (format ds). \<not> in_area buf N (f + of_nat (length (code d)) + of_nat i)"
      using Cons.prems(3) fmt by (auto simp: add.assoc of_nat_add [symmetric] simp del: of_nat_add)
  qed
  show ?case
  proof (cases "length xs < N - 1")
    case False
    then have "\<not> int (length xs) < n - 1" "length xs = N - 1" using Cons.prems(7) N(1) by linarith+
    then show ?thesis using Cons.prems(6) by (subst format_from.simps) simp
  next
    case True
    have "plain d" using Cons.prems(1) by simp
    from directive_step [OF N c this Cons.prems(6) True Cons.prems(4,5)] obtain ap' out' bs mm' where
      step: "render str ds ap' = Some out'" "out = bs @ out'" "strings_ok buf N m str (string_args ds ap')"
        "filled buf N m (appended N xs bs) mm'"
      and mm': "format_from buf n f ap (length xs) mm =
        format_from buf n (f + of_nat (length (code d))) ap' (length (appended N xs bs)) mm'" .
    have "\<forall>d\<in>set ds. plain d" using Cons.prems(1) by simp
    from Cons.IH [OF this rest step(1,3,4)] show ?thesis unfolding mm' step(2)
      by (simp add: appended_again del: take_append)
  qed
qed

lemma vsnprintf_filled:
  assumes "buf \<noteq> NULL" "0 < sint n" "N = nat (sint n)" "cstr m fmt (format ds)" "\<forall>d\<in>set ds. plain d"
    "render str ds ap = Some out" "\<forall>i\<le>length (format ds). \<not> in_area buf N (fmt + of_nat i)"
    "strings_ok buf N m str (string_args ds ap)"
  shows "\<exists>m'. vsnprintf buf n fmt ap m = Some (length (take (N - 1) out), m') \<and>
    filled buf N m (take (N - 1) out) m' \<and> m' (buf + of_nat (length (take (N - 1) out))) = 0"
proof -
  have N: "N < 2 ^ 32" using sint_less [of n] assms(2,3) by simp
  have "filled buf N m [] m" by (simp add: filled_def)
  from format_from_filled [OF assms(3) N assms(5,4,7,6,8) this] obtain mm where
    mm: "format_from buf (sint n) fmt ap 0 m = Some (length (take (N - 1) out), mm)" "filled buf N m (take (N - 1) out) mm" by auto
  have "length (take (N - 1) out) < N" using assms(2,3) by simp
  from filled_prefix [OF filled_snoc [OF mm(2) this N, of 0]]
  have "filled buf N m (take (N - 1) out) (mm(buf + of_nat (length (take (N - 1) out)) := 0))" .
  then show ?thesis using mm(1) assms(1,2) by (auto simp: vsnprintf_def)
qed

text \<open>C30: \<^verbatim>\<open>vsnprintf\<close> writes the text of its format, cut to \<open>n - 1\<close> bytes, and a terminating zero, returns
  the number of bytes before the zero and changes no byte outside of the \<open>n\<close> bytes of the buffer. The
  text is that of \<open>render\<close>: decimal and hexadecimal numbers of an \<^verbatim>\<open>int\<close> or, with a modifier \<^verbatim>\<open>l\<close>, of a
  \<^verbatim>\<open>long\<close>, the extreme negative ones included, strings, characters, percent signs and literal characters.
  The format and the strings lie outside of the buffer.\<close>

theorem vsnprintf_renders:
  assumes "buf \<noteq> NULL" "0 < sint n" "cstr m fmt (format ds)" "\<forall>d\<in>set ds. plain d"
    "render str ds ap = Some out" "\<forall>i\<le>length (format ds). \<not> in_area buf (nat (sint n)) (fmt + of_nat i)"
    "strings_ok buf (nat (sint n)) m str (string_args ds ap)" "shown = take (nat (sint n) - 1) out"
  shows "\<exists>m'. vsnprintf buf n fmt ap m = Some (length shown, m') \<and>
    (\<forall>i<length shown. m' (buf + of_nat i) = shown ! i) \<and> m' (buf + of_nat (length shown)) = 0 \<and>
    (\<forall>a. \<not> in_area buf (nat (sint n)) a \<longrightarrow> m' a = m a)"
  using vsnprintf_filled [OF assms(1,2) refl assms(3-7)] unfolding assms(8) filled_def by blast

section \<open>The end of the buffer\<close>

lemma format_literal:
  assumes N: "N = nat n" "N < 2 ^ 32"
  shows "cstr m f (xs @ r) \<Longrightarrow> \<forall>i\<le>length (xs @ r). \<not> in_area buf N (f + of_nat i) \<Longrightarrow> 0x25 \<notin> set xs \<Longrightarrow>
    filled buf N m ys mm \<Longrightarrow> length ys + length xs \<le> N - 1 \<Longrightarrow>
    \<exists>mm'. format_from buf n f ap (length ys) mm = format_from buf n (f + of_nat (length xs)) ap (length (ys @ xs)) mm' \<and>
      filled buf N m (ys @ xs) mm'"
proof (induction xs arbitrary: f ys mm)
  case Nil
  then show ?case by auto
next
  case (Cons x xs)
  have x: "mm f = x" "x \<noteq> 0" "x \<noteq> 0x25" using filled_cstr [OF Cons.prems(4,1,2)] Cons.prems(3) by simp_all
  have room: "int (length ys) < n - 1" using Cons.prems(5) N(1) by simp
  have fl: "filled buf N m (ys @ [x]) (mm(buf + of_nat (length ys) := x))"
    using filled_snoc [OF Cons.prems(4) _ N(2), of x] Cons.prems(5) by simp
  have "\<forall>i\<le>length (xs @ r). \<not> in_area buf N (f + 1 + of_nat i)"
    using Cons.prems(2) by (auto simp: add.assoc dest: spec [of _ "Suc i" for i])
  from Cons.IH [OF _ this _ fl] Cons.prems(1,3,5) obtain mm' where
    "format_from buf n (f + 1) ap (Suc (length ys)) (mm(buf + of_nat (length ys) := x)) =
      format_from buf n (f + 1 + of_nat (length xs)) ap (Suc (length ys) + length xs) mm'" "filled buf N m (ys @ x # xs) mm'"
    by (auto simp del: fun_upd_apply)
  then show ?case using x room by (subst format_from.simps) (auto simp: add.assoc simp del: fun_upd_apply)
qed

text \<open>C31: \<^verbatim>\<open>vsnprintf\<close> can write one byte past the buffer. When a conversion character it does not know
  stands where two bytes of room are left besides none for the terminator, both the percent sign and the
  character are stored without a test, and the terminator lands at \<open>buf[n]\<close>.\<close>

theorem vsnprintf_overrun:
  assumes "buf \<noteq> NULL" "1 < sint n" "cstr m fmt (xs @ [0x25, c])" "0x25 \<notin> set xs" "length xs = nat (sint n) - 2"
    "c \<notin> {0x25, 0x63, 0x64, 0x6C, 0x73, 0x75, 0x78, 0x58}"
    "\<forall>i\<le>length xs + 2. \<not> in_area buf (nat (sint n)) (fmt + of_nat i)"
  shows "\<exists>m'. vsnprintf buf n fmt ap m = Some (nat (sint n), m') \<and> m' (buf + of_nat (nat (sint n))) = 0"
proof -
  define N where "N = nat (sint n)"
  have N: "N = nat (sint n)" "N < 2 ^ 32" using sint_less [of n] assms(2) by (simp_all add: N_def)
  have "filled buf N m [] m" by (simp add: filled_def)
  have "length xs \<le> N - 1" using assms(5) N(1) by simp
  with format_literal [OF N assms(3) _ assms(4) \<open>filled buf N m [] m\<close>, of ap] assms(7) obtain mm where
    f: "format_from buf (sint n) fmt ap 0 m = format_from buf (sint n) (fmt + of_nat (length xs)) ap (length xs) mm"
      "filled buf N m xs mm" unfolding N_def by auto
  have "cstr mm fmt (xs @ [0x25, c])" using filled_cstr [OF f(2) assms(3)] assms(7) N(1) by simp
  from cstr_drop [OF this, of "length xs"] have c: "cstr mm (fmt + of_nat (length xs)) [0x25, c]" by simp
  have room: "int (length xs) < sint n - 1" "\<not> int (Suc (Suc (length xs))) < sint n - 1" "Suc (Suc (length xs)) = N"
    using assms(2,5) N(1) by linarith+
  have l: "skip_l mm (fmt + of_nat (length xs) + 1) False = Some (False, fmt + of_nat (length xs) + 1)"
    using c assms(6) by (subst skip_l.simps) simp
  have "\<exists>mm'. put_conversion buf (sint n) c False ap (length xs, mm) = Some (ap, N, mm')"
    using c assms(6) room(3) by (auto simp: put_conversion_def put_byte_def Let_def)
  then obtain mm' where p: "put_conversion buf (sint n) c False ap (length xs, mm) = Some (ap, N, mm')" by blast
  have "format_from buf (sint n) g ap N mm' = Some (N, mm')" for g using room(2,3) by (subst format_from.simps) simp
  then have "format_from buf (sint n) fmt ap 0 m = Some (N, mm')" unfolding f(1)
    using c room(1) l p by (subst format_from.simps) simp
  then show ?thesis using assms(1,2) by (simp add: vsnprintf_def N_def)
qed

section \<open>Reading back\<close>

lemma ld32_st32 [simp]: "ld32 (st32 a v m) a = v"
  unfolding ld32_def st32_def by (rule load_bytes) (simp_all add: store_bytes_at del: fun_upd_apply)

lemma st32_other: "(\<And>i. i < 4 \<Longrightarrow> x \<noteq> a + of_nat i) \<Longrightarrow> st32 a v m x = m x"
  unfolding st32_def by (rule store_bytes_other)

lemma dec_text_low: "k < 2 ^ 64 \<Longrightarrow> dec_text k = rev (low_digits (of_nat k))"
  by (simp add: low_digits_text unat_u64)

lemma dec_text_digits:
  assumes "k < 2 ^ 64"
  shows "\<forall>c\<in>set (dec_text k). digit c" "digits_value 0 (dec_text k) = of_nat k" "dec_text k \<noteq> []"
proof -
  note t = dec_text_low [OF assms]
  show "\<forall>c\<in>set (dec_text k). digit c" using low_digits_digit [of _ "of_nat k"] by (simp add: t)
  show "digits_value 0 (dec_text k) = of_nat k" using assms by (simp add: t low_digits_value unat_u64)
  show "dec_text k \<noteq> []" by (subst dec_text.simps) simp
qed

lemma scan_dec_int_text:
  assumes "cstr m s (int_text (sint w))"
  shows "\<exists>e. scan_dec v s m = Some (e, st32 v w m)"
proof -
  define k where "k = (if sint w < 0 then nat (- sint w) else nat (sint w))"
  have k: "k < 2 ^ 64" using sint_greater_eq [of w] sint_less [of w] by (auto simp: k_def)
  note d = dec_text_digits [OF k]
  have t: "int_text (sint w) = (if sint w < 0 then 0x2D # dec_text k else dec_text k)" by (simp add: int_text_def k_def)
  have w: "(if sint w < 0 then -1 else 1) * of_nat k = w" by (simp add: k_def of_nat_nat)
  obtain c cs where c: "dec_text k = c # cs" "digit c" using d(1,3) by (cases "dec_text k") auto
  have "skip_blanks m s = Some s" using assms c digit_facts [OF c(2)] by (subst skip_blanks.simps) (auto simp: t split: if_splits)
  moreover have "read_digits m (if sint w < 0 then s + 1 else s) 0 =
      Some (of_nat k, (if sint w < 0 then s + 1 else s) + of_nat (length (dec_text k)))"
    using read_digits_correct [of m "if sint w < 0 then s + 1 else s" "dec_text k" 0] assms d(1,2)
    by (simp add: t split: if_splits)
  moreover have "m s = (if sint w < 0 then 0x2D else c)" using assms c(1) by (auto simp: t split: if_splits)
  ultimately show ?thesis using w digit_facts [OF c(2)] by (auto simp: scan_dec_def Let_def split: if_splits)
qed

lemma int_text_length: "length (int_text (sint w)) \<le> 11" for w :: i32
proof -
  have "length (dec_text k) \<le> 10" if "k \<le> 2 ^ 31" for k
    using low_digits_length [of "of_nat k" 10] that by (simp add: dec_text_low unat_u64)
  moreover have "nat (- sint w) \<le> 2 ^ 31" "nat (sint w) \<le> 2 ^ 31" using sint_greater_eq [of w] sint_less [of w] by simp_all
  ultimately have "length (dec_text (nat (- sint w))) \<le> 10" "length (dec_text (nat (sint w))) \<le> 10" by blast+
  then show ?thesis by (simp add: int_text_def)
qed

lemma int_text_nonzero: "0 \<notin> set (int_text (sint w))" for w :: i32
proof -
  have "nat (- sint w) < 2 ^ 64" "nat (sint w) < 2 ^ 64" using sint_greater_eq [of w] sint_less [of w] by simp_all
  from this [THEN dec_text_digits(1)] show ?thesis by (auto simp: int_text_def)
qed

text \<open>C32: An \<^verbatim>\<open>int\<close> printed by \<^verbatim>\<open>sprintf\<close> with \<^verbatim>\<open>%d\<close> is read back by \<^verbatim>\<open>sscanf\<close> with the same format:
  one conversion matches and stores the value, for every value, the least one included. The format, the
  buffer and the variable do not overlap.\<close>

theorem sscanf_sprintf:
  assumes "buf \<noteq> NULL" "cstr m fmt [0x25, 0x64]" "\<forall>i\<le>2. \<not> in_area buf 4096 (fmt + of_nat i)"
    "\<forall>i\<le>2. \<not> in_area v 4 (fmt + of_nat i)"
  shows "\<exists>p m1 m2. sprintf buf fmt [a] m = Some (p, m1) \<and> sscanf buf fmt [v] m1 = Some (1, m2) \<and> ld32 m2 v = ucast a"
proof -
  define t where "t = int_text (sint (ucast a :: i32))"
  have f: "format [Dec 0] = [0x25, 0x64]" by (simp add: format_def)
  have "render (\<lambda>_. []) [Dec 0] [a] = Some t" by (simp add: t_def)
  from vsnprintf_filled [of buf 4096 4096 m fmt "[Dec 0]" "\<lambda>_. []" "[a]" t] this assms(1-3)
  obtain m1 where m1: "sprintf buf fmt [a] m = Some (length (take 4095 t), m1)" "filled buf 4096 m (take 4095 t) m1"
    "m1 (buf + of_nat (length (take 4095 t))) = 0"
    by (auto simp: f sprintf_def strings_ok_def simp del: length_take)
  have t: "take 4095 t = t" using int_text_length [of "ucast a"] by (simp add: t_def)
  have "0 \<notin> set t" using int_text_nonzero [of "ucast a"] by (simp add: t_def)
  then have "cstr m1 buf t" using m1(2,3) unfolding t filled_def by (intro cstrI) auto
  from scan_dec_int_text [OF this [unfolded t_def]] obtain e where e: "scan_dec v buf m1 = Some (e, st32 v (ucast a) m1)" by blast
  have c: "cstr m1 fmt [0x25, 0x64]" using filled_cstr [OF m1(2) assms(2)] assms(3) by simp
  have "st32 v (ucast a) m1 (fmt + 2) = m1 (fmt + 2)"
    by (rule st32_other) (use assms(4) [rule_format, of 2] in \<open>auto simp: in_area_def\<close>)
  then have "st32 v (ucast a) m1 (fmt + 2) = 0" using c by (simp add: add.commute [of fmt 2])
  then have "scan e (fmt + 2) [] 1 (st32 v (ucast a) m1) = Some (1, st32 v (ucast a) m1)" by (subst scan.simps) simp
  then have "sscanf buf fmt [v] m1 = Some (1, st32 v (ucast a) m1)"
    unfolding sscanf_def using c e by (subst scan.simps) (simp add: Let_def add.assoc)
  then show ?thesis using m1(1) by auto
qed

section \<open>Output to the terminal\<close>


text \<open>\<open>bs\<close> was written and no memory but the character at \<open>loc\<close> changed.\<close>

definition printed :: "addr \<Rightarrow> ('k \<Rightarrow> u8 list) \<Rightarrow> u8 list \<Rightarrow> 'k prog \<Rightarrow> 'k prog \<Rightarrow> bool" where
  "printed loc out bs st st' \<longleftrightarrow> out (snd st') = out (snd st) @ bs \<and> (\<forall>a. a \<noteq> loc \<longrightarrow> fst st' a = fst st a)"

lemma printed_Nil [simp]: "printed loc out [] st st"
  by (simp add: printed_def)






lemma in_area_1 [simp]: "in_area s 1 a \<longleftrightarrow> a = s" "in_area s (Suc 0) a \<longleftrightarrow> a = s"
  by (simp_all add: in_area_def)









section \<open>A loop without end\<close>

lemma fprintf_digits_none: "fprintf_digits u b = None"
proof -
  have "False" if "fprintf_digits u b = Some z" for u b z
    using that by (rule fprintf_digits.raw_induct [of "\<lambda>u b z. False", rotated]) (auto simp: Let_def)
  then show ?thesis by (cases "fprintf_digits u b") auto
qed

lemma fprintf_from_literal:
  assumes "\<And>c st. fst (put c st) = (fst st)(loc := c)"
  shows "cstr (fst st) p (xs @ r) \<Longrightarrow> \<forall>i\<le>length (xs @ r). p + of_nat i \<noteq> loc \<Longrightarrow> 0x25 \<notin> set xs \<Longrightarrow>
    \<exists>st'. fprintf_from put p ap st = fprintf_from put (p + of_nat (length xs)) ap st' \<and> cstr (fst st') (p + of_nat (length xs)) r"
proof (induction xs arbitrary: p st)
  case Nil
  then show ?case by (intro exI [of _ st]) simp
next
  case (Cons x xs)
  let ?st = "put x st"
  have "cstr (fst ?st) p (x # xs @ r)" using Cons.prems(1,2) cstr_cong [of "x # xs @ r" "fst ?st" p "fst st"] by (simp add: assms)
  then have c: "cstr (fst ?st) (p + 1) (xs @ r)" by simp
  have "\<forall>i\<le>length (xs @ r). p + 1 + of_nat i \<noteq> loc" using Cons.prems(2) by (auto simp: add.assoc dest: spec [of _ "Suc i" for i])
  from Cons.IH [OF c this] Cons.prems(1,3) show ?case by (subst fprintf_from.simps) (simp add: add.assoc)
qed

text \<open>\<^verbatim>\<open>fprintf\<close> never returns from a \<^verbatim>\<open>%d\<close>: the loop that produces the digits runs while the pointer is
  behind the start of the buffer, which it is after every round. This holds for every value, wherever in
  the format the conversion stands after literal characters, where the kernel does not change the
  memory of a program that writes a byte.\<close>

theorem fprintf_diverges:
  assumes "cstr m fmt (xs @ 0x25 # 0x64 # r)" "0x25 \<notin> set xs" "\<forall>i\<le>length xs + length r + 2. fmt + of_nat i \<noteq> loc"
    "\<forall>fd m k. fst (snd (sysc 4 fd loc 1 (m, k))) = m"
  shows "fprintf sysc loc f fmt ap (m, k) = None"
proof -
  let ?put = "\<lambda>c st. snd (fputc sysc loc (scast c) f st)"
  have u: "ucast (scast c :: i32) = c" for c :: u8 by (rule bit_eqI) (auto simp: bit_simps dest: bit_imp_le_length)
  have put: "fst (?put c st) = (fst st)(loc := c)" for c st using assms(4)
    by (cases st) (simp add: fputc_def write_char_def write_file_def as_int_def u split: prod.splits)
  have "\<exists>st'. fprintf_from ?put fmt ap (m, k) = fprintf_from ?put (fmt + of_nat (length xs)) ap st' \<and>
      cstr (fst st') (fmt + of_nat (length xs)) (0x25 # 0x64 # r)"
    by (rule fprintf_from_literal [where loc = loc]) (use put assms(1-3) in \<open>simp_all add: add.commute\<close>)
  then obtain st' where st': "fprintf_from ?put fmt ap (m, k) = fprintf_from ?put (fmt + of_nat (length xs)) ap st'"
    "cstr (fst st') (fmt + of_nat (length xs)) (0x25 # 0x64 # r)" by blast
  have "fprintf_conversion ?put 0x64 ap st' = None" by (cases ap) (simp_all add: fprintf_conversion_def Let_def fprintf_digits_none)
  then have "fprintf_from ?put (fmt + of_nat (length xs)) ap st' = None" using st'(2) by (subst fprintf_from.simps) simp
  then show ?thesis using st'(1) by (simp add: fprintf_def)
qed

section \<open>Instances\<close>

lemma area_before:
  assumes "placed s k" "unat s + k < unat buf" "unat buf + N \<le> 2 ^ 64" "i \<le> k"
  shows "\<not> in_area buf N (s + of_nat i)"
proof
  assume "in_area buf N (s + of_nat i)"
  then obtain j where "j < N" "s + of_nat i = buf + of_nat j" by (auto simp: in_area_def)
  then have "unat s + i = unat buf + j" using area_unat [OF assms(3), of j] placed_not_null(2) [OF assms(1,4)] by simp
  then show False using assms(2,4) by simp
qed

theorem vsnprintf_renders_witness:
  "\<exists>m'. vsnprintf 0x200 4 0x100 [0xFFFFFFFB, 0] (store 0x100 [0x61, 0x25, 0x64, 0x25, 0x73, 0]) = Some (3, m') \<and>
    m' 0x200 = 0x61 \<and> m' 0x201 = 0x2D \<and> m' 0x202 = 0x35 \<and> m' 0x203 = 0"
proof -
  let ?m = "store 0x100 [0x61, 0x25, 0x64, 0x25, 0x73, 0]" and ?ds = "[Chr 0x61, Dec 0, Str]"
  have f: "format ?ds = [0x61, 0x25, 0x64, 0x25, 0x73]" by (simp add: format_def)
  have c: "cstr ?m 0x100 (format ?ds)" unfolding f by code_simp
  have "sint (ucast (0xFFFFFFFB :: u64) :: i32) = -5" by code_simp
  moreover have "dec_text 5 = [0x35]" by (subst dec_text.simps) simp
  ultimately have r: "render (\<lambda>_. []) ?ds [0xFFFFFFFB, 0] = Some ([0x61, 0x2D, 0x35] @ null_text)"
    by (simp add: int_text_def)
  have n: "nat (sint (4 :: i32)) = 4" by simp
  have a: "\<forall>i\<le>length (format ?ds). \<not> in_area 0x200 (nat (sint (4 :: i32))) (0x100 + of_nat i)"
    using area_before [of "0x100" 5 "0x200" 4] by (simp add: f placed_def)
  have s: "strings_ok 0x200 (nat (sint (4 :: i32))) ?m (\<lambda>_. []) (string_args ?ds [0xFFFFFFFB, 0])"
    by (simp add: strings_ok_def)
  have "[0x61, 0x2D, 0x35] = take (nat (sint (4 :: i32)) - 1) ([0x61, 0x2D, 0x35] @ null_text)" by simp
  from vsnprintf_renders [OF _ _ c _ r a s this] obtain m' where
    m': "vsnprintf 0x200 4 0x100 [0xFFFFFFFB, 0] ?m = Some (3, m')"
      "\<forall>i<3. m' (0x200 + of_nat i) = [0x61, 0x2D, 0x35] ! i" "m' (0x200 + of_nat 3) = 0" by auto
  show ?thesis using m'(1,3) m'(2) [rule_format, of 0] m'(2) [rule_format, of 1] m'(2) [rule_format, of 2] by simp
qed

theorem vsnprintf_overrun_witness:
  "\<exists>m'. vsnprintf 0x200 3 0x100 [] (store 0x100 [0x61, 0x25, 0x71, 0]) = Some (3, m') \<and> m' 0x203 = 0"
proof -
  have c: "cstr (store 0x100 [0x61, 0x25, 0x71, 0]) 0x100 ([0x61] @ [0x25, 0x71])" by code_simp
  have "\<forall>i\<le>length [0x61 :: u8] + 2. \<not> in_area 0x200 (nat (sint (3 :: i32))) (0x100 + of_nat i)"
    using area_before [of "0x100" 3 "0x200" 3] by (simp add: placed_def)
  from vsnprintf_overrun [OF _ _ c _ _ _ this, of "[]"] show ?thesis by simp
qed

theorem sscanf_sprintf_witness:
  "\<exists>p m1 m2. sprintf 0x2000 0x100 [0x80000000] (store 0x100 [0x25, 0x64, 0]) = Some (p, m1) \<and>
    sscanf 0x2000 0x100 [0x200] m1 = Some (1, m2) \<and> ld32 m2 0x200 = 0x80000000"
proof -
  have c: "cstr (store 0x100 [0x25, 0x64, 0]) 0x100 [0x25, 0x64]" by code_simp
  have a: "\<forall>i\<le>2. \<not> in_area 0x2000 4096 (0x100 + of_nat i)" "\<forall>i\<le>2. \<not> in_area 0x200 4 (0x100 + of_nat i)"
    using area_before [of "0x100" 2 "0x2000" 4096] area_before [of "0x100" 2 "0x200" 4] by (simp_all add: placed_def)
  from sscanf_sprintf [OF _ c a, of "0x80000000"] show ?thesis by simp
qed

text \<open>A terminal that records what is written to it\<close>

definition record_tty :: "u8 list int80" where
  "record_tty n a b c st = (case st of (m, k) \<Rightarrow> if n = 4 then (c, m, k @ [m b]) else (0, m, k))"


theorem fprintf_diverges_witness:
  "fprintf record_tty 0x200 0x300 0x100 [7] (store 0x100 [0x61, 0x25, 0x64, 0], []) = None"
proof -
  have c: "cstr (store 0x100 [0x61, 0x25, 0x64, 0]) 0x100 ([0x61] @ 0x25 # 0x64 # [])" by code_simp
  have a: "\<forall>i\<le>length [0x61 :: u8] + length ([] :: u8 list) + 2. 0x100 + of_nat i \<noteq> (0x200 :: addr)"
    using area_before [of "0x100" 3 "0x200" 1] by (simp add: placed_def)
  show ?thesis by (rule fprintf_diverges [OF c _ a]) (simp_all add: record_tty_def)
qed

end
