(* ===== verification/ConsoleProps.thy ===== *)
theory ConsoleProps
  imports Console LibcStdioProps
begin

text \<open>
  What the text console shows: complete lines that are written appear one below the other and the last ones
  stay, a line that wraps at the bottom leaves the rest of the screen as it was, redirected output goes
  to the buffer only, and the numbers that are printed.
\<close>

section \<open>Writing a line\<close>

definition printable :: "u8 \<Rightarrow> bool" where "printable c \<longleftrightarrow> sint c \<ge> 0x20"

lemma printable_not_control: "printable c \<Longrightarrow> c \<noteq> 0x0A \<and> c \<noteq> 0x08"
  by (auto simp: printable_def)

lemma cell_inj: "c < 80 \<Longrightarrow> c' < 80 \<Longrightarrow> cell r c = cell r' c' \<longleftrightarrow> r = r' \<and> c = c'"
proof
  assume c: "c < 80" "c' < 80" "cell r c = cell r' c'"
  from c(3) have "(r * 80 + c) div 80 = (r' * 80 + c') div 80" by (simp add: cell_def)
  then have "r = r'" using c(1,2) by simp
  then show "r = r' \<and> c = c'" using c(3) by (simp add: cell_def)
qed simp

lemma cell_in_line: "c < 80 \<Longrightarrow> n \<le> 80 \<Longrightarrow> cell r0 0 \<le> cell r c \<and> cell r c < cell r0 n \<longleftrightarrow> r = r0 \<and> c < n"
proof
  assume c: "c < 80" "n \<le> 80" and "cell r0 0 \<le> cell r c \<and> cell r c < cell r0 n"
  then have l: "r0 * 80 \<le> r * 80 + c" "r * 80 + c < r0 * 80 + n" by (simp_all add: cell_def)
  then have "r = r0" using c by arith
  then show "r = r0 \<and> c < n" using l(2) by simp
qed (simp add: cell_def)

lemma cell_next: "cell r 80 = cell (Suc r) 0" "cell r c + 80 = cell (Suc r) c"
  by (simp_all add: cell_def)

lemma render_row_other [simp]:
  "scrollback (render_row r t) = scrollback t" "cursor_row (render_row r t) = cursor_row t"
  "cursor_col (render_row r t) = cursor_col t" "scroll_start (render_row r t) = scroll_start t"
  "term_out (render_row r t) = term_out t"
  by (simp_all add: render_row_def Let_def)

lemma render_fold_other [simp]:
  "scrollback (fold render_row rs t) = scrollback t" "cursor_row (fold render_row rs t) = cursor_row t"
  "cursor_col (fold render_row rs t) = cursor_col t" "scroll_start (fold render_row rs t) = scroll_start t"
  "term_out (fold render_row rs t) = term_out t"
  by (induction rs arbitrary: t) simp_all

lemma render_fold_shown:
  "scroll_start t = 0 \<Longrightarrow> \<forall>r\<in>set rs. r < SCROLLBACK \<Longrightarrow> c < 80 \<Longrightarrow>
    shown (fold render_row rs t) r c = (if r \<in> set rs then scrollback t (cell r c) else shown t r c)"
proof (induction rs arbitrary: t)
  case (Cons x rs)
  then show ?case by (simp add: render_row_def abs_row_def Let_def)
qed simp

lemma render_all_shown: "scroll_start t = 0 \<Longrightarrow> r < CONSOLE_ROWS \<Longrightarrow> c < 80 \<Longrightarrow> shown (render_all t) r c = scrollback t (cell r c)"
  unfolding render_all_def by (subst render_fold_shown) auto

text \<open>The characters of a line on a row, up to the line's end\<close>

lemma write_chars:
  assumes "term_out t = None" "scroll_start t = 0" "cursor_col t = 0"
  shows "list_all printable p \<Longrightarrow> length p \<le> 80 \<Longrightarrow>
    (let t' = console_write p t in
     (\<forall>a. scrollback t' a = (if cell (cursor_row t) 0 \<le> a \<and> a < cell (cursor_row t) (length p)
         then p ! (a - cell (cursor_row t) 0) else scrollback t a)) \<and>
     cursor_row t' = cursor_row t \<and> cursor_col t' = length p \<and> scroll_start t' = 0 \<and> term_out t' = None)"
proof (induction p rule: rev_induct)
  case Nil
  then show ?case using assms by (auto simp: console_write_def cell_def)
next
  case (snoc x p)
  define t1 where "t1 = console_write p t"
  have t1: "\<forall>a. scrollback t1 a = (if cell (cursor_row t) 0 \<le> a \<and> a < cell (cursor_row t) (length p)
         then p ! (a - cell (cursor_row t) 0) else scrollback t a)"
    "cursor_row t1 = cursor_row t" "cursor_col t1 = length p" "scroll_start t1 = 0" "term_out t1 = None"
    using snoc.IH snoc.prems by (simp_all add: t1_def Let_def)
  have x: "x \<noteq> 0x0A" "x \<noteq> 0x08" "sint x \<ge> 0x20" using snoc.prems(1) printable_not_control [of x] by (auto simp: printable_def)
  have "console_write (p @ [x]) t = console_putchar x t1" by (simp add: console_write_def t1_def)
  moreover have "scrollback (console_putchar x t1) = (scrollback t1)(cell (cursor_row t) (length p) := x)"
    "cursor_row (console_putchar x t1) = cursor_row t" "cursor_col (console_putchar x t1) = Suc (length p)"
    "scroll_start (console_putchar x t1) = 0" "term_out (console_putchar x t1) = None"
    using x t1(2-5) snoc.prems(2) by (simp_all add: console_putchar_def Let_def serial_putc_def set_cell_def abs_row_def)
  ultimately show ?case using t1(1) by (auto simp: Let_def cell_def nth_append)
qed

section \<open>Lines on the screen\<close>

text \<open>The cells of a line, blank behind its end\<close>

definition line_cell :: "u8 list \<Rightarrow> nat \<Rightarrow> u8" where "line_cell l c = (if c < length l then l ! c else blank)"

text \<open>Row \<open>r\<close> after the lines \<open>ls\<close>: the last 44 of them, and blank rows\<close>

definition screen_cell :: "u8 list list \<Rightarrow> nat \<Rightarrow> nat \<Rightarrow> u8" where
  "screen_cell ls r c = (let k = min (length ls) 44 in if r < k then line_cell (ls ! (length ls - k + r)) c else blank)"

definition shows_lines :: "u8 list list \<Rightarrow> console \<Rightarrow> bool" where
  "shows_lines ls t \<longleftrightarrow> term_out t = None \<and> scroll_start t = 0 \<and> cursor_col t = 0 \<and> cursor_row t = min (length ls) 44 \<and>
    (\<forall>r<SCROLLBACK. \<forall>c<80. scrollback t (cell r c) = screen_cell ls r c) \<and>
    (\<forall>r<CONSOLE_ROWS. \<forall>c<80. shown t r c = screen_cell ls r c)"

lemma newline_cells:
  assumes "cursor_row t < CONSOLE_ROWS" "r < SCROLLBACK" "c < 80"
  shows "scrollback (newline t) (cell r c) =
    (if cursor_row t = 44 then (if r < SCROLLBACK - 1 then scrollback t (cell (Suc r) c) else blank) else scrollback t (cell r c))"
proof -
  have "cell r c < cell (SCROLLBACK - 1) 0 \<longleftrightarrow> r < SCROLLBACK - 1" "cell r c < cell SCROLLBACK 0" using assms(2,3) by (auto simp: cell_def)
  then show ?thesis using assms(1) cell_next(2) [of r c] by (auto simp: newline_def Let_def)
qed

lemma newline_cursor: "cursor_row t < CONSOLE_ROWS \<Longrightarrow> cursor_row (newline t) = min (Suc (cursor_row t)) 44"
  "cursor_col (newline t) = 0" "scroll_start t = 0 \<Longrightarrow> scroll_start (newline t) = 0" "term_out (newline t) = term_out t"
  by (auto simp: newline_def Let_def)

lemma screen_cell_snoc:
  "screen_cell (ls @ [l]) r c =
    (if length ls < 44 then (if r = length ls then line_cell l c else screen_cell ls r c)
     else if r = 43 then line_cell l c else if r < 43 then screen_cell ls (Suc r) c else blank)"
proof -
  consider "length ls < 44" | "length ls \<ge> 44" by linarith
  then show ?thesis
  proof cases
    case 1
    then show ?thesis by (auto simp: screen_cell_def Let_def nth_append min_def)
  next
    case 2
    then obtain q where q: "length ls = q + 44" by (metis le_add_diff_inverse2)
    then have "min (length ls) 44 = 44" "min (length (ls @ [l])) 44 = 44" "length (ls @ [l]) - 44 = Suc q" by simp_all
    moreover have "(ls @ [l]) ! (Suc q + r) = (if r = 43 then l else ls ! (q + Suc r))" if "r < 44"
      using that q by (auto simp: nth_append)
    ultimately show ?thesis using q by (auto simp: screen_cell_def Let_def)
  qed
qed

lemma screen_cell_blank: "r \<ge> min (length ls) 44 \<Longrightarrow> screen_cell ls r c = blank"
  by (simp add: screen_cell_def Let_def not_less [symmetric] del: min_less_iff_conj)

lemma write_line:
  assumes "shows_lines ls t" "list_all printable l" "length l \<le> 80"
  shows "shows_lines (ls @ [l]) (console_write (l @ [0x0A]) t)"
proof -
  have t: "term_out t = None" "scroll_start t = 0" "cursor_col t = 0" "cursor_row t = min (length ls) 44"
    "\<forall>r<SCROLLBACK. \<forall>c<80. scrollback t (cell r c) = screen_cell ls r c" using assms(1) by (simp_all add: shows_lines_def)
  define t1 where "t1 = console_write l t"
  have t1: "\<forall>a. scrollback t1 a = (if cell (cursor_row t) 0 \<le> a \<and> a < cell (cursor_row t) (length l)
         then l ! (a - cell (cursor_row t) 0) else scrollback t a)"
    "cursor_row t1 = cursor_row t" "cursor_col t1 = length l" "scroll_start t1 = 0" "term_out t1 = None"
    using write_chars [OF t(1-3) assms(2,3)] by (simp_all add: t1_def Let_def)
  define t2 where "t2 = set_cell (cell (cursor_row t) (length l)) blank t1"
  have row: "cursor_row t < CONSOLE_ROWS" using t(4) by simp
  have t2: "cursor_row t2 = cursor_row t" "scroll_start t2 = 0" "term_out t2 = None" by (simp_all add: t2_def set_cell_def t1)
  have s2: "scrollback t2 (cell r c) = (if r = cursor_row t then line_cell l c else screen_cell ls r c)" if "r < SCROLLBACK" "c < 80" for r c
  proof -
    have s: "scrollback t (cell r c) = screen_cell ls r c" using t(5) that by simp
    have "screen_cell ls r c = blank" if "r \<ge> cursor_row t" using that t(4) screen_cell_blank by simp
    moreover have "cell r c \<ge> cell (cursor_row t) 0 \<and> cell r c < cell (cursor_row t) (length l) \<longleftrightarrow> r = cursor_row t \<and> c < length l"
      by (rule cell_in_line [OF that(2) assms(3)])
    moreover have "cell r c = cell (cursor_row t) (length l) \<longleftrightarrow>
        (if length l < 80 then r = cursor_row t \<and> c = length l else r = Suc (cursor_row t) \<and> c = 0)"
      using that(2) assms(3) cell_inj [of c "length l" r "cursor_row t"] cell_inj [of c 0 r "Suc (cursor_row t)"] cell_next(1) [of "cursor_row t"]
      by (auto simp: le_less)
    ultimately show ?thesis using s t1(1) by (auto simp: t2_def set_cell_def line_cell_def cell_def)
  qed
  define t3 where "t3 = newline t2"
  have t3: "cursor_row t3 = min (Suc (cursor_row t)) 44" "cursor_col t3 = 0" "scroll_start t3 = 0" "term_out t3 = None"
    using newline_cursor [of t2] row t2 by (simp_all add: t3_def)
  have s3: "scrollback t3 (cell r c) = screen_cell (ls @ [l]) r c" if "r < SCROLLBACK" "c < 80" for r c
  proof -
    have b: "screen_cell ls r c = blank" if "r \<ge> 44" for r using that screen_cell_blank [of ls r c] by simp
    show ?thesis unfolding t3_def screen_cell_snoc
      using newline_cells [of t2 r c] row that s2 [OF that] s2 [of "Suc r" c] t2(1) t(4) b by (auto simp: min_def split: if_splits)
  qed
  have "console_write (l @ [0x0A]) t = serial_putc 0x0A (render_all t3)"
    by (simp add: console_write_def t1_def [symmetric, unfolded console_write_def] console_putchar_def t1(5) t3_def t2_def abs_row_def t1(2-4))
  moreover have "cursor_row t3 = min (length (ls @ [l])) 44" using t3(1) t(4) by simp
  ultimately show ?thesis using t3(2-4) s3 render_all_shown [of t3] by (auto simp: shows_lines_def serial_putc_def render_all_def)
qed

section \<open>Properties\<close>

text \<open>C35: Complete lines of at most 80 printable characters written to a cleared console appear on the
  screen one below the other; when there are more than 44 the last 44 are shown, in order, and the
  cursor stands at the start of the row below.\<close>

theorem console_shows_lines:
  assumes "term_out t = None" "\<forall>l\<in>set ls. list_all printable l \<and> length l \<le> 80" "r < CONSOLE_ROWS" "c < CONSOLE_COLS"
  shows "shown (console_write (concat (map (\<lambda>l. l @ [0x0A]) ls)) (console_clear t)) r c =
    (let k = min (length ls) 44 in
     if r < k \<and> c < length (ls ! (length ls - k + r)) then ls ! (length ls - k + r) ! c else blank)"
proof -
  have "shows_lines ls (console_write (concat (map (\<lambda>l. l @ [0x0A]) ls)) (console_clear t))"
    using assms(2)
  proof (induction ls rule: rev_induct)
    case Nil
    then show ?case using assms(1) by (simp add: shows_lines_def console_write_def console_clear_def screen_cell_def)
  next
    case (snoc l ls)
    then show ?case using write_line [of ls _ l] by (simp add: console_write_def)
  qed
  then show ?thesis using assms(3,4) by (simp add: shows_lines_def screen_cell_def line_cell_def Let_def)
qed

theorem console_shows_lines_witness:
  "shown (console_write (concat (map (\<lambda>l. l @ [0x0A]) (replicate 50 [0x61] @ [[0x62]])))
     (console_clear \<lparr>scrollback = (\<lambda>_. 0), cursor_row = 0, cursor_col = 0, scroll_start = 0, fg_color = 0, bg_color = 0,
        cursor_visible = True, term_out = None, shown = (\<lambda>_ _. 0), serial = []\<rparr>)) 43 0 = 0x62"
proof -
  let ?t = "\<lparr>scrollback = (\<lambda>_. 0), cursor_row = 0, cursor_col = 0, scroll_start = 0, fg_color = 0, bg_color = 0,
        cursor_visible = True, term_out = None, shown = (\<lambda>_ _. 0), serial = []\<rparr> :: console"
  have "\<forall>l\<in>set (replicate 50 [0x61] @ [[0x62 :: u8]]). list_all printable l \<and> length l \<le> 80"
    by (auto simp: printable_def)
  from console_shows_lines [of ?t, OF _ this, of 43 0] show ?thesis by (simp add: Let_def nth_append)
qed

text \<open>A line that wraps on the last row scrolls the text but not the screen: the console draws only
  the last row, and every other row of the screen keeps what it showed while the text has moved up by one
  row.\<close>

theorem console_wrap_stale:
  assumes "term_out t = None" "scroll_start t = 0" "cursor_row t = 44" "cursor_col t = 80" "printable c"
    and "r < 44" "j < CONSOLE_COLS"
  shows "shown (console_putchar c t) r j = shown t r j \<and>
    scrollback (console_putchar c t) (cell r j) = scrollback t (cell (Suc r) j)"
proof -
  have c: "c \<noteq> 0x0A" "c \<noteq> 0x08" "sint c \<ge> 0x20" using assms(5) printable_not_control [of c] by (auto simp: printable_def)
  have n: "cursor_row (newline t) = 44" "cursor_col (newline t) = 0" "scroll_start (newline t) = 0" "shown (newline t) = shown t"
    using assms(2,3) by (simp_all add: newline_def Let_def)
  have "cell r j \<noteq> cell 44 0" using cell_inj [of j 0 r 44] assms(6,7) by simp
  then show ?thesis using c assms(1,4) n newline_cells [of t r j] assms(3,6,7)
    by (simp add: console_putchar_def Let_def serial_putc_def set_cell_def abs_row_def render_row_def)
qed

theorem console_wrap_stale_witness:
  "let t = \<lparr>scrollback = (\<lambda>a. if a = 80 then 0x61 else blank), cursor_row = 44, cursor_col = 80, scroll_start = 0, fg_color = 0,
        bg_color = 0, cursor_visible = True, term_out = None, shown = (\<lambda>_ _. blank), serial = []\<rparr>;
       t' = console_putchar 0x62 t in
   shown t' 0 0 = blank \<and> scrollback t' (cell 0 0) = 0x61"
proof -
  let ?t = "\<lparr>scrollback = (\<lambda>a. if a = 80 then 0x61 else blank), cursor_row = 44, cursor_col = 80, scroll_start = 0, fg_color = 0,
        bg_color = 0, cursor_visible = True, term_out = None, shown = (\<lambda>_ _. blank), serial = []\<rparr> :: console"
  have "printable 0x62" by (simp add: printable_def)
  from console_wrap_stale [of ?t, OF _ _ _ _ this, of 0 0] show ?thesis by (simp add: Let_def cell_def)
qed

lemma digits_up_text: "0 < sint v \<Longrightarrow> rev (digits_up v) = dec_text (unat v)"
proof (induction v rule: digits_up.induct)
  case (1 v)
  have u: "unat v = nat (sint v)" using nonneg_unat [of v] "1.prems" by simp
  have v10: "unat (v div 10) = unat v div 10" by (simp add: unat_div)
  have b: "unat v < 2 ^ 31" using sint_less [of v] u "1.prems" by simp
  have "sint (v div 10) = int (unat v div 10)" using sint_small [of "v div 10"] v10 b by simp
  then have p: "0 < sint (v div 10) \<longleftrightarrow> \<not> unat v < 10" by (simp add: not_less div_greater_zero_iff)
  have "(ucast (v mod 10) :: u8) = of_nat (unat (v mod 10))" by (simp add: unsigned_ucast_eq)
  then have "(ucast (v mod 10) :: u8) = of_nat (unat v mod 10)" by (simp add: unat_mod)
  then show ?case using 1 v10 p
    by (subst digits_up.simps, subst dec_text.simps) (auto simp: digits_up.simps [of "v div 10"])
qed

text \<open>\<^verbatim>\<open>console_printf\<close> prints an \<^verbatim>\<open>int\<close> with \<^verbatim>\<open>%d\<close> in decimal, as the C library does, with one exception:
  of the least value it prints the sign alone, since its negation is negative and produces no digit.\<close>

theorem console_decimal:
  "dec_arg v = (if v = 0x80000000 then [0x2D] else int_text (sint v))"
proof -
  have min: "sint (0x80000000 :: 32 word) < 0" "- (0x80000000 :: 32 word) = 0x80000000" by simp_all
  consider "v = 0x80000000" | "v = 0" | "0 < sint v" | "sint v < 0" "v \<noteq> 0x80000000"
    using signed_word_eqI [of v 0] by fastforce
  then show ?thesis
  proof cases
    case 1
    have "digits_up (- 0x80000000) = []" by (subst digits_up.simps) simp
    then show ?thesis using 1 by (simp add: dec_arg_def)
  next
    case 2
    have "digits_up 0 = []" "dec_text 0 = [0x30]" by (subst digits_up.simps, simp) (subst dec_text.simps, simp)
    then show ?thesis using 2 by (simp add: dec_arg_def int_text_def)
  next
    case 3
    then have "v \<noteq> 0" "v \<noteq> 0x80000000" using min(1) by auto
    then show ?thesis using 3 digits_up_text [OF 3] nonneg_unat [of v] by (simp add: dec_arg_def int_text_def Let_def)
  next
    case 4
    have u: "unat (- v) = nat (- sint v)" using neg_unat [OF 4(1)] .
    have "sint v \<noteq> - (2 ^ 31)"
    proof
      assume "sint v = - (2 ^ 31)"
      then have "sint v = sint (0x80000000 :: 32 word)" by simp
      then show False using 4(2) signed_word_eqI by blast
    qed
    then have "- sint v < 2 ^ 31" using sint_greater_eq [of v] by simp
    then have "nat (- sint v) < 2 ^ 31" using 4(1) by (subst nat_less_iff) simp_all
    then have "unat (- v) < 2 ^ 31" using u by simp
    then have "sint (- v) = - sint v" using sint_small [of "- v"] u 4(1) by simp
    then have "0 < sint (- v)" "- v \<noteq> 0" using 4(1) by auto
    then show ?thesis using 4 digits_up_text [of "- v"] u by (simp add: dec_arg_def int_text_def Let_def)
  qed
qed

end
