(* ===== verification/Env.thy ===== *)
theory Env
  imports Prelude
begin

text \<open>
  \<^verbatim>\<open>kernel/env.c\<close>: the environment variables and the aliases of the kernel. The arrays \<^verbatim>\<open>env_name\<close>,
  \<^verbatim>\<open>env_val\<close> and \<^verbatim>\<open>env_count\<close> are the list of the rows in use, and so are those of the aliases. A row
  holds C strings: \<^verbatim>\<open>strncpy\<close> with a limit of one less than the array stores the first bytes of a longer
  string, and the last byte of the zero-initialised array stays zero.
\<close>

type_synonym rows = "(string \<times> string) list"

record env_state =
  env_rows :: rows
  alias_rows :: rows

abbreviation ENV_MAX :: nat where "ENV_MAX \<equiv> 32"
abbreviation ALIAS_MAX :: nat where "ALIAS_MAX \<equiv> 32"

fun row_get :: "rows \<Rightarrow> string \<Rightarrow> string option" where
  "row_get [] name = None"
| "row_get ((n, v) # rs) name = (if n = name then Some v else row_get rs name)"

fun row_put :: "string \<Rightarrow> string \<Rightarrow> rows \<Rightarrow> rows option" where
  "row_put name val [] = None"
| "row_put name val ((n, v) # rs) =
    (if n = name then Some ((n, take 255 val) # rs) else map_option (Cons (n, v)) (row_put name val rs))"

definition env_get :: "env_state \<Rightarrow> string \<Rightarrow> string option" where
  "env_get st name = row_get (env_rows st) name"

definition env_set :: "string \<Rightarrow> string \<Rightarrow> env_state \<Rightarrow> env_state" where
  "env_set name val st =
    (case row_put name val (env_rows st) of
       Some rs \<Rightarrow> st\<lparr>env_rows := rs\<rparr>
     | None \<Rightarrow>
         if length (env_rows st) < ENV_MAX then st\<lparr>env_rows := env_rows st @ [(take 31 name, take 255 val)]\<rparr> else st)"

definition env_init :: "env_state \<Rightarrow> env_state" where
  "env_init st =
    (let st = env_set ''PATH'' ''/BIN:/USR/BIN:/LOCAL/BIN'' st;
         st = env_set ''HOME'' ''/'' st;
         st = env_set ''EDITOR'' ''edit'' st;
         st = env_set ''SHELL'' ''Mk'' st
     in env_set ''PS1'' [CHR ''['', CHR 0x5C, CHR ''w'', CHR '']'', CHR 0x5C, CHR ''$'', CHR '' ''] st)"

definition alias_get :: "env_state \<Rightarrow> string \<Rightarrow> string option" where
  "alias_get st name = row_get (alias_rows st) name"

definition alias_set :: "string \<Rightarrow> string \<Rightarrow> env_state \<Rightarrow> env_state" where
  "alias_set name val st =
    (case row_put name val (alias_rows st) of
       Some rs \<Rightarrow> st\<lparr>alias_rows := rs\<rparr>
     | None \<Rightarrow>
         if length (alias_rows st) < ALIAS_MAX then st\<lparr>alias_rows := alias_rows st @ [(take 63 name, take 255 val)]\<rparr> else st)"

text \<open>The rows behind the removed one move up by one place.\<close>

fun row_remove :: "string \<Rightarrow> rows \<Rightarrow> rows option" where
  "row_remove name [] = None"
| "row_remove name ((n, v) # rs) = (if n = name then Some rs else map_option (Cons (n, v)) (row_remove name rs))"

definition alias_unset :: "string \<Rightarrow> env_state \<Rightarrow> bool \<times> env_state" where
  "alias_unset name st =
    (case row_remove name (alias_rows st) of None \<Rightarrow> (False, st) | Some rs \<Rightarrow> (True, st\<lparr>alias_rows := rs\<rparr>))"

section \<open>Rows\<close>

lemma row_put_None: "row_put name val rs = None \<longleftrightarrow> row_get rs name = None"
  by (induction rs) (auto split: if_splits)

lemma row_put_get: "row_put name val rs = Some rs' \<Longrightarrow> row_get rs' x = (if x = name then Some (take 255 val) else row_get rs x)"
  by (induction rs arbitrary: rs') (auto split: if_splits)

lemma row_put_names: "row_put name val rs = Some rs' \<Longrightarrow> map fst rs' = map fst rs"
  by (induction rs arbitrary: rs') (auto split: if_splits)

lemma row_put_length: "row_put name val rs = Some rs' \<Longrightarrow> length rs' = length rs"
  by (drule row_put_names) (metis length_map)

lemma row_get_append: "row_get (rs @ [(n, v)]) x = (case row_get rs x of None \<Rightarrow> if n = x then Some v else None | Some w \<Rightarrow> Some w)"
  by (induction rs) (auto split: if_splits)

lemma row_get_names: "row_get rs x = None \<longleftrightarrow> x \<notin> fst ` set rs"
  by (induction rs) (auto split: if_splits)

lemma row_remove_get:
  "row_remove name rs = Some rs' \<Longrightarrow> distinct (map fst rs) \<Longrightarrow> row_get rs' x = (if x = name then None else row_get rs x)"
proof (induction rs arbitrary: rs')
  case (Cons r rs)
  obtain n v where r: "r = (n, v)" by (cases r)
  show ?case
  proof (cases "n = name")
    case True
    then show ?thesis using Cons.prems row_get_names [of rs name] by (auto simp: r)
  next
    case False
    then show ?thesis using Cons by (auto simp: r)
  qed
qed simp

lemma row_remove_None: "row_remove name rs = None \<longleftrightarrow> row_get rs name = None"
  by (induction rs) (auto split: if_splits)

section \<open>A table of variables\<close>

text \<open>
  The contract of the two tables: a name that the table can hold, set while there is room or while it is
  already set, has its value from then on and no other name changes; setting any name never disturbs a
  table in which it finds no place.
\<close>

locale var_table =
  fixes get :: "'t \<Rightarrow> string \<Rightarrow> string option"
    and put :: "string \<Rightarrow> string \<Rightarrow> 't \<Rightarrow> 't"
    and fits :: "string \<Rightarrow> bool"
    and room :: "'t \<Rightarrow> nat"
  assumes get_put: "fits n \<Longrightarrow> 0 < room t \<or> get t n \<noteq> None \<Longrightarrow> get (put n v t) x = (if x = n then Some (take 255 v) else get t x)"
    and put_full: "room t = 0 \<Longrightarrow> get t n = None \<Longrightarrow> put n v t = t"
    and room_put: "room (put n v t) = (if get t n = None then room t - 1 else room t)"
begin

lemma put_put_same:
  assumes "fits n" "0 < room t \<or> get t n \<noteq> None"
  shows "get (put n v (put n w t)) x = get (put n v t) x"
proof -
  have "get (put n w t) n \<noteq> None" using get_put [OF assms] by simp
  then show ?thesis using get_put [OF assms] get_put [OF assms(1), of "put n w t"] by simp
qed

lemma put_put_other:
  assumes "fits a" "fits b" "a \<noteq> b" "1 < room t"
  shows "get (put a v (put b w t)) x = get (put b w (put a v t)) x"
proof -
  have "0 < room t" "0 < room (put b w t)" "0 < room (put a v t)" using assms(4) room_put by auto
  then show ?thesis using get_put [OF assms(1)] get_put [OF assms(2)] assms(3) by simp
qed

text \<open>Setting variables one after another, the last value of each name counts.\<close>

lemma put_all_get:
  "\<forall>(n, v)\<in>set ps. fits n \<Longrightarrow> length ps \<le> room t \<Longrightarrow>
    get (fold (\<lambda>(n, v). put n v) ps t) x = (case map_of (rev ps) x of None \<Rightarrow> get t x | Some v \<Rightarrow> Some (take 255 v))"
proof (induction ps rule: rev_induct)
  case (snoc p ps)
  obtain n v where p: "p = (n, v)" by (cases p)
  define t' where "t' = fold (\<lambda>(n, v). put n v) ps t"
  have "room t \<le> room (fold (\<lambda>(n, v). put n v) qs t) + length qs" for qs
  proof (induction qs rule: rev_induct)
    case (snoc q qs)
    then show ?case using room_put by (auto split: prod.splits if_splits)
  qed simp
  from this [of ps] have "0 < room t'" using snoc.prems(2) by (simp add: t'_def)
  then have "get (put n v t') x = (if x = n then Some (take 255 v) else get t' x)" using get_put snoc.prems(1) p by simp
  then show ?case using snoc by (simp add: p t'_def)
qed simp

end

interpretation env_vars: var_table env_get env_set "\<lambda>n. length n \<le> 31" "\<lambda>st. ENV_MAX - length (env_rows st)"
proof
  fix n v x :: string and t :: env_state
  assume n: "length n \<le> 31" "0 < ENV_MAX - length (env_rows t) \<or> env_get t n \<noteq> None"
  show "env_get (env_set n v t) x = (if x = n then Some (take 255 v) else env_get t x)"
    using n row_put_get [of n v "env_rows t"] row_put_None [of n v "env_rows t"]
    by (auto simp: env_get_def env_set_def row_get_append split: option.splits)
next
  fix n v :: string and t :: env_state
  assume "ENV_MAX - length (env_rows t) = 0" "env_get t n = None"
  then show "env_set n v t = t" using row_put_None [of n v "env_rows t"] by (simp add: env_get_def env_set_def)
next
  fix n v :: string and t :: env_state
  show "ENV_MAX - length (env_rows (env_set n v t)) =
      (if env_get t n = None then ENV_MAX - length (env_rows t) - 1 else ENV_MAX - length (env_rows t))"
    using row_put_None [of n v "env_rows t"] row_put_length [of n v "env_rows t"]
    by (auto simp: env_get_def env_set_def split: option.splits)
qed

interpretation aliases: var_table alias_get alias_set "\<lambda>n. length n \<le> 63" "\<lambda>st. ALIAS_MAX - length (alias_rows st)"
proof
  fix n v x :: string and t :: env_state
  assume n: "length n \<le> 63" "0 < ALIAS_MAX - length (alias_rows t) \<or> alias_get t n \<noteq> None"
  show "alias_get (alias_set n v t) x = (if x = n then Some (take 255 v) else alias_get t x)"
    using n row_put_get [of n v "alias_rows t"] row_put_None [of n v "alias_rows t"]
    by (auto simp: alias_get_def alias_set_def row_get_append split: option.splits)
next
  fix n v :: string and t :: env_state
  assume "ALIAS_MAX - length (alias_rows t) = 0" "alias_get t n = None"
  then show "alias_set n v t = t" using row_put_None [of n v "alias_rows t"] by (simp add: alias_get_def alias_set_def)
next
  fix n v :: string and t :: env_state
  show "ALIAS_MAX - length (alias_rows (alias_set n v t)) =
      (if alias_get t n = None then ALIAS_MAX - length (alias_rows t) - 1 else ALIAS_MAX - length (alias_rows t))"
    using row_put_None [of n v "alias_rows t"] row_put_length [of n v "alias_rows t"]
    by (auto simp: alias_get_def alias_set_def split: option.splits)
qed

section \<open>Properties\<close>

text \<open>C34: Setting up to 32 variables one after another in an empty environment: every name of at most 31
  characters then has the first 255 characters of the last value it was given, every other name is
  unset.\<close>

theorem env_set_all:
  assumes "env_rows st = []" "\<forall>(n, v)\<in>set ps. length n \<le> 31" "length ps \<le> ENV_MAX"
  shows "env_get (fold (\<lambda>(n, v). env_set n v) ps st) x = map_option (take 255) (map_of (rev ps) x)"
  using env_vars.put_all_get [OF assms(2), of st x] assms(1,3) by (auto simp: env_get_def split: option.splits)

theorem env_set_all_witness:
  "env_get (fold (\<lambda>(n, v). env_set n v) [(''A'', ''1''), (''B'', ''2''), (''A'', ''3'')] \<lparr>env_rows = [], alias_rows = []\<rparr>) ''A'' = Some ''3''"
  using env_set_all [of "\<lparr>env_rows = [], alias_rows = []\<rparr>" "[(''A'', ''1''), (''B'', ''2''), (''A'', ''3'')]" "''A''"] by simp

text \<open>A variable whose name has more than 31 characters can be set any number of times and is never
  found: each call takes a new row, as the stored name is cut, and after 32 calls the table is full and
  no new variable can be set.\<close>

theorem env_long_name:
  assumes "31 < length name" "\<forall>(n, v)\<in>set (env_rows st). length n \<le> 31"
  shows "env_get ((env_set name val ^^ k) st) name = None \<and>
    length (env_rows ((env_set name val ^^ k) st)) = max (length (env_rows st)) (min ENV_MAX (length (env_rows st) + k))"
proof -
  have "(\<forall>(n, v)\<in>set (env_rows ((env_set name val ^^ k) st)). length n \<le> 31) \<and>
    length (env_rows ((env_set name val ^^ k) st)) = max (length (env_rows st)) (min ENV_MAX (length (env_rows st) + k))"
  proof (induction k)
    case 0
    then show ?case using assms(2) by simp
  next
    case (Suc k)
    define s where "s = (env_set name val ^^ k) st"
    have s: "\<forall>(n, v)\<in>set (env_rows s). length n \<le> 31"
      "length (env_rows s) = max (length (env_rows st)) (min ENV_MAX (length (env_rows st) + k))" using Suc by (simp_all add: s_def)
    then have "name \<notin> fst ` set (env_rows s)" using assms(1) by fastforce
    then have "row_put name val (env_rows s) = None" by (simp add: row_put_None row_get_names)
    then have "env_set name val s = (if length (env_rows s) < ENV_MAX then s\<lparr>env_rows := env_rows s @ [(take 31 name, take 255 val)]\<rparr> else s)"
      by (simp add: env_set_def)
    then show ?case using s by (auto simp: s_def [symmetric])
  qed
  moreover from this have "name \<notin> fst ` set (env_rows ((env_set name val ^^ k) st))" using assms(1) by fastforce
  ultimately show ?thesis by (simp add: env_get_def row_get_names)
qed

theorem env_long_name_witness:
  "env_get ((env_set (replicate 32 CHR ''x'') ''1'' ^^ 40) \<lparr>env_rows = [], alias_rows = []\<rparr>) (replicate 32 CHR ''x'') = None"
  using env_long_name [of "replicate 32 CHR ''x''" "\<lparr>env_rows = [], alias_rows = []\<rparr>" 40 "''1''"] by simp

inductive aliases_reached :: "env_state \<Rightarrow> bool" where
  none: "alias_rows st = [] \<Longrightarrow> aliases_reached st"
| set: "aliases_reached st \<Longrightarrow> length name \<le> 63 \<Longrightarrow> aliases_reached (alias_set name val st)"
| unset: "aliases_reached st \<Longrightarrow> aliases_reached (snd (alias_unset name st))"
| env: "aliases_reached st \<Longrightarrow> aliases_reached (env_set name val st)"

lemma row_remove_names: "row_remove name rs = Some rs' \<Longrightarrow> set rs' \<subseteq> set rs \<and> (distinct (map fst rs) \<longrightarrow> distinct (map fst rs'))"
proof (induction rs arbitrary: rs')
  case (Cons r rs)
  show ?case
  proof (cases "fst r = name")
    case True
    then show ?thesis using Cons.prems by (cases r) auto
  next
    case False
    then obtain qs where q: "row_remove name rs = Some qs" "rs' = r # qs" using Cons.prems by (cases r) auto
    then show ?thesis using Cons.IH [OF q(1)] by auto
  qed
qed simp

lemma aliases_distinct: "aliases_reached st \<Longrightarrow> distinct (map fst (alias_rows st))"
proof (induction rule: aliases_reached.induct)
  case (set st name val)
  show ?case
  proof (cases "row_put name val (alias_rows st)")
    case None
    then have "name \<notin> fst ` set (alias_rows st)" by (simp add: row_put_None row_get_names)
    then show ?thesis using None set by (simp add: alias_set_def)
  next
    case (Some rs)
    then show ?thesis using row_put_names [OF Some] set.IH by (simp add: alias_set_def)
  qed
next
  case (unset st name)
  then show ?case using row_remove_names [of name "alias_rows st"] by (auto simp: alias_unset_def split: option.splits)
qed (auto simp: env_set_def split: option.splits)

text \<open>In every state reached by setting and removing aliases with names of at most 63 characters,
  \<^verbatim>\<open>alias_unset\<close> reports whether the alias was set and removes exactly it: no other alias changes, and an
  alias that was set twice does not come back.\<close>

theorem alias_unset_exact:
  assumes "aliases_reached st"
  shows "(fst (alias_unset name st) \<longleftrightarrow> alias_get st name \<noteq> None) \<and>
    alias_get (snd (alias_unset name st)) x = (if x = name then None else alias_get st x)"
  using row_remove_get [OF _ aliases_distinct [OF assms]] row_remove_None [of name "alias_rows st"]
  by (auto simp: alias_unset_def alias_get_def split: option.splits)

theorem alias_unset_exact_witness:
  "let st = alias_set ''ll'' ''ls -l'' (alias_set ''ll'' ''ls'' \<lparr>env_rows = [], alias_rows = []\<rparr>) in
    fst (alias_unset ''ll'' st) \<and> alias_get (snd (alias_unset ''ll'' st)) ''ll'' = None"
proof -
  let ?st = "alias_set ''ll'' ''ls -l'' (alias_set ''ll'' ''ls'' \<lparr>env_rows = [], alias_rows = []\<rparr>)"
  have "aliases_reached ?st" by (intro aliases_reached.intros) simp_all
  from alias_unset_exact [OF this, of "''ll''" "''ll''"] show ?thesis by (simp add: alias_get_def alias_set_def)
qed

end
