(* ===== verification/KUtils.thy ===== *)
theory KUtils
  imports LibcStringProps
begin

text \<open>
  \<^verbatim>\<open>kernel/utils.c\<close>: the string and memory functions of the kernel, over a store of bytes like those of the
  user-space library. They differ from the latter in the sign of a comparison, in the padding of
  \<^verbatim>\<open>strncpy\<close> and in \<^verbatim>\<open>memmove\<close>, which copies forward whatever the overlap.
\<close>

definition char_diff :: "u8 \<Rightarrow> u8 \<Rightarrow> int" where "char_diff a b = sint a - sint b"

partial_function (option) kstrcmp :: "cmem \<Rightarrow> addr \<Rightarrow> addr \<Rightarrow> int option" where
  "kstrcmp m a b =
    (if m a \<noteq> 0 \<and> m a = m b then kstrcmp m (a + 1) (b + 1) else Some (char_diff (m a) (m b)))"

fun kstrncmp :: "cmem \<Rightarrow> addr \<Rightarrow> addr \<Rightarrow> nat \<Rightarrow> int" where
  "kstrncmp m a b 0 = 0"
| "kstrncmp m a b (Suc n) =
    (if m a \<noteq> m b then char_diff (m a) (m b)
     else if m a = 0 then 0 else kstrncmp m (a + 1) (b + 1) n)"

partial_function (option) kstrlen_from :: "cmem \<Rightarrow> addr \<Rightarrow> nat \<Rightarrow> nat option" where
  "kstrlen_from m s n = (if m (s + of_nat n) \<noteq> 0 then kstrlen_from m s (Suc n) else Some n)"

definition kstrlen :: "cmem \<Rightarrow> addr \<Rightarrow> nat option" where "kstrlen m s = kstrlen_from m s 0"

partial_function (option) kstrcpy :: "addr \<Rightarrow> addr \<Rightarrow> cmem \<Rightarrow> cmem option" where
  "kstrcpy d s m = (let c = m s; m = m(d := c) in if c \<noteq> 0 then kstrcpy (d + 1) (s + 1) m else Some m)"

fun pad_zero :: "addr \<Rightarrow> nat \<Rightarrow> cmem \<Rightarrow> cmem" where
  "pad_zero d 0 m = m"
| "pad_zero d (Suc n) m = pad_zero (d + 1) n (m(d := 0))"

fun kstrncpy :: "addr \<Rightarrow> addr \<Rightarrow> nat \<Rightarrow> cmem \<Rightarrow> cmem" where
  "kstrncpy d s 0 m = m"
| "kstrncpy d s (Suc n) m =
    (let c = m s; m = m(d := c) in if c \<noteq> 0 then kstrncpy (d + 1) (s + 1) n m else pad_zero (d + 1) n m)"

definition kmemset :: "addr \<Rightarrow> u8 \<Rightarrow> nat \<Rightarrow> cmem \<Rightarrow> cmem" where
  "kmemset s c n m = fold (\<lambda>i m. m(s + of_nat i := c)) [0..<n] m"

definition kmemcpy :: "addr \<Rightarrow> addr \<Rightarrow> nat \<Rightarrow> cmem \<Rightarrow> cmem" where
  "kmemcpy d s n m = fold (\<lambda>i m. m(d + of_nat i := m (s + of_nat i))) [0..<n] m"

definition kmemmove :: "addr \<Rightarrow> addr \<Rightarrow> nat \<Rightarrow> cmem \<Rightarrow> cmem" where
  "kmemmove d s n m = kmemcpy d s n m"

section \<open>Properties\<close>

lemma kmemcpy_Suc: "kmemcpy d s (Suc n) m = (kmemcpy d s n m)(d + of_nat n := kmemcpy d s n m (s + of_nat n))"
  by (simp add: kmemcpy_def)

lemma kmemcpy_other: "(\<And>i. i < n \<Longrightarrow> a \<noteq> d + of_nat i) \<Longrightarrow> kmemcpy d s n m a = m a"
  by (induction n) (simp_all add: kmemcpy_Suc, simp add: kmemcpy_def)

text \<open>The kernel's \<^verbatim>\<open>memmove\<close> is not a move when the target lies above the source within the length: the
  \<open>k\<close> bytes between the two are repeated over the whole target. With \<open>k\<close> at least the length it is.\<close>

theorem kmemmove_repeats:
  assumes "0 < k" "unat s + k + n \<le> 2 ^ 64" "i < n"
  shows "kmemmove (s + of_nat k) s n m (s + of_nat k + of_nat i) = m (s + of_nat (i mod k))"
proof -
  have a: "unat (s + of_nat j) = unat s + j" if "j < k + n" for j using area_unat [of s "k + n" j] assms(2) that by simp
  have inj: "s + of_nat j \<noteq> s + of_nat l" if "j < k + n" "l < k + n" "j \<noteq> l" for j l
    using a [OF that(1)] a [OF that(2)] that(3) by auto
  let ?d = "s + of_nat k"
  have at: "?d + of_nat j = s + of_nat (k + j)" for j by (simp add: add.assoc)
  have "\<forall>i<l. kmemcpy ?d s l m (?d + of_nat i) = m (s + of_nat (i mod k))" if "l \<le> n" for l
    using that
  proof (induction l)
    case (Suc l)
    have src: "kmemcpy ?d s l m (s + of_nat l) = m (s + of_nat (l mod k))"
    proof (cases "l < k")
      case True
      have "s + of_nat l \<noteq> ?d + of_nat j" if "j < l" for j unfolding at using inj [of l "k + j"] that True Suc.prems by simp
      then show ?thesis using kmemcpy_other [of l "s + of_nat l" ?d s m] True by simp
    next
      case False
      then have "s + of_nat l = ?d + of_nat (l - k)" unfolding at by simp
      moreover have "l - k < l" using False assms(1) by simp
      then have "kmemcpy ?d s l m (?d + of_nat (l - k)) = m (s + of_nat ((l - k) mod k))" using Suc.IH Suc.prems by (blast dest: Suc_leD)
      ultimately show ?thesis using False by (simp add: le_mod_geq)
    qed
    show ?case
    proof (intro allI impI)
      fix j assume j: "j < Suc l"
      show "kmemcpy ?d s (Suc l) m (?d + of_nat j) = m (s + of_nat (j mod k))"
      proof (cases "j = l")
        case True
        then show ?thesis using src by (simp add: kmemcpy_Suc)
      next
        case False
        then have "?d + of_nat j \<noteq> ?d + of_nat l" unfolding at using inj [of "k + j" "k + l"] j Suc.prems by simp
        then show ?thesis using Suc False j by (simp add: kmemcpy_Suc)
      qed
    qed
  qed simp
  then show ?thesis using assms(3) unfolding kmemmove_def by simp
qed

theorem kmemmove_repeats_witness:
  "kmemmove 0x101 0x100 3 (store 0x100 [7, 8, 9, 10]) 0x103 = 7"
proof -
  have "kmemmove (0x100 + of_nat 1) 0x100 3 (store 0x100 [7, 8, 9, 10]) (0x100 + of_nat 1 + of_nat 2) =
      store 0x100 [7, 8, 9, 10] (0x100 + of_nat (2 mod 1))"
    by (rule kmemmove_repeats) simp_all
  moreover have "store 0x100 [7, 8, 9, 10] 0x100 = 7" by code_simp
  ultimately show ?thesis by simp
qed

lemma pad_zero_other: "\<forall>i<n. a \<noteq> d + of_nat i \<Longrightarrow> pad_zero d n m a = m a"
proof (induction n arbitrary: d m)
  case (Suc n)
  have "\<forall>i<n. a \<noteq> d + 1 + of_nat i" using Suc.prems by (auto simp: add.assoc dest: spec [of _ "Suc i" for i])
  then have "pad_zero (d + 1) n (m(d := 0)) a = (m(d := 0)) a" by (rule Suc.IH)
  then show ?case using Suc.prems [rule_format, of 0] by simp
qed simp

lemma pad_zero_at: "i < n \<Longrightarrow> n < 2 ^ 32 \<Longrightarrow> pad_zero d n m (d + of_nat i) = 0"
proof (induction n arbitrary: i d m)
  case (Suc n)
  show ?case
  proof (cases i)
    case 0
    have "\<forall>j<n. d \<noteq> d + 1 + of_nat j" using offset_inj [of 0 "Suc j" d for j] Suc.prems(2) by (simp add: add.assoc)
    then show ?thesis using pad_zero_other [of n d "d + 1" "m(d := 0)"] 0 by simp
  next
    case (Suc j)
    then show ?thesis using Suc.IH [of j "d + 1" "m(d := 0)"] Suc.prems by (simp add: add.assoc del: fun_upd_apply)
  qed
qed simp

text \<open>One round with the memory after it, \<open>m1\<close>\<close>

lemma kstrncpy_round:
  obtains m1 where "m1 d = m s" "\<forall>a. a \<noteq> d \<longrightarrow> m1 a = m a"
    "kstrncpy d s (Suc n) m = (if m s \<noteq> 0 then kstrncpy (d + 1) (s + 1) n m1 else pad_zero (d + 1) n m1)"
proof -
  show thesis by (rule that [of "m(d := m s)"]) (simp_all add: Let_def del: fun_upd_apply, simp_all)
qed

lemma kstrncpy_other: "\<forall>i<n. a \<noteq> d + of_nat i \<Longrightarrow> kstrncpy d s n m a = m a"
proof (induction n arbitrary: d s m)
  case (Suc n)
  have o: "\<forall>i<n. a \<noteq> d + 1 + of_nat i" "a \<noteq> d" using Suc.prems by (auto simp: add.assoc dest: spec [of _ "Suc i" for i] spec [of _ 0])
  from kstrncpy_round [of d m s n] obtain m1 where "m1 d = m s" and m1: "\<forall>a. a \<noteq> d \<longrightarrow> m1 a = m a"
    "kstrncpy d s (Suc n) m = (if m s \<noteq> 0 then kstrncpy (d + 1) (s + 1) n m1 else pad_zero (d + 1) n m1)" .
  show ?case unfolding m1(2) using Suc.IH [OF o(1), of "s + 1" m1] pad_zero_other [OF o(1), of m1] m1(1) o(2) by simp
qed simp

lemma kstrncpy_at:
  "i < n \<Longrightarrow> n < 2 ^ 32 \<Longrightarrow> cstr m s xs \<Longrightarrow> \<forall>i<n. \<forall>j\<le>length xs. d + of_nat i \<noteq> s + of_nat j \<Longrightarrow>
    kstrncpy d s n m (d + of_nat i) = (if i < length xs then xs ! i else 0)"
proof (induction n arbitrary: i d s m xs)
  case (Suc n)
  from kstrncpy_round [of d m s n] obtain m1 where m1: "m1 d = m s" "\<forall>a. a \<noteq> d \<longrightarrow> m1 a = m a"
    "kstrncpy d s (Suc n) m = (if m s \<noteq> 0 then kstrncpy (d + 1) (s + 1) n m1 else pad_zero (d + 1) n m1)" .
  have apart: "\<forall>j<n. d \<noteq> d + 1 + of_nat j" using offset_inj [of 0 "Suc j" d for j] Suc.prems(2) by (simp add: add.assoc)
  show ?case
  proof (cases i)
    case 0
    have "kstrncpy d s (Suc n) m d = m s" unfolding m1(3)
      using kstrncpy_other [OF apart, of "s + 1" m1] pad_zero_other [OF apart, of m1] m1(1) by simp
    then show ?thesis using 0 Suc.prems(3) by (cases xs) simp_all
  next
    case i: (Suc j)
    show ?thesis
    proof (cases xs)
      case Nil
      then show ?thesis unfolding m1(3) using pad_zero_at [of j n "d + 1" m1] i Suc.prems by (simp add: add.assoc)
    next
      case (Cons x ys)
      have k: "s + of_nat k \<noteq> d" if "k \<le> length xs" for k using Suc.prems(4) [rule_format, of 0 k] that by simp
      have "cstr m1 s xs" using Suc.prems(3) cstr_cong [of xs m1 s m] k m1(2) by simp
      then have c: "cstr m1 (s + 1) ys" using Cons by simp
      have "\<forall>i<n. \<forall>j\<le>length ys. d + 1 + of_nat i \<noteq> s + 1 + of_nat j"
        using Suc.prems(4) [rule_format, of "Suc i" "Suc j" for i j] Cons by (simp add: add.assoc)
      from Suc.IH [OF _ _ c this] show ?thesis unfolding m1(3) using i Suc.prems Cons by (simp add: add.assoc)
    qed
  qed
qed simp

text \<open>The kernel's \<^verbatim>\<open>strncpy\<close> writes exactly \<open>n\<close> bytes: the first \<open>n\<close> bytes of the string and zeros up to
  \<open>n\<close>, so that a string of \<open>n\<close> bytes or more is left without a terminator, and no other byte changes.
  Target and source do not overlap.\<close>

theorem kstrncpy_pads:
  assumes "n < 2 ^ 31" "cstr m s xs" "\<forall>i<n. \<forall>j\<le>length xs. d + of_nat i \<noteq> s + of_nat j"
  shows "(\<forall>i<n. kstrncpy d s n m (d + of_nat i) = (if i < length xs then xs ! i else 0)) \<and>
    (\<forall>a. (\<forall>i<n. a \<noteq> d + of_nat i) \<longrightarrow> kstrncpy d s n m a = m a)"
  using kstrncpy_at [OF _ _ assms(2,3)] kstrncpy_other assms(1) by auto

theorem kstrncpy_pads_witness:
  "kstrncpy 0x200 0x100 4 (store 0x100 [7, 8, 0]) 0x201 = 8 \<and> kstrncpy 0x200 0x100 4 (store 0x100 [7, 8, 0]) 0x203 = 0"
proof -
  have c: "cstr (store 0x100 [7, 8, 0]) 0x100 [7, 8]" by code_simp
  have "\<forall>i<4. \<forall>j\<le>length [7 :: u8, 8]. 0x200 + of_nat i \<noteq> (0x100 :: addr) + of_nat j"
    using areas_apart [of "0x100" 2 "0x200" 4] by (simp add: placed_def)
  note k = kstrncpy_pads [OF _ c this, simplified]
  show ?thesis using k [THEN conjunct1, rule_format, of 1] k [THEN conjunct1, rule_format, of 3] by simp
qed

end
