(* ===== verification/Shim.thy ===== *)
theory Shim
  imports LibcStdio FileCalls
begin

text \<open>
  The way of a system call into the kernel: \<^verbatim>\<open>syscall_handler_zig\<close> of \<^verbatim>\<open>syscall_linux.zig\<close>, which both
  \<^verbatim>\<open>int 0x80\<close> and the \<^verbatim>\<open>syscall\<close> instruction reach, replaces the Linux number of a call by the kernel's own
  number, and the \<^verbatim>\<open>switch\<close> of \<^verbatim>\<open>syscall_handler\<close> in \<^verbatim>\<open>syscall.c\<close> selects the handler by that number.
  The saved registers are an array of 64-bit words, and the state is the memory of the program with the
  kernel. The body of a \<^verbatim>\<open>case\<close> is a function of its label, the registers, the four arguments and the state;
  the theorems hold for every such function. The trace of the calls for debugging is left out.
\<close>

section \<open>Numbers\<close>

text \<open>The labels of the \<^verbatim>\<open>switch\<close>, by the names \<^verbatim>\<open>syscall.h\<close> gives them; a label that the code writes as a
  number has the name of its Linux call.\<close>

type_synonym call = string

definition labels :: "(int \<times> call) list" where
  "labels =
    [(1, ''exit''), (4, ''write''), (409, ''writev''), (3, ''read''), (56, ''clone''), (19, ''readv''),
     (5, ''open''), (6, ''close''), (33, ''access''), (189, ''fstat''), (199, ''lstat''), (188, ''stat''),
     (204, ''lseek''), (10, ''unlink''), (136, ''mkdir2''), (137, ''rmdir2''), (257, ''openat''),
     (258, ''mkdirat''), (262, ''newfstatat''), (263, ''unlinkat''), (264, ''renameat''),
     (267, ''readlinkat''), (89, ''readlink''), (402, ''chmod''), (403, ''fchmod''), (404, ''chown''),
     (405, ''fchown''), (406, ''statfs''), (407, ''fstatfs''), (197, ''mmap''), (73, ''munmap''),
     (74, ''mprotect''), (28, ''madvise''), (26, ''msync''), (75, ''mremap''), (198, ''kbhit''),
     (20, ''getpid''), (24, ''getuid''), (25, ''geteuid''), (47, ''getgid''), (48, ''getegid''),
     (54, ''ioctl''), (7, ''poll''), (23, ''select''), (271, ''ppoll''), (290, ''eventfd2''),
     (283, ''timerfd_create''), (286, ''timerfd_settime''), (287, ''timerfd_gettime''),
     (213, ''epoll_create''), (291, ''epoll_create''), (233, ''epoll_ctl''), (232, ''epoll_wait''),
     (281, ''epoll_wait''), (134, ''sigaction''), (173, ''sigreturn''), (116, ''gettimeofday''),
     (200, ''disp_get_fb''), (202, ''mouse_read''), (201, ''disp_flush''), (205, ''disp_flush_rect''),
     (203, ''kb_mod''), (207, ''readdir''), (214, ''fork_real''), (208, ''execve''), (209, ''shell_cmd''),
     (210, ''spawn''), (211, ''spawn_shared''), (158, ''arch_prctl''), (231, ''brk''), (212, ''exit_group''),
     (186, ''gettid''), (218, ''set_tid_address''), (61, ''wait4''), (62, ''kill''), (103, ''tgkill''),
     (14, ''rt_sigprocmask''), (15, ''rt_sigreturn''), (131, ''sigaltstack''), (157, ''prctl''),
     (273, ''set_robust_list''), (274, ''get_robust_list''), (334, ''rseq''), (96, ''futex''),
     (228, ''clock_gettime''), (234, ''nanosleep''), (63, ''uname''), (318, ''getrandom''),
     (229, ''clock_getres''), (98, ''getrusage''), (100, ''times''), (401, ''sysinfo''), (110, ''getppid''),
     (121, ''getpgid''), (400, ''umask''), (72, ''fcntl''), (32, ''dup''), (91, ''dup2''), (292, ''dup3''),
     (22, ''pipe''), (293, ''pipe2''), (41, ''socket''), (49, ''bind''), (50, ''listen''), (42, ''connect''),
     (288, ''accept4''), (43, ''accept''), (44, ''sendto''), (46, ''sendmsg''), (45, ''recvfrom''),
     (92, ''recvmsg''), (53, ''socketpair''), (408, ''shutdown''), (51, ''getsockname'')]"

definition call_of :: "int \<Rightarrow> call option" where "call_of = map_of labels"

text \<open>The entries that the table of the shim overwrites, in order; every other number stands for itself.\<close>

definition overwritten :: "(int \<times> int) list" where
  "overwritten =
    [(0, 3), (1, 4), (2, 5), (3, 6), (4, 188), (5, 189), (6, 199), (7, 7), (8, 204), (9, 197), (10, 74),
     (11, 73), (12, 231), (13, 134), (14, 14), (15, 15), (131, 131), (157, 157), (202, 96), (234, 103),
     (334, 334), (16, 54), (21, 33), (22, 22), (23, 23), (24, 90), (25, 75), (26, 26), (27, 27), (28, 28),
     (33, 91), (35, 234), (39, 20), (20, 409), (40, 40), (41, 41), (42, 42), (43, 43), (44, 44), (45, 45),
     (46, 46), (47, 92), (48, 408), (49, 49), (50, 50), (53, 53), (54, 93), (57, 214), (59, 208), (60, 1),
     (61, 61), (62, 62), (72, 72), (78, 207), (83, 136), (84, 137), (87, 10), (96, 116), (97, 97), (98, 98),
     (100, 100), (95, 400), (99, 401), (102, 24), (104, 47), (107, 25), (108, 48), (130, 130), (129, 129),
     (134, 94), (158, 158), (160, 160), (165, 165), (166, 166), (200, 95), (202, 96), (203, 99), (204, 101),
     (213, 213), (232, 232), (233, 233), (234, 103), (247, 247), (218, 218), (273, 273), (274, 274),
     (257, 257), (258, 258), (262, 262), (263, 263), (264, 264), (267, 267), (90, 402), (91, 403), (92, 404),
     (93, 405), (137, 406), (138, 407), (281, 281), (285, 285), (288, 288), (291, 291), (292, 292), (293, 293),
     (296, 296), (302, 302), (318, 318), (271, 271), (283, 283), (286, 286), (287, 287), (290, 290),
     (309, 309), (332, 332), (326, 326), (221, 221), (231, 212)]"

definition linux_to_tipos :: "int \<Rightarrow> int" where
  "linux_to_tipos i = fold (\<lambda>(j, v) w. if j = i then v else w) overwritten i"

section \<open>Registers\<close>

text \<open>The order in which the entry code has pushed them\<close>

type_synonym regs = "nat \<Rightarrow> u64"

abbreviation RAX :: nat where "RAX \<equiv> 0"
abbreviation RCX :: nat where "RCX \<equiv> 1"
abbreviation RDX :: nat where "RDX \<equiv> 2"
abbreviation RSI :: nat where "RSI \<equiv> 3"
abbreviation RDI :: nat where "RDI \<equiv> 4"
abbreviation R8 :: nat where "R8 \<equiv> 5"
abbreviation R10 :: nat where "R10 \<equiv> 7"

definition is_socket :: "u64 \<Rightarrow> bool" where
  "is_socket num \<longleftrightarrow> 41 \<le> num \<and> num \<le> 53 \<or> num = 288"

definition syscall_handler_zig :: "(regs \<Rightarrow> 'k \<Rightarrow> regs \<times> 'k) \<Rightarrow> regs \<Rightarrow> 'k \<Rightarrow> regs \<times> 'k" where
  "syscall_handler_zig handler r k =
    (let num = r RAX in
     if 512 \<le> num then (r(RAX := -1), k)
     else
       let mapped = of_int (linux_to_tipos (uint num));
           r = r(RAX := mapped);
           r = (if mapped \<noteq> num \<or> is_socket num then r(RCX := r R10) else r)
       in handler r k)"

text \<open>A handler gives the result of the call, the saved registers and the state.\<close>

type_synonym ('e, 'd) handlers =
  "call \<Rightarrow> regs \<Rightarrow> u64 \<Rightarrow> u64 \<Rightarrow> u64 \<Rightarrow> u64 \<Rightarrow> ('e, 'd) sys prog \<Rightarrow> u64 \<times> regs \<times> ('e, 'd) sys prog"

text \<open>What \<^verbatim>\<open>syscall_handler\<close> does before and behind the \<^verbatim>\<open>switch\<close>\<close>

definition enter_call :: "('e, 'd) sys prog \<Rightarrow> ('e, 'd) sys prog" where
  "enter_call st = (case st of (m, s) \<Rightarrow> (m, s\<lparr>kern := (fds_bind_current (kern s))\<lparr>g_in_syscall := True\<rparr>\<rparr>))"

definition leave_call :: "('e, 'd) sys prog \<Rightarrow> ('e, 'd) sys prog" where
  "leave_call st = (case st of (m, s) \<Rightarrow> (m, s\<lparr>kern := (kern s)\<lparr>g_in_syscall := False\<rparr>\<rparr>))"

definition syscall_handler :: "('e, 'd) handlers \<Rightarrow> regs \<Rightarrow> ('e, 'd) sys prog \<Rightarrow> regs \<times> ('e, 'd) sys prog" where
  "syscall_handler serve r st =
    (let st = enter_call st in
     case (case call_of (uint (r RAX)) of
             None \<Rightarrow> (-1, r, st)
           | Some c \<Rightarrow> serve c r (r RDI) (r RSI) (r RDX) (r RCX) st) of
       (ret, r, st) \<Rightarrow> (r(RAX := ret), leave_call st))"

text \<open>The result of a call from outside\<close>

definition served :: "('e, 'd) handlers \<Rightarrow> regs \<Rightarrow> ('e, 'd) sys prog \<Rightarrow> u64 \<times> ('e, 'd) sys prog" where
  "served serve r st = (case syscall_handler_zig (syscall_handler serve) r st of (r, st) \<Rightarrow> (r RAX, st))"

text \<open>\<^verbatim>\<open>_syscall\<close> of the C library: what it puts into the registers before the instruction \<^verbatim>\<open>int 0x80\<close>; its callers
  pass 0 as the fourth argument. The other registers are as the program has them.\<close>

definition libc_syscall :: "regs \<Rightarrow> ('e, 'd) handlers \<Rightarrow> ('e, 'd) sys int80" where
  "libc_syscall r serve num a1 a2 a3 st =
    served serve (r(RAX := of_nat num, RDI := a1, RSI := a2, RDX := a3, RCX := 0)) st"

section \<open>Where the calls arrive\<close>


text \<open>The register in which the handler finds its fourth argument\<close>

definition fourth :: "int \<Rightarrow> nat" where
  "fourth n = (if linux_to_tipos n \<noteq> n \<or> 41 \<le> n \<and> n \<le> 53 \<or> n = 288 then R10 else RCX)"

definition entry_sound :: "int \<Rightarrow> call \<Rightarrow> bool" where
  "entry_sound n c \<longleftrightarrow> 0 \<le> n \<and> n < 512 \<and>
    (let m = linux_to_tipos n in 0 \<le> m \<and> m < 512 \<and> call_of m = Some c)"

lemma uint_small: "0 \<le> n \<Longrightarrow> n < 512 \<Longrightarrow> uint (of_int n :: u64) = n"
  by (simp add: uint_word_of_int)

definition run_handler :: "('e, 'd) handlers \<Rightarrow> call \<Rightarrow> regs \<Rightarrow> ('e, 'd) sys prog \<Rightarrow> u64 \<times> ('e, 'd) sys prog" where
  "run_handler serve c r st =
    (case serve c r (r RDI) (r RSI) (r RDX) (r RCX) (enter_call st) of (ret, _, st) \<Rightarrow> (ret, leave_call st))"

lemma served_call:
  assumes "r RAX = of_int n" "entry_sound n c"
  shows "served serve r k = run_handler serve c (r(RAX := of_int (linux_to_tipos n), RCX := r (fourth n))) k"
proof -
  have e: "0 \<le> n" "n < 512" "0 \<le> linux_to_tipos n" "linux_to_tipos n < 512" "call_of (linux_to_tipos n) = Some c"
    using assms(2) by (simp_all add: entry_sound_def Let_def)
  have n: "uint (r RAX) = n" unfolding assms(1) by (rule uint_small [OF e(1,2)])
  have l: "\<not> 512 \<le> r RAX" using n e(2) by (simp add: word_le_def)
  have m: "uint (of_int (linux_to_tipos n) :: u64) = linux_to_tipos n" by (rule uint_small [OF e(3,4)])
  have "(of_int (linux_to_tipos n) :: u64) \<noteq> r RAX \<longleftrightarrow> linux_to_tipos n \<noteq> n"
    unfolding word_uint_eq_iff n m by simp
  moreover have "is_socket (r RAX) \<longleftrightarrow> 41 \<le> n \<and> n \<le> 53 \<or> n = 288"
    unfolding is_socket_def word_le_def word_uint_eq_iff n by simp
  ultimately have "syscall_handler_zig (syscall_handler serve) r k =
      syscall_handler serve (r(RAX := of_int (linux_to_tipos n), RCX := r (fourth n))) k"
    using n l by (auto simp: syscall_handler_zig_def Let_def fourth_def fun_upd_idem_iff)
  then show ?thesis using e(5) m by (simp add: served_def syscall_handler_def run_handler_def Let_def split: prod.splits)
qed





text \<open>The C library passes the kernel's own numbers, but \<^verbatim>\<open>int 0x80\<close> takes them for Linux numbers. Of its calls
  \<^verbatim>\<open>mkdir\<close>, \<^verbatim>\<open>stat\<close>, \<^verbatim>\<open>fstat\<close> and \<^verbatim>\<open>kbhit\<close> reach their handlers; \<^verbatim>\<open>read\<close> closes the descriptor, \<^verbatim>\<open>write\<close> and \<^verbatim>\<open>close\<close>
  take the descriptor for the address of a path, \<^verbatim>\<open>open\<close> takes the path for a descriptor, \<^verbatim>\<open>unlink\<close> changes
  the protection of the memory at the path, and \<^verbatim>\<open>lseek\<close> has a number that is that of \<^verbatim>\<open>lstat\<close> in the kernel
  already.\<close>

definition arrives :: "('e, 'd) handlers \<Rightarrow> call \<Rightarrow> ('e, 'd) sys int80 \<Rightarrow> nat \<Rightarrow> bool" where
  "arrives serve c sysc num \<longleftrightarrow> (\<forall>a1 a2 a3 st. \<exists>r ret r2 st'.
     serve c r a1 a2 a3 (r RCX) (enter_call st) = (ret, r2, st') \<and> sysc num a1 a2 a3 st = (ret, leave_call st'))"

theorem libc_calls_misdirected:
  "\<forall>(num, c) \<in> {(3, ''close''), (4, ''stat''), (5, ''fstat''), (6, ''lstat''), (199, ''lstat''), (10, ''mprotect''),
      (137, ''statfs''), (136, ''mkdir2''), (188, ''stat''), (189, ''fstat''), (198, ''kbhit'')}.
    arrives serve c (libc_syscall r serve) num"
proof -
  have s: "arrives serve c (libc_syscall r serve) n" if "entry_sound (int n) c" for n c
    unfolding arrives_def
  proof (intro allI)
    fix a1 a2 a3 :: u64 and st
    let ?r = "r(RAX := of_nat n, RDI := a1, RSI := a2, RDX := a3, RCX := 0)"
    let ?s = "?r(RAX := of_int (linux_to_tipos (int n)), RCX := ?r (fourth (int n)))"
    have e: "libc_syscall r serve n a1 a2 a3 st = run_handler serve c ?s st"
      unfolding libc_syscall_def by (rule served_call [OF _ that]) simp
    obtain ret r2 st' where "serve c ?s a1 a2 a3 (?s RCX) (enter_call st) = (ret, r2, st')" by (metis prod_cases3)
    then show "\<exists>r' ret r2 st'. serve c r' a1 a2 a3 (r' RCX) (enter_call st) = (ret, r2, st') \<and>
        libc_syscall r serve n a1 a2 a3 st = (ret, leave_call st')"
      unfolding e by (intro exI [of _ ?s] exI [of _ ret] exI [of _ r2] exI [of _ st']) (simp add: run_handler_def)
  qed
  have e: "list_all (\<lambda>(n, c). entry_sound n c) [(3, ''close''), (4, ''stat''), (5, ''fstat''), (6, ''lstat''),
      (199, ''lstat''), (10, ''mprotect''), (137, ''statfs''), (136, ''mkdir2''), (188, ''stat''), (189, ''fstat''),
      (198, ''kbhit'')]"
    by code_simp
  show ?thesis by (auto intro!: s) (use e in simp_all)
qed

end
