(* ===== verification/Spec2Isabelle.thy ===== *)
theory Spec2Isabelle
  imports BuddyProps PagingProps VmMapProps ProcessThms Fat32Props VfsProps DescriptorProps FileProps ConsoleProps Env KUtils LibcStdioProps Shim
begin

text \<open>
  A verification library for TipOS: the OvsbMk kernel under \<^verbatim>\<open>src/OvsbMk\<close> and its user-space library
  under \<^verbatim>\<open>src/src/userland\<close>.

  \<^bold>\<open>The program.\<close> The kernel manages 64 MB of physical memory with a buddy allocator whose free lists
  live in the free frames themselves; slabs and per-CPU pools on top of it give \<^verbatim>\<open>kmalloc\<close>. Page tables
  are frames of the same heap. Each process has a list of map entries that describes its address space
  and is turned into page-table entries by wiring. Processes occupy 64 slots and are scheduled round
  robin; \<^verbatim>\<open>fork\<close> and \<^verbatim>\<open>clone\<close> fill free slots. Every process has a table of 16 descriptors for files,
  pipes, Unix sockets, timers and events; pipes and sockets share a ring buffer of 4096 bytes. Files come
  from a FAT32 or an ext2 volume behind a path-resolving layer; the file calls combine descriptors, volumes
  and the console. Programs enter the kernel with Linux call numbers, which a shim translates. The C
  library of the user programs has its own strings, allocator and formatted input and output.

  \<^bold>\<open>Theories and what they model.\<close>

  \<^item> \<open>Prelude\<close>: machine words, addresses, powers of two.

  \<^item> \<open>Buddy\<close> (\<^verbatim>\<open>memory.c\<close>: the frame allocator and the user-page layer), \<open>Slab\<close> (\<^verbatim>\<open>memory.c\<close>: slabs, per-CPU
    pools, \<^verbatim>\<open>kmalloc\<close>, \<^verbatim>\<open>kfree\<close>, \<^verbatim>\<open>kcalloc\<close>), \<open>Paging\<close> (\<^verbatim>\<open>memory.c\<close>: page tables). The state is the record
    \<open>kheap\<close>: one store of 64-bit words for all of physical memory plus the file's static variables. List
    links, slab headers and page tables are read and written through the store, so they alias as in C.

  \<^item> \<open>KState\<close>: the record \<open>kernel\<close> that all further kernel components share, with the structures of
    \<^verbatim>\<open>process.h\<close>, \<^verbatim>\<open>vm_map.h\<close> and \<^verbatim>\<open>syscall.c\<close>.

  \<^item> \<open>VmMap\<close> (\<^verbatim>\<open>vm_map.c\<close>): objects, map entries, wiring, \<^verbatim>\<open>vm_mmap\<close>, \<^verbatim>\<open>vm_munmap\<close>, \<^verbatim>\<open>vm_mprotect\<close>.

  \<^item> \<open>Process\<close> and \<open>Fork\<close> (\<^verbatim>\<open>process.c\<close>): creation, scheduling, exit and wait; fork, threads, the copy of an
    address space.

  \<^item> \<open>Channels\<close> and \<open>Descriptors\<close> (\<^verbatim>\<open>syscall.c\<close>): the ring buffer; descriptor tables, \<^verbatim>\<open>dup\<close>, \<^verbatim>\<open>fcntl\<close>, pipes,
    sockets, event and timer descriptors, one definition per system call. Blocking loops take fuel and an
    \<open>env\<close> that stands for what other processes do between two passes.

  \<^item> \<open>Fat32\<close> and \<open>Fat32Ops\<close> (\<^verbatim>\<open>fat32.c\<close>): the volume as a function from sectors to bytes with sectors that
    may fail to read or write; the allocation table, chains, directory slots and every operation.

  \<^item> \<open>Vfs\<close> (\<^verbatim>\<open>vfs.c\<close>): path resolution and dispatch. The ext2 driver is written in Zig and is a parameter: a
    record of the functions the layer calls.

  \<^item> \<open>Console\<close> (\<^verbatim>\<open>console.c\<close>): the scroll-back buffer, the cursor, what has been drawn on the screen,
    \<^verbatim>\<open>console_printf\<close>.

  \<^item> \<open>FileCalls\<close> (\<^verbatim>\<open>syscall.c\<close>): the calls on files and terminals, \<^verbatim>\<open>read\<close>, \<^verbatim>\<open>write\<close>, \<^verbatim>\<open>readv\<close>, \<^verbatim>\<open>writev\<close>, \<^verbatim>\<open>open\<close>,
    \<^verbatim>\<open>openat\<close>, \<^verbatim>\<open>stat\<close>, \<^verbatim>\<open>lseek\<close>, the directory calls, \<^verbatim>\<open>poll\<close>, \<^verbatim>\<open>select\<close> and others, over the record \<open>sys\<close> of
    kernel, volumes and console. Keyboard and display drivers are a parameter.

  \<^item> \<open>Shim\<close> (\<^verbatim>\<open>syscall_linux.zig\<close>, the frame of \<^verbatim>\<open>syscall_handler\<close> in \<^verbatim>\<open>syscall.c\<close>): the table of call numbers, the
    registers of the arguments, the selection of a handler. The handlers are a parameter of this theory.

  \<^item> \<open>Env\<close> (\<^verbatim>\<open>env.c\<close>): variables and aliases of the kernel shell. \<open>KUtils\<close> (\<^verbatim>\<open>utils.c\<close>): the kernel's string and
    memory functions.

  \<^item> \<open>LibcString\<close>, \<open>LibcStdlib\<close>, \<open>LibcStdio\<close> (\<^verbatim>\<open>libc/string.c\<close>, \<^verbatim>\<open>stdlib.c\<close>, \<^verbatim>\<open>stdio.c\<close>): the user-space library
    over a store of bytes; the instruction \<^verbatim>\<open>int 0x80\<close> is a parameter.

  A C function that returns a status returns an integer or an option here; an error path is a branch of
  the definition with the code's value. Integers have their C width where a wrap-around can show.

  \<^bold>\<open>What the lemmas show.\<close>

  \<^item> \<open>Partition\<close>, \<open>FreeList\<close>, \<open>BuddyInv\<close>, \<open>BuddyCorrect\<close>, \<open>BuddyProps\<close>: free lists are well linked, free and
    allocated blocks tile the heap, every operation keeps this and does to the tiling what it should;
    live memory is never touched. \<open>AllocIface\<close> states the contract of an allocator as the locale
    \<open>allocator\<close>, which \<open>BuddyCorrect\<close> interprets on \<open>buddy_alloc\<close> and \<open>buddy_free\<close>.

  \<^item> \<open>PagingProps\<close>: splitting a 2 MB mapping keeps what the hardware's walk finds.

  \<^item> \<open>VmMapInv\<close>, \<open>VmMapProps\<close>: the entries of every map stay sorted, disjoint and counted; a mapping covers
    exactly its range, a failed one leaves no trace in the map, unmapping it restores the map, objects
    included.

  \<^item> \<open>ProcessProps\<close>, \<open>ProcessThms\<close>: pids are unique until their counter overflows, the scheduler is fair as long
    as nothing else chooses who runs, what fork, exit and wait do.

  \<^item> \<open>Channels\<close> (locale \<open>byte_channel\<close>, interpreted on the ring), \<open>DescriptorInv\<close>, \<open>DescriptorProps\<close>: the ring
    implements a bounded queue; tables, pipes and sockets stay consistent; what reaches whom.

  \<^item> \<open>Fat32Inv\<close>, \<open>Fat32Chain\<close>, \<open>Fat32Dir\<close>, \<open>Fat32File\<close>, \<open>Fat32Facts\<close>, \<open>Fat32Props\<close>: writing a chain stores the
    bytes and leaves other files alone; entries are found again; file contents round trip.

  \<^item> \<open>VfsProps\<close>: form, idempotence and meaning of resolved paths.

  \<^item> \<open>FileProps\<close>: what reads and writes through descriptors do to a FAT32 volume, what opening leaves behind in
    a descriptor, event descriptors, \<^verbatim>\<open>select\<close>.

  \<^item> \<open>Shim\<close>: every Linux call the kernel has a handler for reaches it; the calls of the kernel's own C library do
    not.

  \<^item> \<open>ConsoleProps\<close>: the screen shows the last lines written. \<open>Env\<close> (locale \<open>var_table\<close>, interpreted on the
    variables and on the aliases): a name has the value it was given last. \<open>KUtils\<close>: how the kernel's functions
    differ from those of the library.

  \<^item> \<open>LibcStringProps\<close>, \<open>LibcStdlibProps\<close>, \<open>LibcStdioProps\<close>: copying, searching and splitting of strings,
    printing and reading of numbers, the text a format denotes, and where the allocator and the formatting
    functions leave their buffers.

  \<^bold>\<open>Bounds and fuel.\<close> \<open>slab_alloc\<close> walks at most \<open>FRAME_COUNT\<close> slabs, one per frame. \<open>carve\<close> has fuel 4096, more
  than the objects of a page. The loops of the C library over strings and over the free list and the walk of
  \<^verbatim>\<open>pml4_walk_ptes\<close> may not end; they are partial functions with the value \<open>None\<close> in that case, and the
  theorems that they return show the value. The chain loops of FAT32 count the clusters left and end by themselves
  (\<open>chains_end\<close>). A directory walk has fuel because a circular chain makes it run for ever
  (\<open>circular_directory_search\<close>); for directories that end, more fuel does not change the result. The blocking
  loops of pipes and \<^verbatim>\<open>waitpid\<close> return \<open>None\<close> when their fuel ends; that they return is proved from the
  states in which they do, and that they never do as a statement about all fuel.

  \<^bold>\<open>Integers.\<close> Counters that the code keeps in an \<^verbatim>\<open>int\<close> are natural numbers or unbounded integers where a
  bound is evident; \<^verbatim>\<open>next_pid\<close>, which has none, wraps around (\<open>cint\<close>). The length that \<^verbatim>\<open>strlen\<close> counts differs
  from the code's from \<open>2 ^ 31\<close> bytes on.

  \<^bold>\<open>Not modelled.\<close> Privileged instructions, TLB maintenance, barriers, serial output and the tables kept for
  debug output have no effect on the modelled state. Some calls of \<^verbatim>\<open>syscall.c\<close> (\<^verbatim>\<open>ioctl\<close>, signals, clocks, memory
  calls that only forward, display and mouse), the program loaders (\<^verbatim>\<open>mach_o.c\<close>, \<^verbatim>\<open>elf64.zig\<close>), the start-up stack
  of a Linux program, the drivers, the shell, the graphical libraries and the user-space programs are not
  modelled: they are I/O with devices, Zig or assembly, or drawing code.
\<close>

end
